(* ===== verification/Prelude.thy ===== *)
theory Prelude
  imports Main "HOL-Library.Word"
begin

unbundle bit_operations_syntax

text \<open>
  What every component shares: bytes, Go strings and fixed-size arrays, the big-endian
  integers of encoding/binary, the ways a Go call can end (a value, an error value, a
  panic), and the codec interface that every wire and disk format of the program promises.
\<close>

named_theorems layout_simps \<open>lengths of byte layouts\<close>
named_theorems outcome_simps \<open>unfolding of calls that may fail\<close>

section \<open>Bytes, strings and arrays\<close>

type_synonym byte = "8 word"
type_synonym bytes = "8 word list"
type_synonym u32 = "32 word"
type_synonym u64 = "64 word"

text \<open>The bytes of a Go string: a character is a byte, so only the type changes.\<close>

definition str_bytes :: "string \<Rightarrow> bytes" where
  "str_bytes s = map (\<lambda>c. word_of_nat (of_char c)) s"

lemma length_str_bytes [simp, layout_simps]: "length (str_bytes s) = length s"
  by (simp add: str_bytes_def)

lemma str_bytes_append [simp]: "str_bytes (s @ t) = str_bytes s @ str_bytes t"
  by (simp add: str_bytes_def)

lemma byte_of_char_inj: "(word_of_nat (of_char c) :: byte) = word_of_nat (of_char d) \<longleftrightarrow> c = d"
proof
  assume "(word_of_nat (of_char c) :: byte) = word_of_nat (of_char d)"
  then have "(of_char c :: nat) mod 2 ^ 8 = of_char d mod 2 ^ 8"
    by (simp only: word_of_nat_eq_iff take_bit_eq_mod) simp
  then have "(of_char c :: nat) = of_char d"
    using of_char_mod_256 [of c, where ?'a = nat] of_char_mod_256 [of d, where ?'a = nat] by simp
  then show "c = d" by simp
qed simp

lemma str_bytes_inj [simp]: "str_bytes s = str_bytes t \<longleftrightarrow> s = t"
proof -
  have "inj (\<lambda>c. word_of_nat (of_char c) :: byte)"
    by (auto simp: inj_def byte_of_char_inj)
  then show ?thesis unfolding str_bytes_def by (rule inj_map_eq_map)
qed

text \<open>And back, as in \<open>string(b)\<close>.\<close>

definition bytes_str :: "bytes \<Rightarrow> string" where
  "bytes_str b = map (\<lambda>w. char_of (unat w)) b"

lemma unat_char_byte: "unat (word_of_nat (of_char c) :: byte) = of_char c"
proof -
  have "(of_char c :: nat) < 256"
    using of_char_mod_256 [of c, where ?'a = nat] by (metis mod_less_divisor zero_less_numeral)
  then show ?thesis by (simp add: unat_of_nat)
qed

lemma bytes_str_str_bytes [simp]: "bytes_str (str_bytes s) = s"
  by (simp add: bytes_str_def str_bytes_def comp_def unat_char_byte)

text \<open>
  \<open>fixed n b\<close> is the contents of a fresh \<open>[n]byte\<close> after \<open>copy(a[:], b)\<close>: at most
  \<open>n\<close> bytes are copied and the rest stays zero.
\<close>

definition fixed :: "nat \<Rightarrow> bytes \<Rightarrow> bytes" where
  "fixed n b = take n b @ replicate (n - length b) 0"

lemma length_fixed [simp, layout_simps]: "length (fixed n b) = n"
  by (simp add: fixed_def)

lemma fixed_id [simp]: "length b = n \<Longrightarrow> fixed n b = b"
  by (simp add: fixed_def)

text \<open>Splitting a concatenation at known lengths, the step of every layout proof.\<close>

lemma append_split_eq:
  "length a = length b \<Longrightarrow> a @ x = b @ y \<longleftrightarrow> a = b \<and> x = y"
  by simp

lemma take_append_exact [simp]: "length a = n \<Longrightarrow> take n (a @ b) = a"
  by simp

lemma drop_append_exact [simp]: "length a = n \<Longrightarrow> drop n (a @ b) = b"
  by simp

section \<open>Big-endian integers (encoding/binary)\<close>

definition be32 :: "u32 \<Rightarrow> bytes" where
  "be32 x = [ucast (drop_bit 24 x), ucast (drop_bit 16 x), ucast (drop_bit 8 x), ucast x]"

definition word32_of :: "byte \<Rightarrow> byte \<Rightarrow> byte \<Rightarrow> byte \<Rightarrow> u32" where
  "word32_of a b c d =
     push_bit 24 (ucast a) OR push_bit 16 (ucast b) OR push_bit 8 (ucast c) OR ucast d"

text \<open>\<open>binary.BigEndian.Uint32\<close> reads the first four bytes; callers guard the length.\<close>

definition get_be32 :: "bytes \<Rightarrow> u32" where
  "get_be32 b = (case b of b0 # b1 # b2 # b3 # _ \<Rightarrow> word32_of b0 b1 b2 b3 | _ \<Rightarrow> 0)"

lemma length_be32 [simp, layout_simps]: "length (be32 x) = 4"
  by (simp add: be32_def)

lemma word32_of_be32:
  "word32_of (ucast (drop_bit 24 x)) (ucast (drop_bit 16 x)) (ucast (drop_bit 8 x)) (ucast x) = x"
  unfolding word32_of_def
proof (rule bit_word_eqI)
  fix n assume "n < LENGTH(32)"
  then show "bit (push_bit 24 (ucast (ucast (drop_bit 24 x) :: byte)) OR
      push_bit 16 (ucast (ucast (drop_bit 16 x) :: byte)) OR
      push_bit 8 (ucast (ucast (drop_bit 8 x) :: byte)) OR ucast (ucast x :: byte) :: u32) n = bit x n"
    by (cases "n < 8"; cases "n < 16"; cases "n < 24"; auto simp: bit_simps)
qed

lemma get_be32_be32 [simp]: "get_be32 (be32 x @ rest) = x"
  by (simp add: get_be32_def be32_def word32_of_be32)

lemma get_be32_be32_alone [simp]: "get_be32 (be32 x) = x"
  using get_be32_be32 [of x "[]"] by simp

lemma be32_inj [simp]: "be32 x = be32 y \<longleftrightarrow> x = y"
  by (metis get_be32_be32_alone)

lemma be32_word32_of: "be32 (word32_of a b c d) = [a, b, c, d]"
proof -
  have "ucast (drop_bit 24 (word32_of a b c d)) = a" "ucast (drop_bit 16 (word32_of a b c d)) = b"
    "ucast (drop_bit 8 (word32_of a b c d)) = c" "ucast (word32_of a b c d) = d"
    unfolding word32_of_def
    by (rule bit_word_eqI; auto simp: bit_simps dest: bit_imp_le_length)+
  then show ?thesis by (simp add: be32_def)
qed

lemma be32_get_be32: "length b = 4 \<Longrightarrow> be32 (get_be32 b) = b"
  by (auto simp: get_be32_def be32_word32_of numeral_eq_Suc length_Suc_conv)

definition be64 :: "u64 \<Rightarrow> bytes" where
  "be64 x = be32 (ucast (drop_bit 32 x)) @ be32 (ucast x)"

definition get_be64 :: "bytes \<Rightarrow> u64" where
  "get_be64 b = push_bit 32 (ucast (get_be32 b)) OR ucast (get_be32 (drop 4 b))"

lemma length_be64 [simp, layout_simps]: "length (be64 x) = 8"
  by (simp add: be64_def)

lemma get_be64_be64 [simp]: "get_be64 (be64 x) = x"
proof -
  have "push_bit 32 (ucast (ucast (drop_bit 32 x) :: u32)) OR ucast (ucast x :: u32) = x"
  proof (rule bit_word_eqI)
    fix n assume "n < LENGTH(64)"
    then show "bit (push_bit 32 (ucast (ucast (drop_bit 32 x) :: u32)) OR ucast (ucast x :: u32) :: u64) n
        = bit x n"
      by (cases "n < 32") (auto simp: bit_simps)
  qed
  then show ?thesis by (simp add: get_be64_def be64_def)
qed

section \<open>Structs of fixed-size fields (binary.Write and binary.Read)\<close>

fun split_fields :: "nat list \<Rightarrow> bytes \<Rightarrow> bytes list" where
  "split_fields [] d = []"
| "split_fields (n # ns) d = take n d # split_fields ns (drop n d)"

lemma split_fields_concat: "map length bs = ns \<Longrightarrow> split_fields ns (concat bs @ rest) = bs"
  by (induction bs arbitrary: ns) auto

lemma concat_split_fields: "concat (split_fields ns d) = take (sum_list ns) d"
  by (induction ns arbitrary: d) (simp_all add: take_add)

lemma length_split_fields: "sum_list ns \<le> length d \<Longrightarrow> map length (split_fields ns d) = ns"
  by (induction ns arbitrary: d) auto

text \<open>\<open>copy(a, b)\<close> into a slice that exists: the bytes past the end of \<open>b\<close> stay.\<close>

definition copy_into :: "bytes \<Rightarrow> bytes \<Rightarrow> bytes" where
  "copy_into a b = take (length a) b @ drop (length b) a"

lemma length_copy_into [simp]: "length (copy_into a b) = length a"
  by (simp add: copy_into_def)

lemma copy_into_same [simp]: "length b = length a \<Longrightarrow> copy_into a b = b"
  by (simp add: copy_into_def)

section \<open>How a Go call ends\<close>

text \<open>
  A call returns a value, returns an error value, or panics. Keeping the panic apart from
  the errors is what lets a theorem say that a handler never crashes, or that it can.
\<close>

datatype ('e, 'a) outcome = Ok 'a | Err 'e | Panic

fun bind_outcome :: "('e, 'a) outcome \<Rightarrow> ('a \<Rightarrow> ('e, 'b) outcome) \<Rightarrow> ('e, 'b) outcome" where
  "bind_outcome (Ok a) f = f a"
| "bind_outcome (Err e) f = Err e"
| "bind_outcome Panic f = Panic"

fun is_ok :: "('e, 'a) outcome \<Rightarrow> bool" where
  "is_ok (Ok _) = True"
| "is_ok _ = False"

lemma bind_outcome_Ok [outcome_simps]:
  "bind_outcome m f = Ok b \<longleftrightarrow> (\<exists>a. m = Ok a \<and> f a = Ok b)"
  by (cases m) auto

lemma bind_outcome_Panic [outcome_simps]:
  "bind_outcome m f = Panic \<longleftrightarrow> m = Panic \<or> (\<exists>a. m = Ok a \<and> f a = Panic)"
  by (cases m) auto

lemma bind_outcome_assoc:
  "bind_outcome (bind_outcome m f) g = bind_outcome m (\<lambda>a. bind_outcome (f a) g)"
  by (cases m) auto

lemma is_ok_iff: "is_ok m \<longleftrightarrow> (\<exists>a. m = Ok a)"
  by (cases m) auto

text \<open>A loop whose body may fail.\<close>

fun fold_outcome :: "('x \<Rightarrow> 's \<Rightarrow> ('e, 's) outcome) \<Rightarrow> 'x list \<Rightarrow> 's \<Rightarrow> ('e, 's) outcome" where
  "fold_outcome f [] s = Ok s"
| "fold_outcome f (x # xs) s = bind_outcome (f x s) (fold_outcome f xs)"

lemma fold_outcome_invariant:
  assumes "\<And>x s s'. x \<in> set xs \<Longrightarrow> I s \<Longrightarrow> f x s = Ok s' \<Longrightarrow> I s'"
    and "fold_outcome f xs s = Ok s'" and "I s"
  shows "I s'"
  using assms
proof (induction xs arbitrary: s)
  case (Cons x xs)
  then obtain s1 where "f x s = Ok s1" "fold_outcome f xs s1 = Ok s'"
    by (auto simp: bind_outcome_Ok)
  with Cons show ?case by (metis list.set_intros)
qed simp

section \<open>The codec interface\<close>

text \<open>
  What a wire or disk format promises: a well-formed value decodes from its own encoding.
  Whoever signs, hashes or keys by an encoding relies on the consequence that the encoding
  determines the value.
\<close>

locale codec =
  fixes enc :: "'a \<Rightarrow> bytes" and dec :: "bytes \<Rightarrow> ('e, 'a) outcome" and wf :: "'a \<Rightarrow> bool"
  assumes dec_enc: "wf x \<Longrightarrow> dec (enc x) = Ok x"
begin

lemma enc_determines: "wf x \<Longrightarrow> wf y \<Longrightarrow> enc x = enc y \<Longrightarrow> x = y"
  using dec_enc by (metis outcome.inject(1))

lemma enc_inj_on: "inj_on enc (Collect wf)"
  by (auto simp: inj_on_def intro: enc_determines)

lemma dec_enc_no_panic: "wf x \<Longrightarrow> dec (enc x) \<noteq> Panic"
  by (simp add: dec_enc)

end

end
