(* ===== verification/Keywheel.thy ===== *)
theory Keywheel
  imports Prelude
begin

text \<open>
  The keywheel (src/keywheel/keywheel.go): for each friend a round and a 32-byte secret,
  ratcheted forward by an HMAC chain. HMAC-SHA256 is the parameter \<open>H\<close> (key, message),
  and every theorem holds for any function in its place. The mutex makes each method one
  atomic step; Go's unspecified iteration order over the map is the argument \<open>order\<close>.
\<close>

section \<open>State\<close>

type_synonym hmac = "bytes \<Rightarrow> bytes \<Rightarrow> bytes"

record roundSecret =
  rs_Round :: u32
  rs_Secret :: bytes

type_synonym wheel = "string \<rightharpoonup> roundSecret"

section \<open>The hash chain\<close>

definition hash1UniqueBytes :: bytes where "hash1UniqueBytes = [1, 1, 1, 1]"
definition hash2UniqueBytes :: bytes where "hash2UniqueBytes = [2, 2, 2, 2]"
definition hash3UniqueBytes :: bytes where "hash3UniqueBytes = [3, 3, 3, 3]"

text \<open>What each hash feeds to the MAC, in the order of the \<open>Write\<close> calls.\<close>

definition hash1_input :: "u32 \<Rightarrow> bytes" where
  "hash1_input round = hash1UniqueBytes @ be32 round"

definition hash2_input :: "u32 \<Rightarrow> string \<Rightarrow> int \<Rightarrow> bytes" where
  "hash2_input round username intent =
     hash2UniqueBytes @ (be32 round @ be32 (word_of_int intent)) @ str_bytes username"

definition hash3_input :: "u32 \<Rightarrow> bytes" where
  "hash3_input round = hash3UniqueBytes @ be32 round"

definition hash1 :: "hmac \<Rightarrow> bytes \<Rightarrow> u32 \<Rightarrow> bytes" where
  "hash1 H key round = fixed 32 (H key (hash1_input round))"

definition hash2 :: "hmac \<Rightarrow> bytes \<Rightarrow> u32 \<Rightarrow> string \<Rightarrow> int \<Rightarrow> bytes" where
  "hash2 H key round username intent = fixed 32 (H key (hash2_input round username intent))"

definition hash3 :: "hmac \<Rightarrow> bytes \<Rightarrow> u32 \<Rightarrow> bytes" where
  "hash3 H key round = fixed 32 (H key (hash3_input round))"

lemma unat_Suc_below: "r < s \<Longrightarrow> unat (r + 1 :: u32) = Suc (unat r)"
  using unsigned_less [of s, where ?'a = nat]
  by (simp add: word_less_nat_alt unat_word_ariths)

text \<open>The loop of \<open>getSecret\<close>: \<open>for r := rs.Round; r < round; r++\<close>.\<close>

function roll :: "hmac \<Rightarrow> bytes \<Rightarrow> u32 \<Rightarrow> u32 \<Rightarrow> bytes" where
  "roll H secret r round = (if r < round then roll H (hash1 H secret r) (r + 1) round else secret)"
  by pat_completeness auto

termination
proof (relation "measure (\<lambda>(H, secret, r, round). unat round - unat r)")
  fix H :: hmac and secret :: bytes and r round :: u32
  assume "r < round"
  then show "((H, hash1 H secret r, r + 1, round), H, secret, r, round)
      \<in> measure (\<lambda>(H, secret, r, round). unat round - unat r)"
    using unat_Suc_below [of r round] by (simp add: word_less_nat_alt)
qed simp

declare roll.simps [simp del]

definition getSecret :: "hmac \<Rightarrow> roundSecret \<Rightarrow> u32 \<Rightarrow> bytes option" where
  "getSecret H rs round =
     (if rs_Round rs = round then Some (rs_Secret rs)
      else if rs_Round rs > round then None
      else Some (roll H (rs_Secret rs) (rs_Round rs) round))"

section \<open>Operations\<close>

definition Put :: "string \<Rightarrow> u32 \<Rightarrow> bytes \<Rightarrow> wheel \<Rightarrow> wheel" where
  "Put username round secret w = w(username \<mapsto> \<lparr>rs_Round = round, rs_Secret = secret\<rparr>)"

definition wheel_get :: "wheel \<Rightarrow> string \<Rightarrow> roundSecret option" where
  "wheel_get w username = w username"

definition Exists :: "wheel \<Rightarrow> string \<Rightarrow> bool" where
  "Exists w username \<longleftrightarrow> wheel_get w username \<noteq> None"

definition UnsafeGet :: "wheel \<Rightarrow> string \<Rightarrow> u32 \<times> bytes option" where
  "UnsafeGet w username =
     (case wheel_get w username of
        None \<Rightarrow> (0, None)
      | Some rs \<Rightarrow> (rs_Round rs, Some (rs_Secret rs)))"

definition wheel_Remove :: "string \<Rightarrow> wheel \<Rightarrow> wheel" where
  "wheel_Remove username w = w(username := None)"

definition SessionKey :: "hmac \<Rightarrow> wheel \<Rightarrow> string \<Rightarrow> u32 \<Rightarrow> bytes option" where
  "SessionKey H w username round =
     (case wheel_get w username of
        None \<Rightarrow> None
      | Some rs \<Rightarrow>
          if rs_Round rs > round then None
          else map_option (\<lambda>s. hash3 H s round) (getSecret H rs round))"

definition OutgoingDialToken :: "hmac \<Rightarrow> wheel \<Rightarrow> string \<Rightarrow> u32 \<Rightarrow> int \<Rightarrow> bytes option" where
  "OutgoingDialToken H w username round intent =
     (case wheel_get w username of
        None \<Rightarrow> None
      | Some rs \<Rightarrow>
          if rs_Round rs > round then None
          else map_option (\<lambda>key. hash2 H key round username intent) (getSecret H rs round))"

record UserDialTokens =
  FromUsername :: string
  Tokens :: "bytes list"

text \<open>
  One iteration of the loop over the map, and the loop along an iteration order; the
  \<open>continue\<close> on a secret newer than the round contributes nothing.
\<close>

definition incoming_for :: "hmac \<Rightarrow> wheel \<Rightarrow> string \<Rightarrow> u32 \<Rightarrow> nat \<Rightarrow> string \<Rightarrow> UserDialTokens list" where
  "incoming_for H w myUsername round numIntents friend =
     (case w friend of
        None \<Rightarrow> []
      | Some rs \<Rightarrow>
          if rs_Round rs > round then []
          else
            (case getSecret H rs round of
               None \<Rightarrow> []
             | Some key \<Rightarrow>
                 [\<lparr>FromUsername = friend,
                   Tokens = map (\<lambda>i. hash2 H key round myUsername (int i)) [0..<numIntents]\<rparr>]))"

definition IncomingDialTokens ::
  "hmac \<Rightarrow> wheel \<Rightarrow> string list \<Rightarrow> string \<Rightarrow> u32 \<Rightarrow> nat \<Rightarrow> UserDialTokens list" where
  "IncomingDialTokens H w order myUsername round numIntents =
     concat (map (incoming_for H w myUsername round numIntents) order)"

definition erase_entry :: "hmac \<Rightarrow> u32 \<Rightarrow> roundSecret \<Rightarrow> roundSecret" where
  "erase_entry H newRound rs =
     (case getSecret H rs newRound of
        None \<Rightarrow> rs
      | Some newSecret \<Rightarrow> rs\<lparr>rs_Round := newRound, rs_Secret := newSecret\<rparr>)"

definition EraseKeys :: "hmac \<Rightarrow> u32 \<Rightarrow> wheel \<Rightarrow> wheel" where
  "EraseKeys H round w = (\<lambda>u. map_option (erase_entry H (round + 1)) (w u))"

section \<open>Serialisation\<close>

definition wheel_version :: byte where "wheel_version = 1"

datatype wheel_error = UnknownSerializationVersion byte | WheelJSON

text \<open>\<open>json_enc\<close> and \<open>json_dec\<close> stand for encoding/json on the secrets map.\<close>

definition wheel_MarshalBinary :: "(wheel \<Rightarrow> bytes) \<Rightarrow> wheel \<Rightarrow> bytes" where
  "wheel_MarshalBinary json_enc w = wheel_version # json_enc w"

definition wheel_UnmarshalBinary ::
  "(bytes \<Rightarrow> wheel option) \<Rightarrow> bytes \<Rightarrow> (wheel_error, wheel) outcome" where
  "wheel_UnmarshalBinary json_dec data =
     (case data of
        [] \<Rightarrow> Panic
      | ver # rest \<Rightarrow>
          if ver \<noteq> wheel_version then Err (UnknownSerializationVersion ver)
          else (case json_dec rest of None \<Rightarrow> Err WheelJSON | Some w \<Rightarrow> Ok w))"

section \<open>Lemmas\<close>

lemma length_hash [simp]:
  "length (hash1 H k r) = 32" "length (hash2 H k r u i) = 32" "length (hash3 H k r) = 32"
  by (simp_all add: hash1_def hash2_def hash3_def)

lemma roll_same [simp]: "roll H s r r = s"
  by (simp add: roll.simps)

lemma roll_step: "r < n \<Longrightarrow> roll H s r n = roll H (hash1 H s r) (r + 1) n"
  by (simp add: roll.simps [of H s r n])

lemma Suc_below_le: "r < n \<Longrightarrow> r + 1 \<le> (n :: u32)"
  using unat_Suc_below [of r n] by (simp add: word_less_nat_alt word_le_nat_alt)

lemma below_Suc: "k < n \<Longrightarrow> k < k + (1 :: u32)"
  using unat_Suc_below [of k n] by (simp add: word_less_nat_alt)

lemma no_wrap_less: "k + 1 \<noteq> 0 \<Longrightarrow> k < k + (1 :: u32)"
proof -
  assume "k + 1 \<noteq> 0"
  then have "unat (k + 1) = Suc (unat k)"
    by (metis Suc_eq_plus1 add.commute unatSuc)
  then show ?thesis by (simp add: word_less_nat_alt)
qed

text \<open>Ratcheting in two stages is ratcheting in one.\<close>

lemma roll_trans: "r \<le> m \<Longrightarrow> m \<le> n \<Longrightarrow> roll H (roll H s r m) m n = roll H s r n"
proof (induction H s r m rule: roll.induct)
  case (1 H s r m)
  show ?case
  proof (cases "r < m")
    case True
    then have "r + 1 \<le> m" by (rule Suc_below_le)
    with True "1.IH" "1.prems" show ?thesis
      by (simp add: roll_step)
  next
    case False
    with "1.prems" have "r = m" by simp
    then show ?thesis by simp
  qed
qed

lemma getSecret_eq:
  "getSecret H rs n =
     (if n < rs_Round rs then None else Some (roll H (rs_Secret rs) (rs_Round rs) n))"
  by (auto simp: getSecret_def)

lemma SessionKey_eq:
  "SessionKey H w u n =
     (case w u of
        None \<Rightarrow> None
      | Some rs \<Rightarrow>
          if n < rs_Round rs then None
          else Some (hash3 H (roll H (rs_Secret rs) (rs_Round rs) n) n))"
  by (auto simp: SessionKey_def wheel_get_def getSecret_eq split: option.splits)

lemma OutgoingDialToken_eq:
  "OutgoingDialToken H w u n i =
     (case w u of
        None \<Rightarrow> None
      | Some rs \<Rightarrow>
          if n < rs_Round rs then None
          else Some (hash2 H (roll H (rs_Secret rs) (rs_Round rs) n) n u i))"
  by (auto simp: OutgoingDialToken_def wheel_get_def getSecret_eq split: option.splits)

lemma incoming_for_eq:
  "incoming_for H w me n k friend =
     (case w friend of
        None \<Rightarrow> []
      | Some rs \<Rightarrow>
          if n < rs_Round rs then []
          else [\<lparr>FromUsername = friend,
                 Tokens = map (\<lambda>i. hash2 H (roll H (rs_Secret rs) (rs_Round rs) n) n me (int i)) [0..<k]\<rparr>])"
  by (auto simp: incoming_for_def getSecret_eq split: option.splits)

text \<open>The secret an entry yields at a round, the abstraction the interface speaks of.\<close>

definition wheel_secret :: "hmac \<Rightarrow> wheel \<Rightarrow> string \<Rightarrow> u32 \<Rightarrow> bytes option" where
  "wheel_secret H w u n = Option.bind (wheel_get w u) (\<lambda>rs. getSecret H rs n)"

lemma wheel_secret_eq:
  "wheel_secret H w u n =
     (case w u of
        None \<Rightarrow> None
      | Some rs \<Rightarrow>
          if n < rs_Round rs then None else Some (roll H (rs_Secret rs) (rs_Round rs) n))"
  by (auto simp: wheel_secret_def wheel_get_def getSecret_eq split: option.splits)

lemma SessionKey_secret: "SessionKey H w u n = map_option (\<lambda>s. hash3 H s n) (wheel_secret H w u n)"
  by (auto simp: SessionKey_eq wheel_secret_eq split: option.splits)

lemma OutgoingDialToken_secret:
  "OutgoingDialToken H w u n i = map_option (\<lambda>s. hash2 H s n u i) (wheel_secret H w u n)"
  by (auto simp: OutgoingDialToken_eq wheel_secret_eq split: option.splits)

lemma incoming_for_secret:
  "incoming_for H w me n k friend =
     (case wheel_secret H w friend n of
        None \<Rightarrow> []
      | Some s \<Rightarrow> [\<lparr>FromUsername = friend, Tokens = map (\<lambda>i. hash2 H s n me (int i)) [0..<k]\<rparr>])"
  by (auto simp: incoming_for_eq wheel_secret_eq split: option.splits)

lemma incoming_for_from: "u \<in> set (incoming_for H w me n k friend) \<Longrightarrow> FromUsername u = friend"
  by (auto simp: incoming_for_secret split: option.splits)

lemma EraseKeys_entry:
  "w u = Some rs \<Longrightarrow> EraseKeys H k w u =
     Some (if k + 1 < rs_Round rs then rs
           else \<lparr>rs_Round = k + 1, rs_Secret = roll H (rs_Secret rs) (rs_Round rs) (k + 1)\<rparr>)"
  by (auto simp: EraseKeys_def erase_entry_def getSecret_eq)

lemma wheel_secret_erase_later:
  assumes "k < n"
  shows "wheel_secret H (EraseKeys H k w) u n = wheel_secret H w u n"
proof (cases "w u")
  case None
  then show ?thesis by (simp add: wheel_secret_eq EraseKeys_def)
next
  case (Some rs)
  have "k + 1 \<le> n" using assms by (rule Suc_below_le)
  then show ?thesis
    by (auto simp: wheel_secret_eq EraseKeys_entry [of w u, OF Some] Some not_less roll_trans
        dest: leD intro: order.trans)
qed

lemma wheel_secret_erase_earlier:
  assumes "n \<le> k" and "k + 1 \<noteq> 0"
  shows "wheel_secret H (EraseKeys H k w) u n = None"
proof (cases "w u")
  case None
  then show ?thesis by (simp add: wheel_secret_eq EraseKeys_def)
next
  case (Some rs)
  have "k < k + 1" using assms(2) by (rule no_wrap_less)
  with assms(1) have "n < k + 1" by simp
  then show ?thesis
    by (auto simp: wheel_secret_eq EraseKeys_entry [of w u, OF Some])
qed

lemma wheel_secret_Put:
  "wheel_secret H (Put u r s w) v n =
     (if v = u then if n < r then None else Some (roll H s r n) else wheel_secret H w v n)"
  by (simp add: wheel_secret_eq Put_def)

lemma wheel_secret_Remove:
  "wheel_secret H (wheel_Remove u w) v n = (if v = u then None else wheel_secret H w v n)"
  by (simp add: wheel_secret_eq wheel_Remove_def)

section \<open>Runs and the interface to the client\<close>

text \<open>The calls that change a wheel, as the client issues them, and a run of them.\<close>

datatype wheel_op = WPut string u32 bytes | WRemove string | WErase u32

text \<open>
  A call is quiet for \<open>u\<close> up to \<open>n\<close> when it neither replaces nor removes \<open>u\<close> and only erases
  rounds before \<open>n\<close>.
\<close>

fun quiet :: "string \<Rightarrow> u32 \<Rightarrow> wheel_op \<Rightarrow> bool" where
  "quiet u n (WPut v _ _) \<longleftrightarrow> v \<noteq> u"
| "quiet u n (WRemove v) \<longleftrightarrow> v \<noteq> u"
| "quiet u n (WErase k) \<longleftrightarrow> k < n"

text \<open>
  What the client relies on. \<open>secret w u n\<close> is what friend \<open>u\<close>'s entry yields at round \<open>n\<close>;
  \<open>derive\<close> is the ratchet from a seed.
\<close>

locale session_wheel =
  fixes put :: "string \<Rightarrow> u32 \<Rightarrow> bytes \<Rightarrow> 'w \<Rightarrow> 'w"
    and remove :: "string \<Rightarrow> 'w \<Rightarrow> 'w"
    and erase :: "u32 \<Rightarrow> 'w \<Rightarrow> 'w"
    and secret :: "'w \<Rightarrow> string \<Rightarrow> u32 \<Rightarrow> bytes option"
    and derive :: "bytes \<Rightarrow> u32 \<Rightarrow> u32 \<Rightarrow> bytes"
  assumes secret_put: "secret (put u r s w) v n =
      (if v = u then if n < r then None else Some (derive s r n) else secret w v n)"
    and secret_remove: "secret (remove u w) v n = (if v = u then None else secret w v n)"
    and secret_erase_later: "k < n \<Longrightarrow> secret (erase k w) u n = secret w u n"
    and secret_erase_earlier: "n \<le> k \<Longrightarrow> k + 1 \<noteq> 0 \<Longrightarrow> secret (erase k w) u n = None"
begin

lemma secret_quiet:
  assumes "quiet u n op"
  shows "secret (case op of WPut v r s \<Rightarrow> put v r s w | WRemove v \<Rightarrow> remove v w | WErase k \<Rightarrow> erase k w) u n
    = secret w u n"
  using assms by (cases op) (auto simp: secret_put secret_remove secret_erase_later)

lemma secret_quiet_run:
  assumes "list_all (quiet u n) ops"
  shows "secret (fold (\<lambda>op w. case op of WPut v r s \<Rightarrow> put v r s w | WRemove v \<Rightarrow> remove v w
      | WErase k \<Rightarrow> erase k w) ops w) u n = secret w u n"
  using assms by (induction ops arbitrary: w) (simp_all add: secret_quiet)

text \<open>Two friends that stored the same seed agree on every later round.\<close>

lemma same_seed_same_secret:
  assumes "r \<le> n" "list_all (quiet u n) ops" "list_all (quiet v n) ops'"
  shows "secret (fold (\<lambda>op w. case op of WPut v r s \<Rightarrow> put v r s w | WRemove v \<Rightarrow> remove v w
        | WErase k \<Rightarrow> erase k w) ops (put u r s w)) u n = Some (derive s r n)"
    and "secret (fold (\<lambda>op w. case op of WPut v r s \<Rightarrow> put v r s w | WRemove v \<Rightarrow> remove v w
        | WErase k \<Rightarrow> erase k w) ops' (put v r s w')) v n = Some (derive s r n)"
  using assms by (simp_all add: secret_quiet_run secret_put not_less)

text \<open>An erased round stays erased until somebody puts the entry again.\<close>

lemma secret_none_remove: "secret w u n = None \<Longrightarrow> secret (remove v w) u n = None"
  by (simp add: secret_remove)

lemma secret_none_erase: "secret w u n = None \<Longrightarrow> k + 1 \<noteq> 0 \<Longrightarrow> secret (erase k w) u n = None"
  by (cases "k < n") (auto simp: secret_erase_later secret_erase_earlier not_less)

lemma erased_stays_erased:
  assumes "secret w u n = None"
    and "list_all (\<lambda>op. (\<forall>r s. op \<noteq> WPut u r s) \<and> op \<noteq> WErase (-1)) ops"
  shows "secret (fold (\<lambda>op w. case op of WPut v r s \<Rightarrow> put v r s w | WRemove v \<Rightarrow> remove v w
        | WErase k \<Rightarrow> erase k w) ops w) u n = None"
  using assms
proof (induction ops arbitrary: w)
  case (Cons op ops)
  have "secret (case op of WPut v r s \<Rightarrow> put v r s w | WRemove v \<Rightarrow> remove v w | WErase k \<Rightarrow> erase k w) u n
      = None"
    using Cons.prems
    by (cases op) (auto simp: secret_put secret_none_remove add_eq_0_iff2 intro!: secret_none_erase)
  with Cons show ?case by simp
qed simp

end

fun apply_wheel_op :: "hmac \<Rightarrow> wheel_op \<Rightarrow> wheel \<Rightarrow> wheel" where
  "apply_wheel_op H (WPut u r s) w = Put u r s w"
| "apply_wheel_op H (WRemove u) w = wheel_Remove u w"
| "apply_wheel_op H (WErase k) w = EraseKeys H k w"

definition run_wheel :: "hmac \<Rightarrow> wheel_op list \<Rightarrow> wheel \<Rightarrow> wheel" where
  "run_wheel H ops w = fold (apply_wheel_op H) ops w"

lemma apply_wheel_op_eq:
  "apply_wheel_op H = (\<lambda>op w. case op of WPut v r s \<Rightarrow> Put v r s w | WRemove v \<Rightarrow> wheel_Remove v w
      | WErase k \<Rightarrow> EraseKeys H k w)"
  by (intro ext) (simp split: wheel_op.split)

interpretation kw: session_wheel Put wheel_Remove "EraseKeys H" "wheel_secret H" "roll H" for H
  by unfold_locales
    (simp_all add: wheel_secret_Put wheel_secret_Remove wheel_secret_erase_later
      wheel_secret_erase_earlier)

lemmas run_wheel_facts =
  kw.same_seed_same_secret [folded apply_wheel_op_eq, folded run_wheel_def]
  kw.erased_stays_erased [folded apply_wheel_op_eq, folded run_wheel_def]

lemma in_IncomingDialTokens:
  assumes "wheel_secret H w friend n = Some s" and "friend \<in> set order"
  shows "\<lparr>FromUsername = friend, Tokens = map (\<lambda>i. hash2 H s n me (int i)) [0..<k]\<rparr>
    \<in> set (IncomingDialTokens H w order me n k)"
  using assms by (auto simp: IncomingDialTokens_def incoming_for_secret intro!: bexI [of _ friend])

lemma IncomingDialTokens_from:
  assumes "u \<in> set (IncomingDialTokens H w order me n k)"
  shows "\<exists>s. wheel_secret H w (FromUsername u) n = Some s \<and> FromUsername u \<in> set order \<and>
    Tokens u = map (\<lambda>i. hash2 H s n me (int i)) [0..<k]"
proof -
  from assms obtain f where f: "f \<in> set order" "u \<in> set (incoming_for H w me n k f)"
    by (auto simp: IncomingDialTokens_def)
  then show ?thesis
    by (cases "wheel_secret H w f n") (auto simp: incoming_for_secret)
qed

section \<open>Properties\<close>

text \<open>
  C11: two friends that stored the same seed at the same round, whatever erasures of earlier
  rounds and changes to other entries happened since, derive the same session key, and the
  token one of them sends is the one the other finds under the caller's name and intent.
\<close>

theorem dial_agreement:
  assumes "r \<le> n"
    and "list_all (quiet bob n) opsA" and "list_all (quiet alice n) opsB"
    and "wA = run_wheel H opsA (Put bob r s wA0)" and "wB = run_wheel H opsB (Put alice r s wB0)"
    and "alice \<in> set order" and "intent < k"
  shows "SessionKey H wA bob n = Some (hash3 H (roll H s r n) n) \<and>
    SessionKey H wB alice n = SessionKey H wA bob n \<and>
    (\<exists>u tok. OutgoingDialToken H wA bob n (int intent) = Some tok \<and>
      u \<in> set (IncomingDialTokens H wB order bob n k) \<and> FromUsername u = alice \<and>
      Tokens u ! intent = tok)"
proof -
  have A: "wheel_secret H wA bob n = Some (roll H s r n)"
    and B: "wheel_secret H wB alice n = Some (roll H s r n)"
    using run_wheel_facts(1,2) [OF assms(1-3)] assms(4,5) by auto
  from in_IncomingDialTokens [OF B assms(6), of bob k] assms(7)
  show ?thesis by (auto simp: SessionKey_secret OutgoingDialToken_secret A B intro!: exI)
qed

theorem dial_agreement_witness:
  "SessionKey (\<lambda>k m. k @ m) (run_wheel (\<lambda>k m. k @ m) [WErase 1] (Put ''bob'' 1 [7] Map.empty)) ''bob'' 3
    = SessionKey (\<lambda>k m. k @ m) (run_wheel (\<lambda>k m. k @ m) [] (Put ''alice'' 1 [7] Map.empty)) ''alice'' 3"
  using dial_agreement [of 1 3 "''bob''" "[WErase 1]" "''alice''" "[]" _ _ _ _ _ _ "[''alice'']" 0 3]
  by simp

text \<open>
  C13: EraseKeys is forward secure and harmless: it keeps every key of later rounds, drops
  every key and token of the erased round and before, and no later erasure or removal
  brings one back; only a new Put can.
\<close>

theorem erase_forward_secrecy:
  assumes "k + 1 \<noteq> 0"
    and "list_all (\<lambda>op. (\<forall>r s. op \<noteq> WPut u r s) \<and> op \<noteq> WErase (-1)) ops"
    and "early \<le> k" and "k < late"
  shows "SessionKey H (EraseKeys H k w) u late = SessionKey H w u late \<and>
    SessionKey H (run_wheel H ops (EraseKeys H k w)) u early = None \<and>
    OutgoingDialToken H (run_wheel H ops (EraseKeys H k w)) u early intent = None"
proof -
  have "wheel_secret H (run_wheel H ops (EraseKeys H k w)) u early = None"
    using wheel_secret_erase_earlier [OF assms(3,1)] assms(2) by (rule run_wheel_facts(3))
  then show ?thesis
    by (simp add: SessionKey_secret OutgoingDialToken_secret wheel_secret_erase_later [OF assms(4)])
qed

theorem erase_forward_secrecy_witness:
  "SessionKey (\<lambda>k m. k @ m) (run_wheel (\<lambda>k m. k @ m) [WErase 9, WRemove ''eve'']
     (EraseKeys (\<lambda>k m. k @ m) 5 (Put ''bob'' 1 [7] Map.empty))) ''bob'' 4 = None"
  using erase_forward_secrecy [of 5 "''bob''" "[WErase 9, WRemove ''eve'']" 4 6] by simp

text \<open>
  The three uses of the MAC are domain separated, and a dial token's input determines
  its round, intent and recipient, for the intents the code can pass to a uint32.
\<close>

theorem hash_inputs_separate:
  assumes "0 \<le> i" "i < 2 ^ 32" "0 \<le> i'" "i' < 2 ^ 32"
  shows "hash1_input r \<noteq> hash2_input r' u i \<and> hash1_input r \<noteq> hash3_input r' \<and>
    hash2_input r u i \<noteq> hash3_input r' \<and>
    (hash2_input r u i = hash2_input r' u' i' \<longleftrightarrow> r = r' \<and> u = u' \<and> i = i')"
proof -
  have "(word_of_int i :: u32) = word_of_int i' \<longleftrightarrow> i = i'"
    using assms by (simp add: word_of_int_eq_iff take_bit_eq_mod)
  then show ?thesis
    by (auto simp: hash1_input_def hash2_input_def hash3_input_def hash1UniqueBytes_def
        hash2UniqueBytes_def hash3UniqueBytes_def)
qed

theorem hash_inputs_separate_witness:
  "hash2_input 4 ''bob'' 2 \<noteq> hash2_input 4 ''bob'' 1"
  using hash_inputs_separate [where i = 2 and i' = 1 and r = 4 and r' = 4 and u = "''bob''" and u' = "''bob''"]
  by simp

end
