(* ===== verification/PQ.thy ===== *)
theory PQ
  imports Prelude
begin

text \<open>
  The post-quantum wrappers (src/pqkem/pqkem.go, src/pqsig/pqsig.go): the length and nil
  checks, the key derivations and the buffers around CIRCL's ML-KEM-768 and ML-DSA-65. CIRCL
  and HKDF are parameters: a record of functions per scheme and \<open>hkdf secret salt info n\<close>,
  which gives \<open>None\<close> where reading the stream fails.
\<close>

section \<open>Primitives\<close>

type_synonym hkdf = "bytes \<Rightarrow> bytes option \<Rightarrow> bytes \<Rightarrow> nat \<Rightarrow> bytes option"

record ('pk, 'sk) mlkem =
  kem_NewKeyFromSeed :: "bytes \<Rightarrow> 'pk \<times> 'sk"
  kem_EncapsulateTo :: "'pk \<Rightarrow> bytes \<Rightarrow> bytes \<times> bytes"
  kem_DecapsulateTo :: "'sk \<Rightarrow> bytes \<Rightarrow> bytes"
  kem_PackPub :: "'pk \<Rightarrow> bytes"
  kem_UnpackPub :: "bytes \<Rightarrow> 'pk option"
  kem_PackPriv :: "'sk \<Rightarrow> bytes"
  kem_UnpackPriv :: "bytes \<Rightarrow> 'sk option"

text \<open>\<open>dsa_SignTo sk msg coins\<close>: \<open>None\<close> for the coins is the deterministic variant.\<close>

record ('vk, 'gk) mldsa =
  dsa_NewKeyFromSeed :: "bytes \<Rightarrow> 'vk \<times> 'gk"
  dsa_SignTo :: "'gk \<Rightarrow> bytes \<Rightarrow> bytes option \<Rightarrow> bytes option"
  dsa_Verify :: "'vk \<Rightarrow> bytes \<Rightarrow> bytes \<Rightarrow> bool"
  dsa_PackPub :: "'vk \<Rightarrow> bytes"
  dsa_UnpackPub :: "bytes \<Rightarrow> 'vk"
  dsa_PackPriv :: "'gk \<Rightarrow> bytes"
  dsa_UnpackPriv :: "bytes \<Rightarrow> 'gk"

datatype pq_error =
    SeedLength nat | Ed25519SeedLength nat | HkdfExpand | ReadingEntropy
  | NilPublicKey | NilPrivateKey | CiphertextLength nat | PublicKeyLength nat
  | PrivateKeyLength nat | UnpackFailed | SignToFailed

section \<open>ML-KEM-768\<close>

definition pqkem_PublicKeySize :: nat where "pqkem_PublicKeySize = 1184"
definition pqkem_PrivateKeySize :: nat where "pqkem_PrivateKeySize = 2400"
definition pqkem_CiphertextSize :: nat where "pqkem_CiphertextSize = 1088"
definition pqkem_SharedKeySize :: nat where "pqkem_SharedKeySize = 32"
definition EncapsulationSeedSize :: nat where "EncapsulationSeedSize = 32"
definition KeySeedSize :: nat where "KeySeedSize = 64"

definition pqkem_bindingInfo :: string where
  "pqkem_bindingInfo = ''neverlur/v1 pq-kem-id-binding''"

definition pqkem_NewKeyFromSeed ::
  "('pk, 'sk) mlkem \<Rightarrow> bytes \<Rightarrow> (pq_error, 'pk \<times> 'sk) outcome" where
  "pqkem_NewKeyFromSeed K seed =
     (if length seed \<noteq> KeySeedSize then Err (SeedLength (length seed))
      else Ok (kem_NewKeyFromSeed K seed))"

definition pqkem_DeriveFromEd25519Seed ::
  "hkdf \<Rightarrow> ('pk, 'sk) mlkem \<Rightarrow> bytes \<Rightarrow> (pq_error, 'pk \<times> 'sk) outcome" where
  "pqkem_DeriveFromEd25519Seed hk K edSeed =
     (if length edSeed \<noteq> 32 then Err (Ed25519SeedLength (length edSeed))
      else (case hk edSeed None (str_bytes pqkem_bindingInfo) KeySeedSize of
              None \<Rightarrow> Err HkdfExpand
            | Some mlkemSeed \<Rightarrow> pqkem_NewKeyFromSeed K mlkemSeed))"

text \<open>
  A nil pointer is \<open>None\<close>; \<open>entropy\<close> is what reading 32 bytes of crypto/rand gives. The
  scheme fills the two preallocated buffers, so their lengths are the buffers'.
\<close>

definition Encapsulate ::
  "('pk, 'sk) mlkem \<Rightarrow> bytes option \<Rightarrow> 'pk option \<Rightarrow> (pq_error, bytes \<times> bytes) outcome" where
  "Encapsulate K entropy pk =
     (case pk of
        None \<Rightarrow> Err NilPublicKey
      | Some p \<Rightarrow>
          (case entropy of
             None \<Rightarrow> Err ReadingEntropy
           | Some seed \<Rightarrow>
               (let (ct, ss) = kem_EncapsulateTo K p seed
                in Ok (fixed pqkem_CiphertextSize ct, fixed pqkem_SharedKeySize ss))))"

definition EncapsulateDeterministic ::
  "('pk, 'sk) mlkem \<Rightarrow> 'pk option \<Rightarrow> bytes \<Rightarrow> (pq_error, bytes \<times> bytes) outcome" where
  "EncapsulateDeterministic K pk seed =
     (case pk of
        None \<Rightarrow> Err NilPublicKey
      | Some p \<Rightarrow>
          if length seed \<noteq> EncapsulationSeedSize then Err (SeedLength (length seed))
          else (let (ct, ss) = kem_EncapsulateTo K p seed
                in Ok (fixed pqkem_CiphertextSize ct, fixed pqkem_SharedKeySize ss)))"

definition Decapsulate ::
  "('pk, 'sk) mlkem \<Rightarrow> 'sk option \<Rightarrow> bytes \<Rightarrow> (pq_error, bytes) outcome" where
  "Decapsulate K sk ct =
     (case sk of
        None \<Rightarrow> Err NilPrivateKey
      | Some s \<Rightarrow>
          if length ct \<noteq> pqkem_CiphertextSize then Err (CiphertextLength (length ct))
          else Ok (fixed pqkem_SharedKeySize (kem_DecapsulateTo K s ct)))"

definition pqkem_PackPublicKey :: "('pk, 'sk) mlkem \<Rightarrow> 'pk \<Rightarrow> bytes" where
  "pqkem_PackPublicKey K pk = fixed pqkem_PublicKeySize (kem_PackPub K pk)"

definition pqkem_UnpackPublicKey :: "('pk, 'sk) mlkem \<Rightarrow> bytes \<Rightarrow> (pq_error, 'pk) outcome" where
  "pqkem_UnpackPublicKey K buf =
     (if length buf \<noteq> pqkem_PublicKeySize then Err (PublicKeyLength (length buf))
      else (case kem_UnpackPub K buf of None \<Rightarrow> Err UnpackFailed | Some pk \<Rightarrow> Ok pk))"

definition pqkem_PackPrivateKey :: "('pk, 'sk) mlkem \<Rightarrow> 'sk \<Rightarrow> bytes" where
  "pqkem_PackPrivateKey K sk = fixed pqkem_PrivateKeySize (kem_PackPriv K sk)"

definition pqkem_UnpackPrivateKey :: "('pk, 'sk) mlkem \<Rightarrow> bytes \<Rightarrow> (pq_error, 'sk) outcome" where
  "pqkem_UnpackPrivateKey K buf =
     (if length buf \<noteq> pqkem_PrivateKeySize then Err (PrivateKeyLength (length buf))
      else (case kem_UnpackPriv K buf of None \<Rightarrow> Err UnpackFailed | Some sk \<Rightarrow> Ok sk))"

section \<open>ML-DSA-65\<close>

definition pqsig_PublicKeySize :: nat where "pqsig_PublicKeySize = 1952"
definition pqsig_PrivateKeySize :: nat where "pqsig_PrivateKeySize = 4032"
definition pqsig_SignatureSize :: nat where "pqsig_SignatureSize = 3309"
definition pqsig_SeedSize :: nat where "pqsig_SeedSize = 32"

definition pqsig_bindingInfo :: string where
  "pqsig_bindingInfo = ''neverlur/v1 pq-id-binding''"

definition pqsig_GenerateKeyFromSeed ::
  "('vk, 'gk) mldsa \<Rightarrow> bytes \<Rightarrow> (pq_error, 'vk \<times> 'gk) outcome" where
  "pqsig_GenerateKeyFromSeed D seed =
     (if length seed \<noteq> pqsig_SeedSize then Err (SeedLength (length seed))
      else Ok (dsa_NewKeyFromSeed D (fixed pqsig_SeedSize seed)))"

definition pqsig_DeriveFromEd25519Seed ::
  "hkdf \<Rightarrow> ('vk, 'gk) mldsa \<Rightarrow> bytes \<Rightarrow> (pq_error, 'vk \<times> 'gk) outcome" where
  "pqsig_DeriveFromEd25519Seed hk D edSeed =
     (if length edSeed \<noteq> 32 then Err (Ed25519SeedLength (length edSeed))
      else (case hk edSeed None (str_bytes pqsig_bindingInfo) pqsig_SeedSize of
              None \<Rightarrow> Err HkdfExpand
            | Some mldsaSeed \<Rightarrow> pqsig_GenerateKeyFromSeed D mldsaSeed))"

definition sign_buffer :: "bytes option \<Rightarrow> (pq_error, bytes) outcome" where
  "sign_buffer r =
     (case r of None \<Rightarrow> Err SignToFailed | Some sig \<Rightarrow> Ok (fixed pqsig_SignatureSize sig))"

definition pqsig_Sign ::
  "('vk, 'gk) mldsa \<Rightarrow> bytes \<Rightarrow> 'gk option \<Rightarrow> bytes \<Rightarrow> (pq_error, bytes) outcome" where
  "pqsig_Sign D coins sk msg =
     (case sk of None \<Rightarrow> Err NilPrivateKey | Some k \<Rightarrow> sign_buffer (dsa_SignTo D k msg (Some coins)))"

definition SignDeterministic ::
  "('vk, 'gk) mldsa \<Rightarrow> 'gk option \<Rightarrow> bytes \<Rightarrow> (pq_error, bytes) outcome" where
  "SignDeterministic D sk msg =
     (case sk of None \<Rightarrow> Err NilPrivateKey | Some k \<Rightarrow> sign_buffer (dsa_SignTo D k msg None))"

definition pqsig_Verify :: "('vk, 'gk) mldsa \<Rightarrow> 'vk option \<Rightarrow> bytes \<Rightarrow> bytes \<Rightarrow> bool" where
  "pqsig_Verify D pk msg sig =
     (case pk of
        None \<Rightarrow> False
      | Some p \<Rightarrow> if length sig \<noteq> pqsig_SignatureSize then False else dsa_Verify D p msg sig)"

definition pqsig_PackPublicKey :: "('vk, 'gk) mldsa \<Rightarrow> 'vk \<Rightarrow> bytes" where
  "pqsig_PackPublicKey D pk = fixed pqsig_PublicKeySize (dsa_PackPub D pk)"

definition pqsig_UnpackPublicKey :: "('vk, 'gk) mldsa \<Rightarrow> bytes \<Rightarrow> (pq_error, 'vk) outcome" where
  "pqsig_UnpackPublicKey D buf =
     (if length buf \<noteq> pqsig_PublicKeySize then Err (PublicKeyLength (length buf))
      else Ok (dsa_UnpackPub D (fixed pqsig_PublicKeySize buf)))"

definition pqsig_PackPrivateKey :: "('vk, 'gk) mldsa \<Rightarrow> 'gk \<Rightarrow> bytes" where
  "pqsig_PackPrivateKey D sk = fixed pqsig_PrivateKeySize (dsa_PackPriv D sk)"

definition pqsig_UnpackPrivateKey :: "('vk, 'gk) mldsa \<Rightarrow> bytes \<Rightarrow> (pq_error, 'gk) outcome" where
  "pqsig_UnpackPrivateKey D buf =
     (if length buf \<noteq> pqsig_PrivateKeySize then Err (PrivateKeyLength (length buf))
      else Ok (dsa_UnpackPriv D (fixed pqsig_PrivateKeySize buf)))"

lemmas pq_sizes = pqkem_PublicKeySize_def pqkem_PrivateKeySize_def pqkem_CiphertextSize_def
  pqkem_SharedKeySize_def EncapsulationSeedSize_def KeySeedSize_def pqsig_PublicKeySize_def
  pqsig_PrivateKeySize_def pqsig_SignatureSize_def pqsig_SeedSize_def

section \<open>Lemmas\<close>

lemma Encapsulate_lengths:
  "Encapsulate K entropy pk = Ok (ct, ss) \<Longrightarrow>
     length ct = pqkem_CiphertextSize \<and> length ss = pqkem_SharedKeySize"
  by (auto simp: Encapsulate_def split: option.splits prod.splits)

lemma pqsig_Sign_length: "pqsig_Sign D coins sk msg = Ok sig \<Longrightarrow> length sig = pqsig_SignatureSize"
  by (auto simp: pqsig_Sign_def sign_buffer_def split: option.splits)

lemma length_pack_keys [simp, layout_simps]:
  "length (pqkem_PackPublicKey K pk) = pqkem_PublicKeySize"
  "length (pqsig_PackPublicKey D vk) = pqsig_PublicKeySize"
  by (simp_all add: pqkem_PackPublicKey_def pqsig_PackPublicKey_def)

lemma binding_infos_differ: "pqkem_bindingInfo \<noteq> pqsig_bindingInfo"
  by (simp add: pqkem_bindingInfo_def pqsig_bindingInfo_def)

text \<open>What the scheme promises of one key pair: decapsulation inverts encapsulation.\<close>

definition kem_correct :: "('pk, 'sk) mlkem \<Rightarrow> 'pk \<Rightarrow> 'sk \<Rightarrow> bool" where
  "kem_correct K pk sk \<longleftrightarrow>
     (\<forall>seed ct ss. kem_EncapsulateTo K pk seed = (ct, ss) \<longrightarrow>
        length ct = pqkem_CiphertextSize \<and> kem_DecapsulateTo K sk ct = ss)"

lemma encap_decap:
  assumes "kem_correct K pk sk" and "Encapsulate K entropy (Some pk) = Ok (ct, ss)"
  shows "Decapsulate K (Some sk) ct = Ok ss"
  using assms
  by (auto simp: Encapsulate_def Decapsulate_def kem_correct_def Let_def
      split: option.splits prod.splits)

end
