(* ===== verification/Instances.thy ===== *)
theory Instances
  imports PQ "HOL-Library.Char_ord" "HOL-Library.List_Lexorder"
begin

text \<open>
  Concrete instances of the parameters of the model, at which the theorems are evaluated: a
  small self-delimiting format that stands where encoding/json or encoding/gob do, a key
  derivation and the two post-quantum schemes over numbers. None of them models code of the
  program.
\<close>

section \<open>A self-delimiting format\<close>

fun put_field :: "bytes \<Rightarrow> bytes" where
  "put_field [] = [0]"
| "put_field (b # bs) = 1 # b # put_field bs"

fun get_field :: "bytes \<Rightarrow> bytes \<times> bytes" where
  "get_field (t # r) =
     (if t = 0 then ([], r)
      else (case r of [] \<Rightarrow> ([], []) | b # r' \<Rightarrow> (let (x, s) = get_field r' in (b # x, s))))"
| "get_field [] = ([], [])"

lemma get_put_field [simp]: "get_field (put_field x @ r) = (x, r)"
  by (induction x) auto

lemma get_put_field_alone [simp]: "get_field (put_field x) = (x, [])"
  using get_put_field [of x "[]"] by simp

definition put_int :: "int \<Rightarrow> bytes" where
  "put_int z = put_field ((if z < 0 then 1 else 0) # replicate (nat \<bar>z\<bar>) 0)"

definition get_int :: "bytes \<Rightarrow> int \<times> bytes" where
  "get_int b = (let (x, r) = get_field b in
     ((if hd x = 1 then - int (length (tl x)) else int (length (tl x))), r))"

lemma get_put_int [simp]: "get_int (put_int z @ r) = (z, r)"
  by (auto simp: get_int_def put_int_def)

lemma get_put_int_alone [simp]: "get_int (put_int z) = (z, [])"
  using get_put_int [of z "[]"] by simp

definition put_opt :: "bytes option \<Rightarrow> bytes" where
  "put_opt x = (case x of None \<Rightarrow> [0] | Some b \<Rightarrow> 1 # put_field b)"

definition get_opt :: "bytes \<Rightarrow> bytes option \<times> bytes" where
  "get_opt b = (case b of [] \<Rightarrow> (None, [])
     | t # r \<Rightarrow> if t = 0 then (None, r) else (let (x, s) = get_field r in (Some x, s)))"

lemma get_put_opt [simp]: "get_opt (put_opt x @ r) = (x, r)"
  by (auto simp: get_opt_def put_opt_def split: option.split)

lemma get_put_opt_alone [simp]: "get_opt (put_opt x) = (x, [])"
  using get_put_opt [of x "[]"] by simp

section \<open>Formats of composite data\<close>

text \<open>A writer and a reader that undoes it at the head of any input, and their combinations.\<close>

definition parses :: "('a \<Rightarrow> bytes) \<Rightarrow> (bytes \<Rightarrow> 'a \<times> bytes) \<Rightarrow> bool" where
  "parses p g \<longleftrightarrow> (\<forall>x r. g (p x @ r) = (x, r))"

lemma parsesD: "parses p g \<Longrightarrow> g (p x @ r) = (x, r)" by (simp add: parses_def)

lemma parsesD_alone: "parses p g \<Longrightarrow> g (p x) = (x, [])"
  using parsesD [of p g x "[]"] by simp

definition put_str :: "string \<Rightarrow> bytes" where "put_str s = put_field (str_bytes s)"
definition get_str :: "bytes \<Rightarrow> string \<times> bytes" where
  "get_str b = (let (x, r) = get_field b in (bytes_str x, r))"

definition put_pair :: "('a \<Rightarrow> bytes) \<Rightarrow> ('b \<Rightarrow> bytes) \<Rightarrow> 'a \<times> 'b \<Rightarrow> bytes" where
  "put_pair p q x = p (fst x) @ q (snd x)"
definition get_pair ::
  "(bytes \<Rightarrow> 'a \<times> bytes) \<Rightarrow> (bytes \<Rightarrow> 'b \<times> bytes) \<Rightarrow> bytes \<Rightarrow> ('a \<times> 'b) \<times> bytes" where
  "get_pair g h b = (let (x, r) = g b; (y, s) = h r in ((x, y), s))"

fun put_list :: "('a \<Rightarrow> bytes) \<Rightarrow> 'a list \<Rightarrow> bytes" where
  "put_list p xs = put_field (replicate (length xs) 0) @ concat (map p xs)"

fun get_times :: "(bytes \<Rightarrow> 'a \<times> bytes) \<Rightarrow> nat \<Rightarrow> bytes \<Rightarrow> 'a list \<times> bytes" where
  "get_times g 0 b = ([], b)"
| "get_times g (Suc n) b = (let (x, r) = g b; (xs, s) = get_times g n r in (x # xs, s))"

definition get_list :: "(bytes \<Rightarrow> 'a \<times> bytes) \<Rightarrow> bytes \<Rightarrow> 'a list \<times> bytes" where
  "get_list g b = (let (n, r) = get_field b in get_times g (length n) r)"

definition put_via :: "('b \<Rightarrow> 'a) \<Rightarrow> ('a \<Rightarrow> bytes) \<Rightarrow> 'b \<Rightarrow> bytes" where
  "put_via f p x = p (f x)"
definition get_via :: "('a \<Rightarrow> 'b) \<Rightarrow> (bytes \<Rightarrow> 'a \<times> bytes) \<Rightarrow> bytes \<Rightarrow> 'b \<times> bytes" where
  "get_via h g b = (let (x, r) = g b in (h x, r))"

lemma parses_field: "parses put_field get_field" by (simp add: parses_def)
lemma parses_int: "parses put_int get_int" by (simp add: parses_def)
lemma parses_opt: "parses put_opt get_opt" by (simp add: parses_def)
lemma parses_str: "parses put_str get_str" by (simp add: parses_def put_str_def get_str_def)

lemma parses_pair: "parses p g \<Longrightarrow> parses q h \<Longrightarrow> parses (put_pair p q) (get_pair g h)"
  by (simp add: parses_def put_pair_def get_pair_def)

lemma parses_times:
  "parses p g \<Longrightarrow> get_times g (length xs) (concat (map p xs) @ r) = (xs, r)"
  by (induction xs) (simp_all add: parsesD)

lemma parses_list: "parses p g \<Longrightarrow> parses (put_list p) (get_list g)"
  unfolding parses_def by (simp add: get_list_def parses_times [unfolded parses_def])

lemma parses_via: "parses p g \<Longrightarrow> (\<And>x. h (f x) = x) \<Longrightarrow> parses (put_via f p) (get_via h g)"
  by (simp add: parses_def put_via_def get_via_def)

lemmas parses_intros = parses_field parses_int parses_opt parses_str parses_pair parses_list parses_via

text \<open>A finite map, written as the list of its pairs in the order of its keys.\<close>

definition map_pairs :: "(string \<rightharpoonup> 'a) \<Rightarrow> (string \<times> 'a) list" where
  "map_pairs m = map (\<lambda>k. (k, the (m k))) (sorted_list_of_set (dom m))"

lemma map_of_map_pairs: "finite (dom m) \<Longrightarrow> map_of (map_pairs m) = m"
proof (rule ext)
  fix k assume f: "finite (dom m)"
  have "map_of (map (\<lambda>k. (k, g k)) ks) k = (if k \<in> set ks then Some (g k) else None)"
    for ks :: "string list" and g :: "string \<Rightarrow> 'a"
    by (induction ks) auto
  then show "map_of (map_pairs m) k = m k"
    using f by (auto simp: map_pairs_def domIff)
qed

section \<open>Schemes over numbers\<close>

definition toy_hkdf :: hkdf where
  "toy_hkdf s salt info n = Some (fixed n s)"

definition toy_kem :: "(nat, nat) mlkem" where
  "toy_kem = \<lparr>kem_NewKeyFromSeed = (\<lambda>_. (0, 0)),
     kem_EncapsulateTo = (\<lambda>pk seed. (replicate 1088 (of_nat pk), replicate 32 (of_nat pk))),
     kem_DecapsulateTo = (\<lambda>sk ct. replicate 32 (of_nat sk)),
     kem_PackPub = (\<lambda>_. []), kem_UnpackPub = (\<lambda>_. None),
     kem_PackPriv = (\<lambda>_. []), kem_UnpackPriv = (\<lambda>_. None)\<rparr>"

lemma toy_kem_correct: "kem_correct toy_kem n n"
  by (simp add: kem_correct_def toy_kem_def pq_sizes)

text \<open>Keys are seeds; a signature is the key with the message, cut to the buffer.\<close>

definition toy_dsa :: "(bytes, bytes) mldsa" where
  "toy_dsa = \<lparr>dsa_NewKeyFromSeed = (\<lambda>s. (s, s)),
     dsa_SignTo = (\<lambda>k m _. Some (fixed 3309 (k @ m))),
     dsa_Verify = (\<lambda>k m s. s = fixed 3309 (k @ m)),
     dsa_PackPub = (\<lambda>k. k), dsa_UnpackPub = (\<lambda>b. take 32 b),
     dsa_PackPriv = (\<lambda>k. k), dsa_UnpackPriv = (\<lambda>b. take 32 b)\<rparr>"

end
