(* ===== verification/Hybrid.thy ===== *)
theory Hybrid
  imports Instances
begin

text \<open>
  The hybrid combiner (src/hybrid/combiner.go) and the keywheel seed of a friendship
  (src/keywheel_seed.go). SHA-512, HKDF and X25519 are parameters.
\<close>

section \<open>The combiner\<close>

definition ContextFriendRequest :: string where "ContextFriendRequest = ''friend-request''"
definition ContextEdTLSSession :: string where "ContextEdTLSSession = ''edtls-session''"

definition SessionSecretSize :: nat where "SessionSecretSize = 32"
definition X25519SharedSize :: nat where "X25519SharedSize = 32"
definition MLKEMSharedSize :: nat where "MLKEMSharedSize = 32"

definition SigMessagePrefix :: string where "SigMessagePrefix = ''neverlur-hybrid-sig-v1''"
definition hkdfInfoPrefix :: string where "hkdfInfoPrefix = ''neverlur/v1 hybrid kdf ''"

datatype combine_error =
  ErrInvalidShareLength | ErrEmptyTranscript | ErrEmptyContext | ErrX25519 | ErrReadFull

definition kdf_output ::
  "(bytes \<Rightarrow> bytes) \<Rightarrow> hkdf \<Rightarrow> string \<Rightarrow> bytes \<Rightarrow> bytes \<Rightarrow> bytes \<Rightarrow> (combine_error, bytes) outcome" where
  "kdf_output sha512 hk context transcript ssX25519 ssMLKEM =
     (let saltSum = sha512 transcript;
          ikm = ssX25519 @ ssMLKEM;
          info = str_bytes (hkdfInfoPrefix @ context)
      in case hk ikm (Some saltSum) info SessionSecretSize of
           None \<Rightarrow> Err ErrReadFull
         | Some out \<Rightarrow> Ok (fixed SessionSecretSize out))"

definition CombineKEMConcat ::
  "(bytes \<Rightarrow> bytes) \<Rightarrow> hkdf \<Rightarrow> string \<Rightarrow> bytes \<Rightarrow> bytes \<Rightarrow> bytes \<Rightarrow> (combine_error, bytes) outcome" where
  "CombineKEMConcat sha512 hk context transcript ssX25519 ssMLKEM =
     (if context = [] then Err ErrEmptyContext
      else if length ssX25519 \<noteq> X25519SharedSize then Err ErrInvalidShareLength
      else if length ssMLKEM = 0 then Err ErrInvalidShareLength
      else if length transcript = 0 then Err ErrEmptyTranscript
      else kdf_output sha512 hk context transcript ssX25519 ssMLKEM)"

definition CombineKEM ::
  "(bytes \<Rightarrow> bytes) \<Rightarrow> hkdf \<Rightarrow> string \<Rightarrow> bytes \<Rightarrow> bytes \<Rightarrow> bytes \<Rightarrow> (combine_error, bytes) outcome" where
  "CombineKEM sha512 hk context transcript ssX25519 ssMLKEM =
     (if context = [] then Err ErrEmptyContext
      else if length ssX25519 \<noteq> X25519SharedSize then Err ErrInvalidShareLength
      else if length ssMLKEM \<noteq> MLKEMSharedSize then Err ErrInvalidShareLength
      else if length transcript = 0 then Err ErrEmptyTranscript
      else kdf_output sha512 hk context transcript ssX25519 ssMLKEM)"

definition SignedMessage :: "(bytes \<Rightarrow> bytes) \<Rightarrow> bytes \<Rightarrow> bytes \<Rightarrow> bytes \<Rightarrow> bytes" where
  "SignedMessage sha512 payload edPub pqPub =
     str_bytes SigMessagePrefix @ payload @ sha512 (edPub @ pqPub)"

section \<open>The keywheel seed\<close>

text \<open>\<open>bytes.Compare(a, b) <= 0\<close>: lexicographic, a proper prefix first.\<close>

fun bytes_le :: "bytes \<Rightarrow> bytes \<Rightarrow> bool" where
  "bytes_le [] _ = True"
| "bytes_le (_ # _) [] = False"
| "bytes_le (x # xs) (y # ys) = (if x = y then bytes_le xs ys else x < y)"


definition keywheelSeedPrefix :: string where
  "keywheelSeedPrefix = ''neverlur-keywheel-seed-v2''"

definition buildKeywheelTranscript ::
  "bytes \<Rightarrow> bytes \<Rightarrow> bytes \<Rightarrow> bytes \<Rightarrow> bytes \<Rightarrow> bytes \<Rightarrow> u32 \<Rightarrow> bytes" where
  "buildKeywheelTranscript x1 x2 lt1 lt2 ct1 ct2 dialingRound =
     str_bytes keywheelSeedPrefix @ x1 @ x2 @ lt1 @ lt2 @ ct1 @ ct2 @ be32 dialingRound"


section \<open>Lemmas\<close>

lemma bytes_le_refl [simp]: "bytes_le a a"
  by (induction a) auto




lemma combine_errors:
  "context \<noteq> [] \<Longrightarrow> length x = 32 \<Longrightarrow> m \<noteq> [] \<Longrightarrow> t \<noteq> [] \<Longrightarrow>
     CombineKEMConcat sha512 hk context t x m = kdf_output sha512 hk context t x m"
  by (simp add: CombineKEMConcat_def X25519SharedSize_def)

lemma length_kdf_output: "kdf_output sha512 hk c t x m = Ok out \<Longrightarrow> length out = 32"
  by (auto simp: kdf_output_def Let_def SessionSecretSize_def split: option.splits)

lemma length_transcript:
  "length (buildKeywheelTranscript x1 x2 lt1 lt2 ct1 ct2 r) =
     25 + length x1 + length x2 + length lt1 + length lt2 + length ct1 + length ct2 + 4"
  by (simp add: buildKeywheelTranscript_def keywheelSeedPrefix_def)

section \<open>Properties\<close>



text \<open>
  The transcript binds everything it is built from: for keys and ciphertexts of the sizes
  the program uses, equal transcripts come from equal keys, ciphertexts and rounds.
\<close>

theorem transcript_binding:
  assumes "length x1 = 32" "length x2 = 32" "length y1 = 32" "length y2 = 32"
    and "length lt1 = pqkem_PublicKeySize" "length lt2 = pqkem_PublicKeySize"
    and "length lu1 = pqkem_PublicKeySize" "length lu2 = pqkem_PublicKeySize"
    and "length ct1 = pqkem_CiphertextSize" "length ct2 = pqkem_CiphertextSize"
    and "length cu1 = pqkem_CiphertextSize" "length cu2 = pqkem_CiphertextSize"
  shows "buildKeywheelTranscript x1 x2 lt1 lt2 ct1 ct2 r = buildKeywheelTranscript y1 y2 lu1 lu2 cu1 cu2 r'
    \<longleftrightarrow> x1 = y1 \<and> x2 = y2 \<and> lt1 = lu1 \<and> lt2 = lu2 \<and> ct1 = cu1 \<and> ct2 = cu2 \<and> r = r'"
  using assms by (simp add: buildKeywheelTranscript_def)

theorem transcript_binding_witness:
  "buildKeywheelTranscript (replicate 32 0) (replicate 32 0) (replicate 1184 1) (replicate 1184 2)
     (replicate 1088 3) (replicate 1088 4) 7 \<noteq>
   buildKeywheelTranscript (replicate 32 0) (replicate 32 0) (replicate 1184 1) (replicate 1184 2)
     (replicate 1088 3) (replicate 1088 4) 8"
  using transcript_binding [of "replicate 32 0" "replicate 32 0" "replicate 32 0" "replicate 32 0"
      "replicate 1184 1" "replicate 1184 2" "replicate 1184 1" "replicate 1184 2"
      "replicate 1088 3" "replicate 1088 4" "replicate 1088 3" "replicate 1088 4" 7 8]
  by (simp add: pq_sizes)

text \<open>
  The transcript of keys and ciphertexts of the program's sizes has 4637 bytes, of which
  the domain separator takes 25.
\<close>

theorem transcript_size:
  assumes "length x1 = 32" "length x2 = 32"
    and "length lt1 = pqkem_PublicKeySize" "length lt2 = pqkem_PublicKeySize"
    and "length ct1 = pqkem_CiphertextSize" "length ct2 = pqkem_CiphertextSize"
  shows "length (str_bytes keywheelSeedPrefix) = 25 \<and>
    length (buildKeywheelTranscript x1 x2 lt1 lt2 ct1 ct2 r) = 4637"
  using assms by (simp add: length_transcript pq_sizes keywheelSeedPrefix_def)

theorem transcript_size_witness:
  "length (buildKeywheelTranscript (replicate 32 0) (replicate 32 0) (replicate 1184 1)
     (replicate 1184 2) (replicate 1088 3) (replicate 1088 4) 7) = 4637"
  using transcript_size [of "replicate 32 0" "replicate 32 0" "replicate 1184 1" "replicate 1184 2"
      "replicate 1088 3" "replicate 1088 4" 7]
  by (simp add: pq_sizes)

end
