(* ===== verification/Identity.thy ===== *)
theory Identity
  imports Instances
begin

text \<open>
  Hybrid identities and their files (src/hybrid/identity.go, identity_file.go,
  seedderive.go). An Ed25519 private key is Go's seed followed by the public key, and
  \<open>edpub\<close> is the parameter that computes the public key of a seed. Files are a map from
  paths to mode and contents; how an attempt to write ends is the argument \<open>io\<close>.
\<close>

section \<open>Ed25519 keys as the standard library lays them out\<close>

type_synonym edpub = "bytes \<Rightarrow> bytes"

definition ed_NewKeyFromSeed :: "edpub \<Rightarrow> bytes \<Rightarrow> bytes" where
  "ed_NewKeyFromSeed edpub seed = seed @ fixed 32 (edpub seed)"

definition ed_Public :: "bytes \<Rightarrow> bytes" where "ed_Public priv = drop 32 priv"
definition ed_Seed :: "bytes \<Rightarrow> bytes" where "ed_Seed priv = take 32 priv"

lemma ed_Seed_New [simp]: "length seed = 32 \<Longrightarrow> ed_Seed (ed_NewKeyFromSeed edpub seed) = seed"
  by (simp add: ed_Seed_def ed_NewKeyFromSeed_def)

section \<open>Identities\<close>

record ('vk, 'gk, 'pk, 'sk) HybridIdentity =
  EdPub :: bytes
  EdPriv :: "bytes option"
  PQPub :: "'vk option"
  PQPriv :: "'gk option"
  MLKEMPub :: "'pk option"
  MLKEMPriv :: "'sk option"
  Created :: int

record ('vk, 'pk) HybridIdentityPublic =
  pub_EdPub :: bytes
  pub_PQPub :: "'vk option"
  pub_MLKEMPub :: "'pk option"

datatype id_error =
    ErrBindingFailed | ErrIdentityIncomplete | KeygenFailed | EdSeedLength nat
  | PqsigDerivation pq_error | PqkemDerivation pq_error
  | ErrIdentityFileUnreadable | StatFailed | ReadFailed | ParseFailed
  | FileVersion int | DeriveSeedOnly pq_error
  | CreateFailed | WriteFailed | CloseFailed
  | NoLegacyPath | LegacyLength nat | PersistUpgraded id_error

definition hybridIdentityFromEd25519Pair ::
  "hkdf \<Rightarrow> ('vk, 'gk) mldsa \<Rightarrow> ('pk, 'sk) mlkem \<Rightarrow> int \<Rightarrow> bytes \<Rightarrow> bytes \<Rightarrow>
   (id_error, ('vk, 'gk, 'pk, 'sk) HybridIdentity) outcome" where
  "hybridIdentityFromEd25519Pair hk D K now edPub edPriv =
     (case pqsig_DeriveFromEd25519Seed hk D (ed_Seed edPriv) of
        Err e \<Rightarrow> Err (PqsigDerivation e) | Panic \<Rightarrow> Panic
      | Ok (pqPub, pqPriv) \<Rightarrow>
          (case pqkem_DeriveFromEd25519Seed hk K (ed_Seed edPriv) of
             Err e \<Rightarrow> Err (PqkemDerivation e) | Panic \<Rightarrow> Panic
           | Ok (mlkemPub, mlkemPriv) \<Rightarrow>
               Ok \<lparr>EdPub = edPub, EdPriv = Some edPriv, PQPub = Some pqPub, PQPriv = Some pqPriv,
                   MLKEMPub = Some mlkemPub, MLKEMPriv = Some mlkemPriv, Created = now\<rparr>))"

definition HybridIdentityFromEd25519Seed ::
  "edpub \<Rightarrow> hkdf \<Rightarrow> ('vk, 'gk) mldsa \<Rightarrow> ('pk, 'sk) mlkem \<Rightarrow> int \<Rightarrow> bytes \<Rightarrow>
   (id_error, ('vk, 'gk, 'pk, 'sk) HybridIdentity) outcome" where
  "HybridIdentityFromEd25519Seed edpub hk D K now edSeed =
     (if length edSeed \<noteq> 32 then Err (EdSeedLength (length edSeed))
      else (let edPriv = ed_NewKeyFromSeed edpub edSeed
            in hybridIdentityFromEd25519Pair hk D K now (ed_Public edPriv) edPriv))"

text \<open>\<open>keygen\<close> is what \<open>ed25519.GenerateKey(rand.Reader)\<close> gives.\<close>

definition GenerateHybridIdentity ::
  "(bytes \<times> bytes) option \<Rightarrow> hkdf \<Rightarrow> ('vk, 'gk) mldsa \<Rightarrow> ('pk, 'sk) mlkem \<Rightarrow> int \<Rightarrow>
   (id_error, ('vk, 'gk, 'pk, 'sk) HybridIdentity) outcome" where
  "GenerateHybridIdentity keygen hk D K now =
     (case keygen of None \<Rightarrow> Err KeygenFailed
      | Some (edPub, edPriv) \<Rightarrow> hybridIdentityFromEd25519Pair hk D K now edPub edPriv)"

definition VerifyBinding ::
  "hkdf \<Rightarrow> ('vk, 'gk) mldsa \<Rightarrow> ('pk, 'sk) mlkem \<Rightarrow> ('vk, 'gk, 'pk, 'sk) HybridIdentity option \<Rightarrow>
   (id_error, unit) outcome" where
  "VerifyBinding hk D K idp =
     (case idp of
        None \<Rightarrow> Err ErrIdentityIncomplete
      | Some idn \<Rightarrow>
          (case (EdPriv idn, PQPub idn, MLKEMPub idn) of
             (Some priv, Some pqPub, Some mlkemPub) \<Rightarrow>
               (case pqsig_DeriveFromEd25519Seed hk D (ed_Seed priv) of
                  Err e \<Rightarrow> Err (PqsigDerivation e) | Panic \<Rightarrow> Panic
                | Ok (derivedPQPub, _) \<Rightarrow>
                    if pqsig_PackPublicKey D derivedPQPub \<noteq> pqsig_PackPublicKey D pqPub
                    then Err ErrBindingFailed
                    else (case pqkem_DeriveFromEd25519Seed hk K (ed_Seed priv) of
                            Err e \<Rightarrow> Err (PqkemDerivation e) | Panic \<Rightarrow> Panic
                          | Ok (derivedMLKEMPub, _) \<Rightarrow>
                              if pqkem_PackPublicKey K derivedMLKEMPub \<noteq> pqkem_PackPublicKey K mlkemPub
                              then Err ErrBindingFailed else Ok ()))
           | _ \<Rightarrow> Err ErrIdentityIncomplete))"

definition identity_Public ::
  "('vk, 'gk, 'pk, 'sk) HybridIdentity option \<Rightarrow> ('vk, 'pk) HybridIdentityPublic option" where
  "identity_Public idp =
     map_option (\<lambda>i. \<lparr>pub_EdPub = EdPub i, pub_PQPub = PQPub i, pub_MLKEMPub = MLKEMPub i\<rparr>) idp"

definition identity_Equal ::
  "('vk, 'gk) mldsa \<Rightarrow> ('pk, 'sk) mlkem \<Rightarrow> ('vk, 'pk) HybridIdentityPublic option \<Rightarrow>
   ('vk, 'pk) HybridIdentityPublic option \<Rightarrow> bool" where
  "identity_Equal D K a b =
     (case (a, b) of
        (Some x, Some y) \<Rightarrow>
          if pub_EdPub x \<noteq> pub_EdPub y then False
          else (case (pub_PQPub x, pub_PQPub y) of
                  (Some p, Some q) \<Rightarrow>
                    if pqsig_PackPublicKey D p \<noteq> pqsig_PackPublicKey D q then False
                    else (case (pub_MLKEMPub x, pub_MLKEMPub y) of
                            (Some m, Some n) \<Rightarrow> pqkem_PackPublicKey K m = pqkem_PackPublicKey K n
                          | _ \<Rightarrow> False)
                | _ \<Rightarrow> False)
      | _ \<Rightarrow> False)"

section \<open>Identity files\<close>

definition IdentityFileVersion :: int where "IdentityFileVersion = 2"
text \<open>Octal 0600, and 63 is octal 077.\<close>

definition identityFileMode :: "32 word" where "identityFileMode = 384"

record IdentityFile =
  if_Version :: int
  if_Ed25519Seed :: bytes
  if_MLDSA65Seed :: bytes
  if_Created :: int
  if_RotatedFrom :: "string option"

record osfile =
  f_mode :: "32 word"
  f_data :: bytes

type_synonym fs = "string \<rightharpoonup> osfile"

text \<open>How creating and writing a file ends; a failed write leaves what was written.\<close>

datatype write_io = WriteOK | CreateErr | WriteErr bytes | CloseErr

record codec_if =
  enc_if :: "IdentityFile \<Rightarrow> bytes"
  dec_if :: "bytes \<Rightarrow> IdentityFile option"

definition pqsigDeriveSeedOnly :: "hkdf \<Rightarrow> bytes \<Rightarrow> (pq_error, bytes) outcome" where
  "pqsigDeriveSeedOnly hk edSeed =
     (if length edSeed \<noteq> 32 then Err (Ed25519SeedLength (length edSeed))
      else (case hk edSeed None (str_bytes ''neverlur/v1 pq-id-binding'') 32 of
              None \<Rightarrow> Err HkdfExpand | Some out \<Rightarrow> Ok out))"

definition deriveMLDSASeedBytes :: "hkdf \<Rightarrow> bytes \<Rightarrow> (id_error, bytes) outcome" where
  "deriveMLDSASeedBytes hk edSeed =
     (case pqsigDeriveSeedOnly hk edSeed of
        Err e \<Rightarrow> Err (DeriveSeedOnly e) | Panic \<Rightarrow> Panic | Ok sk \<Rightarrow> Ok sk)"

text \<open>The loop of \<open>bytesEqualConst\<close> accumulates the differences of all positions.\<close>

definition bytesEqualConst :: "bytes \<Rightarrow> bytes \<Rightarrow> bool" where
  "bytesEqualConst a b =
     (if length a \<noteq> length b then False
      else fold (\<lambda>(x, y) diff. diff OR (x XOR y)) (zip a b) (0 :: byte) = 0)"

definition checkSecurePerms :: "bool \<Rightarrow> fs \<Rightarrow> string \<Rightarrow> (id_error, unit) outcome" where
  "checkSecurePerms windows files path =
     (if windows then Ok ()
      else (case files path of
              None \<Rightarrow> Err StatFailed
            | Some f \<Rightarrow> if f_mode f AND 63 \<noteq> 0 then Err ErrIdentityFileUnreadable else Ok ()))"

definition LoadIdentityFile ::
  "edpub \<Rightarrow> hkdf \<Rightarrow> ('vk, 'gk) mldsa \<Rightarrow> ('pk, 'sk) mlkem \<Rightarrow> codec_if \<Rightarrow> bool \<Rightarrow> int \<Rightarrow> fs \<Rightarrow> string \<Rightarrow>
   (id_error, ('vk, 'gk, 'pk, 'sk) HybridIdentity) outcome" where
  "LoadIdentityFile edpub hk D K J windows now files path =
     bind_outcome (checkSecurePerms windows files path) (\<lambda>_.
     case files path of
       None \<Rightarrow> Err ReadFailed
     | Some fl \<Rightarrow>
         (case dec_if J (f_data fl) of
            None \<Rightarrow> Err ParseFailed
          | Some f \<Rightarrow>
              if if_Version f \<noteq> IdentityFileVersion then Err (FileVersion (if_Version f))
              else if length (if_Ed25519Seed f) \<noteq> 32 then Err (EdSeedLength (length (if_Ed25519Seed f)))
              else
                bind_outcome (HybridIdentityFromEd25519Seed edpub hk D K now (if_Ed25519Seed f)) (\<lambda>id0.
                let idn = id0\<lparr>Created := if_Created f\<rparr> in
                bind_outcome
                  (if length (if_MLDSA65Seed f) \<noteq> 0
                   then bind_outcome (deriveMLDSASeedBytes hk (if_Ed25519Seed f)) (\<lambda>derived.
                     if \<not> bytesEqualConst derived (if_MLDSA65Seed f) then Err ErrBindingFailed else Ok ())
                   else Ok ()) (\<lambda>_.
                bind_outcome (VerifyBinding hk D K (Some idn)) (\<lambda>_. Ok idn)))))"

definition WriteIdentityFile ::
  "hkdf \<Rightarrow> codec_if \<Rightarrow> write_io \<Rightarrow> fs \<Rightarrow> string \<Rightarrow> ('vk, 'gk, 'pk, 'sk) HybridIdentity option \<Rightarrow>
   fs \<times> (id_error, unit) outcome" where
  "WriteIdentityFile hk J io files path idp =
     (case Option.bind idp EdPriv of
        None \<Rightarrow> (files, Err ErrIdentityIncomplete)
      | Some priv \<Rightarrow>
          (case deriveMLDSASeedBytes hk (ed_Seed priv) of
             Err e \<Rightarrow> (files, Err e) | Panic \<Rightarrow> (files, Panic)
           | Ok mldsaSeed \<Rightarrow>
               (let data = enc_if J \<lparr>if_Version = IdentityFileVersion, if_Ed25519Seed = ed_Seed priv,
                      if_MLDSA65Seed = mldsaSeed, if_Created = Created (the idp), if_RotatedFrom = None\<rparr>
                in if files path \<noteq> None then (files, Err CreateFailed)
                   else (case io of
                           CreateErr \<Rightarrow> (files, Err CreateFailed)
                         | WriteErr part \<Rightarrow>
                             (files(path \<mapsto> \<lparr>f_mode = identityFileMode, f_data = part\<rparr>), Err WriteFailed)
                         | CloseErr \<Rightarrow>
                             (files(path \<mapsto> \<lparr>f_mode = identityFileMode, f_data = data\<rparr>), Err CloseFailed)
                         | WriteOK \<Rightarrow>
                             (files(path \<mapsto> \<lparr>f_mode = identityFileMode, f_data = data\<rparr>), Ok ())))))"

definition LoadOrUpgradeIdentityFile ::
  "edpub \<Rightarrow> hkdf \<Rightarrow> ('vk, 'gk) mldsa \<Rightarrow> ('pk, 'sk) mlkem \<Rightarrow> codec_if \<Rightarrow> bool \<Rightarrow> int \<Rightarrow> write_io \<Rightarrow> fs \<Rightarrow>
   string \<Rightarrow> string \<Rightarrow> fs \<times> (id_error, ('vk, 'gk, 'pk, 'sk) HybridIdentity \<times> bool) outcome" where
  "LoadOrUpgradeIdentityFile edpub hk D K J windows now io files v2Path legacyPath =
     (if files v2Path \<noteq> None
      then (files, bind_outcome (LoadIdentityFile edpub hk D K J windows now files v2Path)
                     (\<lambda>i. Ok (i, False)))
      else if legacyPath = [] then (files, Err NoLegacyPath)
      else (case checkSecurePerms windows files legacyPath of
              Err e \<Rightarrow> (files, Err e) | Panic \<Rightarrow> (files, Panic)
            | Ok _ \<Rightarrow>
                (case files legacyPath of
                   None \<Rightarrow> (files, Err ReadFailed)
                 | Some fl \<Rightarrow>
                     if length (f_data fl) \<noteq> 32 then (files, Err (LegacyLength (length (f_data fl))))
                     else (case HybridIdentityFromEd25519Seed edpub hk D K now (f_data fl) of
                             Err e \<Rightarrow> (files, Err e) | Panic \<Rightarrow> (files, Panic)
                           | Ok i \<Rightarrow>
                               (case WriteIdentityFile hk J io files v2Path (Some i) of
                                  (files', Err e) \<Rightarrow> (files', Err (PersistUpgraded e))
                                | (files', Panic) \<Rightarrow> (files', Panic)
                                | (files', Ok _) \<Rightarrow> (files', Ok (i, True)))))))"

section \<open>Lemmas\<close>

lemma fold_diff_zero:
  "fold (\<lambda>(x, y) diff. diff OR (x XOR y)) ps d = (0 :: byte) \<longleftrightarrow> d = 0 \<and> (\<forall>(x, y) \<in> set ps. x = y)"
proof (induction ps arbitrary: d)
  case (Cons p ps)
  have "d OR (fst p XOR snd p) = 0 \<longleftrightarrow> d = 0 \<and> fst p = snd p"
    by (auto simp: bit_eq_iff bit_simps)
  with Cons show ?case by (auto simp: case_prod_beta)
qed simp

lemma bytesEqualConst_eq [simp]: "bytesEqualConst a b \<longleftrightarrow> a = b"
proof -
  have "length a = length b \<Longrightarrow> (\<forall>(x, y) \<in> set (zip a b). x = y) \<longleftrightarrow> a = b"
    by (induction a b rule: list_induct2) auto
  then show ?thesis by (auto simp: bytesEqualConst_def fold_diff_zero)
qed

text \<open>The seed on disk is the one the signing key was derived from.\<close>

lemma seed_only_is_binding_seed:
  "pqsig_DeriveFromEd25519Seed hk D s = bind_outcome (pqsigDeriveSeedOnly hk s) (pqsig_GenerateKeyFromSeed D)"
  by (simp add: pqsig_DeriveFromEd25519Seed_def pqsigDeriveSeedOnly_def pqsig_bindingInfo_def
      pqsig_SeedSize_def split: option.split)

lemma from_seed_fields:
  assumes "HybridIdentityFromEd25519Seed edpub hk D K now s = Ok i"
  shows "length s = 32" "EdPriv i = Some (ed_NewKeyFromSeed edpub s)" "Created i = now"
    and "HybridIdentityFromEd25519Seed edpub hk D K now' s = Ok (i\<lparr>Created := now'\<rparr>)"
    and "\<exists>sd. deriveMLDSASeedBytes hk s = Ok sd"
  using assms
  by (auto simp: HybridIdentityFromEd25519Seed_def hybridIdentityFromEd25519Pair_def Let_def
      deriveMLDSASeedBytes_def seed_only_is_binding_seed outcome_simps
      split: if_splits outcome.splits prod.splits)

lemma from_seed_binding:
  assumes "HybridIdentityFromEd25519Seed edpub hk D K now s = Ok i"
  shows "VerifyBinding hk D K (Some (i\<lparr>Created := t\<rparr>)) = Ok ()"
  using assms
  by (auto simp: HybridIdentityFromEd25519Seed_def hybridIdentityFromEd25519Pair_def Let_def
      VerifyBinding_def split: if_splits outcome.splits prod.splits)


lemma pair_binding:
  assumes "hybridIdentityFromEd25519Pair hk D K now edPub edPriv = Ok i"
  shows "VerifyBinding hk D K (Some i) = Ok ()"
  using assms
  by (auto simp: hybridIdentityFromEd25519Pair_def VerifyBinding_def split: outcome.splits prod.splits)

text \<open>Loading a file that a write of the same identity would produce.\<close>

lemma load_from_seed_file:
  assumes "HybridIdentityFromEd25519Seed edpub hk D K t s = Ok i"
    and "deriveMLDSASeedBytes hk s = Ok sd"
    and "files path = Some \<lparr>f_mode = identityFileMode, f_data = d\<rparr>"
    and "dec_if J d = Some \<lparr>if_Version = IdentityFileVersion, if_Ed25519Seed = s,
           if_MLDSA65Seed = sd, if_Created = t, if_RotatedFrom = rot\<rparr>"
  shows "LoadIdentityFile edpub hk D K J windows now files path = Ok i"
proof -
  note f = from_seed_fields [OF assms(1)]
  have "checkSecurePerms windows files path = Ok ()"
    by (simp add: checkSecurePerms_def assms(3) identityFileMode_def)
  moreover have "HybridIdentityFromEd25519Seed edpub hk D K now s = Ok (i\<lparr>Created := now\<rparr>)"
    by (rule f(4))
  moreover have "i\<lparr>Created := t\<rparr> = i" using f(3) by simp
  ultimately show ?thesis
    using from_seed_binding [OF assms(1), of t] f(1,3) assms(2-4)
    by (simp add: LoadIdentityFile_def Let_def)
qed

text \<open>A concrete format for identity files, for evaluating the properties.\<close>

definition toy_if :: codec_if where
  "toy_if = \<lparr>
     enc_if = (\<lambda>f. put_int (if_Version f) @ put_field (if_Ed25519Seed f) @ put_field (if_MLDSA65Seed f) @
       put_int (if_Created f) @ put_opt (map_option str_bytes (if_RotatedFrom f))),
     dec_if = (\<lambda>b. let (v, b1) = get_int b; (s, b2) = get_field b1; (m, b3) = get_field b2;
         (c, b4) = get_int b3; (r, _) = get_opt b4
       in Some \<lparr>if_Version = v, if_Ed25519Seed = s, if_MLDSA65Seed = m, if_Created = c,
            if_RotatedFrom = map_option bytes_str r\<rparr>)\<rparr>"

lemma toy_if_roundtrip: "dec_if toy_if (enc_if toy_if f) = Some f"
  by (simp add: toy_if_def option.map_comp comp_def option.map_ident)

definition legacy_fs :: fs where
  "legacy_fs = [''id'' \<mapsto> \<lparr>f_mode = 384, f_data = replicate 32 7\<rparr>]"

definition toy_identity :: "(bytes, bytes, nat, nat) HybridIdentity" where
  "toy_identity = \<lparr>EdPub = fixed 32 [9], EdPriv = Some (replicate 32 7 @ fixed 32 [9]),
     PQPub = Some (replicate 32 7), PQPriv = Some (replicate 32 7),
     MLKEMPub = Some 0, MLKEMPriv = Some 0, Created = 3\<rparr>"

lemma toy_identity_from_seed:
  "HybridIdentityFromEd25519Seed (\<lambda>_. [9]) toy_hkdf toy_dsa toy_kem 3 (replicate 32 7) = Ok toy_identity"
  by (simp add: HybridIdentityFromEd25519Seed_def hybridIdentityFromEd25519Pair_def Let_def
      pqsig_DeriveFromEd25519Seed_def pqkem_DeriveFromEd25519Seed_def pq_sizes toy_hkdf_def
      pqsig_GenerateKeyFromSeed_def pqkem_NewKeyFromSeed_def ed_NewKeyFromSeed_def ed_Public_def
      ed_Seed_def toy_dsa_def toy_kem_def toy_identity_def)

section \<open>Properties\<close>

text \<open>
  An upgrade happens once and loses nothing. After a legacy seed was upgraded, the new
  file is private (mode 0600), the legacy file is as it was, the identity passes its binding
  check, and every later call, at any time, loads the same identity and reports no upgrade.
\<close>

theorem upgrade_once:
  assumes "\<And>f. dec_if J (enc_if J f) = Some f"
    and "LoadOrUpgradeIdentityFile edpub hk D K J windows now io files v2Path legacyPath
           = (files', Ok (i, True))"
  shows "files' legacyPath = files legacyPath \<and> map_option f_mode (files' v2Path) = Some 384 \<and>
    VerifyBinding hk D K (Some i) = Ok () \<and>
    LoadOrUpgradeIdentityFile edpub hk D K J windows' now' io' files' v2Path legacyPath
      = (files', Ok (i, False))"
proof -
  obtain fl where none: "files v2Path = None" and leg: "files legacyPath = Some fl"
    and id: "HybridIdentityFromEd25519Seed edpub hk D K now (f_data fl) = Ok i"
    and wr: "WriteIdentityFile hk J io files v2Path (Some i) = (files', Ok ())"
    using assms(2) unfolding LoadOrUpgradeIdentityFile_def
    by (auto simp: outcome_simps split: if_splits outcome.splits option.splits prod.splits)
  note f = from_seed_fields [OF id]
  obtain sd where sd: "deriveMLDSASeedBytes hk (f_data fl) = Ok sd" using f(5) by blast
  obtain d where new: "files' = files(v2Path \<mapsto> \<lparr>f_mode = identityFileMode, f_data = d\<rparr>)"
    and d: "d = enc_if J \<lparr>if_Version = IdentityFileVersion, if_Ed25519Seed = f_data fl,
              if_MLDSA65Seed = sd, if_Created = now, if_RotatedFrom = None\<rparr>"
    using wr none f(1,2,3) sd by (auto simp: WriteIdentityFile_def Let_def split: write_io.splits)
  have "LoadIdentityFile edpub hk D K J windows' now' files' v2Path = Ok i"
    by (rule load_from_seed_file [OF id sd _ assms(1)]) (simp add: new d)
  moreover have "i\<lparr>Created := now\<rparr> = i" using f(3) by simp
  ultimately show ?thesis
    using none leg new from_seed_binding [OF id, of now]
    by (auto simp: LoadOrUpgradeIdentityFile_def identityFileMode_def)
qed

theorem upgrade_once_witness:
  "\<exists>files' :: fs. map_option f_mode (files' ''id2'') = Some 384 \<and>
     LoadOrUpgradeIdentityFile (\<lambda>_. [9]) toy_hkdf toy_dsa toy_kem toy_if False 5 CreateErr files' ''id2'' ''id''
       = (files', Ok (toy_identity, False))"
proof -
  have sd: "deriveMLDSASeedBytes toy_hkdf (replicate 32 7) = Ok (replicate 32 7)"
    by (simp add: deriveMLDSASeedBytes_def pqsigDeriveSeedOnly_def toy_hkdf_def)
  obtain d where "LoadOrUpgradeIdentityFile (\<lambda>_. [9]) toy_hkdf toy_dsa toy_kem toy_if False 3 WriteOK
      legacy_fs ''id2'' ''id'' = (legacy_fs(''id2'' \<mapsto> \<lparr>f_mode = 384, f_data = d\<rparr>), Ok (toy_identity, True))"
    using sd toy_identity_from_seed
    by (simp add: LoadOrUpgradeIdentityFile_def legacy_fs_def checkSecurePerms_def WriteIdentityFile_def
        Let_def toy_identity_def ed_Seed_def identityFileMode_def)
  from upgrade_once [OF toy_if_roundtrip this, of False 5 CreateErr] show ?thesis by blast
qed

text \<open>
  What loading accepts. An identity comes only from a file that nobody but its owner may
  read or write, of the right version, whose seed is the identity's signing seed, whose stored
  ML-DSA seed, where there is one, is the one derived from it, and the post-quantum keys are
  the ones the seed binds.
\<close>

theorem load_identity_sound:
  assumes "LoadIdentityFile edpub hk D K J False now files path = Ok i"
  shows "\<exists>fl f. files path = Some fl \<and> f_mode fl AND 63 = 0 \<and> dec_if J (f_data fl) = Some f \<and>
    if_Version f = 2 \<and> Option.bind (EdPriv i) (\<lambda>p. Some (ed_Seed p)) = Some (if_Ed25519Seed f) \<and>
    Created i = if_Created f \<and>
    (if_MLDSA65Seed f = [] \<or> pqsigDeriveSeedOnly hk (if_Ed25519Seed f) = Ok (if_MLDSA65Seed f)) \<and>
    VerifyBinding hk D K (Some i) = Ok ()"
proof -
  obtain fl where fl: "files path = Some fl"
    using assms by (auto simp: LoadIdentityFile_def outcome_simps split: option.splits)
  obtain f where f: "dec_if J (f_data fl) = Some f"
    using assms fl by (auto simp: LoadIdentityFile_def outcome_simps split: option.splits)
  obtain i0 where i0: "HybridIdentityFromEd25519Seed edpub hk D K now (if_Ed25519Seed f) = Ok i0"
    and i: "i = i0\<lparr>Created := if_Created f\<rparr>"
    using assms fl f by (auto simp: LoadIdentityFile_def outcome_simps Let_def split: if_splits)
  have "f_mode fl AND 63 = 0" "if_Version f = 2"
    "if_MLDSA65Seed f = [] \<or> pqsigDeriveSeedOnly hk (if_Ed25519Seed f) = Ok (if_MLDSA65Seed f)"
    "VerifyBinding hk D K (Some i) = Ok ()"
    using assms fl f i0 i
    by (auto simp: LoadIdentityFile_def checkSecurePerms_def outcome_simps Let_def IdentityFileVersion_def
        deriveMLDSASeedBytes_def split: if_splits outcome.splits)
  then show ?thesis
    using fl f i from_seed_fields(1,2) [OF i0] by auto
qed

theorem load_identity_sound_witness:
  "\<exists>f. dec_if toy_if (enc_if toy_if \<lparr>if_Version = 2, if_Ed25519Seed = replicate 32 7,
       if_MLDSA65Seed = replicate 32 7, if_Created = 3, if_RotatedFrom = None\<rparr>) = Some f \<and>
     if_Version f = 2 \<and> VerifyBinding toy_hkdf toy_dsa toy_kem (Some toy_identity) = Ok ()"
proof -
  let ?d = "enc_if toy_if \<lparr>if_Version = 2, if_Ed25519Seed = replicate 32 7,
       if_MLDSA65Seed = replicate 32 7, if_Created = 3, if_RotatedFrom = None\<rparr>"
  have "LoadIdentityFile (\<lambda>_. [9]) toy_hkdf toy_dsa toy_kem toy_if False 5
      [''x'' \<mapsto> \<lparr>f_mode = identityFileMode, f_data = ?d\<rparr>] ''x'' = Ok toy_identity"
    by (rule load_from_seed_file [OF toy_identity_from_seed, of "replicate 32 7" _ _ ?d _ None])
      (simp_all add: toy_if_roundtrip IdentityFileVersion_def deriveMLDSASeedBytes_def
        pqsigDeriveSeedOnly_def toy_hkdf_def)
  from load_identity_sound [OF this] show ?thesis by auto
qed

text \<open>
  A write that fails half way leaves a file that blocks every later attempt: the upgrade only
  starts when there is no file, and the partial one does not parse.
\<close>

lemma partial_write_blocks_upgrade:
  assumes "files v2Path = None"
    and "LoadOrUpgradeIdentityFile edpub hk D K J windows now (WriteErr part) files v2Path legacyPath
           = (files', Err (PersistUpgraded e))"
    and "e = WriteFailed" and "dec_if J part = None"
  shows "LoadOrUpgradeIdentityFile edpub hk D K J windows' now' io' files' v2Path legacyPath
    = (files', Err ParseFailed)"
proof -
  have "files' v2Path = Some \<lparr>f_mode = identityFileMode, f_data = part\<rparr>"
    using assms(1-3)
    by (auto simp: LoadOrUpgradeIdentityFile_def WriteIdentityFile_def Let_def checkSecurePerms_def
        HybridIdentityFromEd25519Seed_def hybridIdentityFromEd25519Pair_def deriveMLDSASeedBytes_def
        split: if_splits outcome.splits option.splits prod.splits)
  moreover have "checkSecurePerms windows' files' v2Path = Ok ()"
    using calculation by (simp add: checkSecurePerms_def identityFileMode_def)
  ultimately show ?thesis
    using assms(4) by (simp add: LoadOrUpgradeIdentityFile_def LoadIdentityFile_def)
qed

end
