(* ===== verification/Bloom.thy ===== *)
theory Bloom
  imports Instances "HOL-Library.Signed_Division"
begin

text \<open>
  The Bloom filter that carries a dialing mailbox (src/bloom/bloom.go). SipHash is the
  parameter \<open>sip k0 k1 x\<close>, which gives the two 64-bit halves of \<open>siphash.Hash128\<close>. An
  index out of range and a remainder by zero are panics.
\<close>

section \<open>The filter\<close>

type_synonym siphash = "u64 \<Rightarrow> u64 \<Rightarrow> bytes \<Rightarrow> u64 \<times> u64"

record Filter =
  numHashes :: int
  filter_data :: bytes

datatype bloom_error = ShortData | BadJSON

definition bloom_New :: "int \<Rightarrow> int \<Rightarrow> (bloom_error, Filter) outcome" where
  "bloom_New sizeBits k =
     (let m = (sizeBits + 7) sdiv 8
      in if m < 0 then Panic else Ok \<lparr>numHashes = k, filter_data = replicate (nat m) 0\<rparr>)"

text \<open>One turn of the loop of \<open>hash\<close> stores the four words of one Hash128.\<close>

definition hash_turn :: "siphash \<Rightarrow> bytes \<Rightarrow> nat \<Rightarrow> u32 list \<Rightarrow> u32 list" where
  "hash_turn sip x i res =
     (let (h1, h2) = sip (word_of_nat i) 666666 x
      in res[i * 4 := ucast h1, i * 4 + 1 := ucast (drop_bit 32 h1),
             i * 4 + 2 := ucast h2, i * 4 + 3 := ucast (drop_bit 32 h2)])"

definition bloom_hash :: "siphash \<Rightarrow> bytes \<Rightarrow> int \<Rightarrow> (bloom_error, u32 list) outcome" where
  "bloom_hash sip x nhash =
     (if nhash < 0 then Panic
      else Ok (take (nat nhash)
        (fold (hash_turn sip x) [0 ..< (nat nhash + 3) div 4] (replicate (nat nhash + 3) 0))))"

definition bloom_test :: "Filter \<Rightarrow> u32 \<Rightarrow> (bloom_error, bool) outcome" where
  "bloom_test f b =
     (let i = unat (b div 8)
      in if i < length (filter_data f)
         then Ok (filter_data f ! i AND push_bit (unat (b mod 8)) 1 \<noteq> 0) else Panic)"

definition bloom_set :: "Filter \<Rightarrow> u32 \<Rightarrow> (bloom_error, Filter) outcome" where
  "bloom_set f b =
     (let i = unat (b div 8)
      in if i < length (filter_data f)
         then Ok (f\<lparr>filter_data := (filter_data f)[i := filter_data f ! i OR push_bit (unat (b mod 8)) 1]\<rparr>)
         else Panic)"

fun set_loop :: "u32 \<Rightarrow> u32 list \<Rightarrow> Filter \<Rightarrow> (bloom_error, Filter) outcome" where
  "set_loop n [] f = Ok f"
| "set_loop n (h # hs) f =
     (if n = 0 then Panic else bind_outcome (bloom_set f (h mod n)) (set_loop n hs))"

fun test_loop :: "u32 \<Rightarrow> u32 list \<Rightarrow> Filter \<Rightarrow> (bloom_error, bool) outcome" where
  "test_loop n [] f = Ok True"
| "test_loop n (h # hs) f =
     (if n = 0 then Panic
      else bind_outcome (bloom_test f (h mod n)) (\<lambda>b. if \<not> b then Ok False else test_loop n hs f))"

definition nbits :: "Filter \<Rightarrow> u32" where
  "nbits f = word_of_nat (length (filter_data f) * 8)"

definition bloom_Set :: "siphash \<Rightarrow> bytes \<Rightarrow> Filter \<Rightarrow> (bloom_error, Filter) outcome" where
  "bloom_Set sip x f =
     bind_outcome (bloom_hash sip x (numHashes f)) (\<lambda>hs. set_loop (nbits f) hs f)"

definition bloom_Test :: "siphash \<Rightarrow> bytes \<Rightarrow> Filter \<Rightarrow> (bloom_error, bool) outcome" where
  "bloom_Test sip x f =
     bind_outcome (bloom_hash sip x (numHashes f)) (\<lambda>hs. test_loop (nbits f) hs f)"

definition bloom_Len :: "Filter \<Rightarrow> nat" where
  "bloom_Len f = length (filter_data f)"

definition bloom_MarshalBinary :: "Filter \<Rightarrow> bytes" where
  "bloom_MarshalBinary f = be32 (word_of_int (numHashes f)) @ filter_data f"

definition bloom_UnmarshalBinary :: "bytes \<Rightarrow> (bloom_error, Filter) outcome" where
  "bloom_UnmarshalBinary d =
     (if length d < 4 then Err ShortData
      else Ok \<lparr>numHashes = int (unat (get_be32 d)), filter_data = drop 4 d\<rparr>)"

definition bloom_MarshalJSON :: "(bytes \<Rightarrow> bytes) \<Rightarrow> Filter \<Rightarrow> bytes" where
  "bloom_MarshalJSON jenc f = jenc (bloom_MarshalBinary f)"

definition bloom_UnmarshalJSON :: "(bytes \<Rightarrow> bytes option) \<Rightarrow> bytes \<Rightarrow> (bloom_error, Filter) outcome" where
  "bloom_UnmarshalJSON jdec d =
     (case jdec d of None \<Rightarrow> Err BadJSON | Some bs \<Rightarrow> bloom_UnmarshalBinary bs)"

section \<open>The words of the hash\<close>

text \<open>What the array loop computes, without the array: word \<open>j\<close> is a quarter of a Hash128.\<close>

definition hash_word :: "siphash \<Rightarrow> bytes \<Rightarrow> nat \<Rightarrow> u32" where
  "hash_word sip x j =
     (let (h1, h2) = sip (word_of_nat (j div 4)) 666666 x
      in if j mod 4 = 0 then ucast h1 else if j mod 4 = 1 then ucast (drop_bit 32 h1)
         else if j mod 4 = 2 then ucast h2 else ucast (drop_bit 32 h2))"

lemma hash_turn_nth:
  assumes "i * 4 + 3 < length res" and "j < length res"
  shows "hash_turn sip x i res ! j = (if j div 4 = i then hash_word sip x j else res ! j)"
proof (cases "j div 4 = i")
  case True
  obtain h1 h2 where sip: "sip (word_of_nat i) 666666 x = (h1, h2)" by (metis surj_pair)
  have "j = i * 4 \<or> j = i * 4 + 1 \<or> j = i * 4 + 2 \<or> j = i * 4 + 3"
    using True by presburger
  then consider "j = i * 4" | "j = i * 4 + 1" | "j = i * 4 + 2" | "j = i * 4 + 3" by blast
  moreover have "i * 4 mod 4 = 0" "(i * 4 + 1) mod 4 = 1" "(i * 4 + 2) mod 4 = 2" "(i * 4 + 3) mod 4 = 3"
    by presburger+
  ultimately show ?thesis
    using assms(1) True by cases (simp_all add: hash_turn_def hash_word_def sip del: One_nat_def)
next
  case False
  then have "j \<noteq> i * 4" "j \<noteq> i * 4 + 1" "j \<noteq> i * 4 + 2" "j \<noteq> i * 4 + 3" by presburger+
  with False show ?thesis by (simp add: hash_turn_def case_prod_beta)
qed

lemma length_hash_turn [simp]: "length (hash_turn sip x i res) = length res"
  by (simp add: hash_turn_def case_prod_beta)

lemma length_hash_fold [simp]: "length (fold (hash_turn sip x) is res) = length res"
  by (induction "is" arbitrary: res) simp_all

lemma hash_fold_nth:
  assumes "m * 4 \<le> length res" and "j < length res"
  shows "fold (hash_turn sip x) [0..<m] res ! j = (if j < m * 4 then hash_word sip x j else res ! j)"
  using assms
proof (induction m)
  case (Suc m)
  then have "fold (hash_turn sip x) [0..<Suc m] res ! j =
      hash_turn sip x m (fold (hash_turn sip x) [0..<m] res) ! j" by simp
  also have "\<dots> = (if j div 4 = m then hash_word sip x j else fold (hash_turn sip x) [0..<m] res ! j)"
    using Suc.prems by (intro hash_turn_nth) auto
  also have "\<dots> = (if j < Suc m * 4 then hash_word sip x j else res ! j)"
  proof -
    have "j div 4 = m \<longleftrightarrow> m * 4 \<le> j \<and> j < Suc m * 4" by presburger
    then show ?thesis using Suc by auto
  qed
  finally show ?case .
qed simp

lemma group_covers: "j < n \<Longrightarrow> j < (n + 3) div 4 * (4 :: nat)"
  by presburger

lemma bloom_hash_words:
  "bloom_hash sip x nhash =
     (if nhash < 0 then Panic else Ok (map (hash_word sip x) [0..<nat nhash]))"
proof -
  let ?n = "nat nhash"
  have "take ?n (fold (hash_turn sip x) [0 ..< (?n + 3) div 4] (replicate (?n + 3) 0)) =
      map (hash_word sip x) [0..<?n]"
  proof (rule nth_equalityI)
    fix j assume "j < length (take ?n (fold (hash_turn sip x) [0 ..< (?n + 3) div 4] (replicate (?n + 3) 0)))"
    then have "j < ?n" by simp
    then have "j < (?n + 3) div 4 * 4" by (rule group_covers)
    moreover have "(?n + 3) div 4 * 4 \<le> ?n + 3" by simp
    ultimately show "take ?n (fold (hash_turn sip x) [0 ..< (?n + 3) div 4] (replicate (?n + 3) 0)) ! j =
        map (hash_word sip x) [0..<?n] ! j"
      using \<open>j < ?n\<close> by (simp add: hash_fold_nth)
  qed simp
  then show ?thesis by (simp add: bloom_hash_def)
qed

section \<open>Bits\<close>

definition has_bit :: "bytes \<Rightarrow> u32 \<Rightarrow> bool" where
  "has_bit d b \<longleftrightarrow> bit (d ! unat (b div 8)) (unat (b mod 8))"

lemma bloom_test_bit:
  "unat (b div 8) < length (filter_data f) \<Longrightarrow> bloom_test f b = Ok (has_bit (filter_data f) b)"
  by (simp add: bloom_test_def has_bit_def bit_iff_and_push_bit_not_eq_0)

lemma unat_mod8_less: "unat ((b :: u32) mod 8) < 8"
  using unat_mono [OF word_mod_less_divisor [of 8 b]] by (simp add: word_greater_zero_iff)

lemma bloom_set_data:
  assumes "bloom_set f b = Ok f'"
  shows "numHashes f' = numHashes f" "length (filter_data f') = length (filter_data f)"
    "has_bit (filter_data f') b" "has_bit (filter_data f) c \<Longrightarrow> has_bit (filter_data f') c"
  using assms unat_mod8_less [of b]
  by (auto simp: bloom_set_def Let_def has_bit_def bit_simps nth_list_update split: if_splits)

lemma mod_nbits_in_range:
  assumes "nbits f \<noteq> 0"
  shows "unat ((h mod nbits f) div 8) < length (filter_data f)"
proof -
  have "unat (h mod nbits f) < unat (nbits f)"
    using assms by (simp add: unat_mono word_mod_less_divisor word_greater_zero_iff)
  also have "unat (nbits f) \<le> length (filter_data f) * 8"
    unfolding nbits_def unat_of_nat by simp
  finally show ?thesis by (simp add: unat_div less_mult_imp_div_less)
qed

text \<open>A filter whose operations do not panic.\<close>

definition filter_wf :: "Filter \<Rightarrow> bool" where
  "filter_wf f \<longleftrightarrow> 0 \<le> numHashes f \<and> (numHashes f = 0 \<or> nbits f \<noteq> 0)"

lemma test_loop_all:
  "nbits f \<noteq> 0 \<or> hs = [] \<Longrightarrow>
     test_loop (nbits f) hs f = Ok (\<forall>h\<in>set hs. has_bit (filter_data f) (h mod nbits f))"
  by (induction hs) (auto simp: bloom_test_bit mod_nbits_in_range)

lemma set_loop_ok:
  assumes "nbits f \<noteq> 0 \<or> hs = []"
  shows "\<exists>f'. set_loop (nbits f) hs f = Ok f' \<and> numHashes f' = numHashes f \<and>
    length (filter_data f') = length (filter_data f) \<and>
    (\<forall>h\<in>set hs. has_bit (filter_data f') (h mod nbits f)) \<and>
    (\<forall>c. has_bit (filter_data f) c \<longrightarrow> has_bit (filter_data f') c)"
  using assms
proof (induction hs arbitrary: f)
  case (Cons h hs)
  then have n: "nbits f \<noteq> 0" by simp
  obtain f1 where f1: "bloom_set f (h mod nbits f) = Ok f1"
    using mod_nbits_in_range [OF n, of h] by (simp add: bloom_set_def Let_def)
  note s = bloom_set_data [OF f1]
  have nb: "nbits f1 = nbits f" by (simp add: nbits_def s(2))
  with Cons.IH [of f1] n obtain f2 where "set_loop (nbits f) hs f1 = Ok f2"
    "numHashes f2 = numHashes f1" "length (filter_data f2) = length (filter_data f1)"
    "\<forall>h\<in>set hs. has_bit (filter_data f2) (h mod nbits f)"
    "\<forall>c. has_bit (filter_data f1) c \<longrightarrow> has_bit (filter_data f2) c" by auto
  then show ?case using n f1 s by auto
qed simp

lemma bloom_Test_value:
  assumes "filter_wf f"
  shows "bloom_Test sip x f =
    Ok (\<forall>j < nat (numHashes f). has_bit (filter_data f) (hash_word sip x j mod nbits f))"
proof -
  have "nbits f \<noteq> 0 \<or> map (hash_word sip x) [0..<nat (numHashes f)] = []"
    using assms by (auto simp: filter_wf_def)
  from test_loop_all [OF this] assms show ?thesis
    by (auto simp: bloom_Test_def bloom_hash_words filter_wf_def)
qed

lemma bloom_Set_value:
  assumes "filter_wf f"
  shows "\<exists>f'. bloom_Set sip x f = Ok f' \<and> numHashes f' = numHashes f \<and>
    length (filter_data f') = length (filter_data f) \<and>
    (\<forall>j < nat (numHashes f). has_bit (filter_data f') (hash_word sip x j mod nbits f)) \<and>
    (\<forall>c. has_bit (filter_data f) c \<longrightarrow> has_bit (filter_data f') c)"
proof -
  have "nbits f \<noteq> 0 \<or> map (hash_word sip x) [0..<nat (numHashes f)] = []"
    using assms by (auto simp: filter_wf_def)
  from set_loop_ok [OF this] show ?thesis
    using assms by (auto simp: bloom_Set_def bloom_hash_words filter_wf_def)
qed

section \<open>The set a filter stands for\<close>

text \<open>
  What the dialing mixer and the client rely on: inserting an element makes it a member and
  keeps every member. Removal does not exist, and a member need not have been inserted.
\<close>

locale membership_filter =
  fixes wf :: "'f \<Rightarrow> bool" and ins :: "'x \<Rightarrow> 'f \<Rightarrow> ('e, 'f) outcome"
    and mem :: "'x \<Rightarrow> 'f \<Rightarrow> ('e, bool) outcome"
  assumes ins_law: "wf f \<Longrightarrow> \<exists>f'. ins x f = Ok f' \<and> wf f' \<and> mem x f' = Ok True \<and>
      (\<forall>y. mem y f = Ok True \<longrightarrow> mem y f' = Ok True)"
begin

lemma no_false_negatives:
  "wf f \<Longrightarrow> \<exists>f'. fold_outcome ins xs f = Ok f' \<and> wf f' \<and> (\<forall>x\<in>set xs. mem x f' = Ok True) \<and>
     (\<forall>y. mem y f = Ok True \<longrightarrow> mem y f' = Ok True)"
proof (induction xs arbitrary: f)
  case (Cons x xs)
  obtain f1 where f1: "ins x f = Ok f1" "wf f1" "mem x f1 = Ok True"
    "\<forall>y. mem y f = Ok True \<longrightarrow> mem y f1 = Ok True"
    using ins_law [OF Cons.prems] by blast
  from Cons.IH [OF f1(2)] f1 show ?case by auto
qed auto

end

definition sized_wf :: "int \<Rightarrow> Filter \<Rightarrow> bool" where
  "sized_wf k f \<longleftrightarrow> filter_wf f \<and> numHashes f = k"

interpretation bf: membership_filter "sized_wf k" "bloom_Set sip" "bloom_Test sip"
proof
  fix f x assume "sized_wf k f"
  then have w: "filter_wf f" and k: "numHashes f = k" by (auto simp: sized_wf_def)
  obtain f' where f': "bloom_Set sip x f = Ok f'" "numHashes f' = numHashes f"
    "length (filter_data f') = length (filter_data f)"
    "\<forall>j < nat (numHashes f). has_bit (filter_data f') (hash_word sip x j mod nbits f)"
    "\<forall>c. has_bit (filter_data f) c \<longrightarrow> has_bit (filter_data f') c"
    using bloom_Set_value [OF w, of sip x] by blast
  have nb: "nbits f' = nbits f" using f'(3) by (simp add: nbits_def)
  have w': "filter_wf f'" using w f'(2) nb by (simp add: filter_wf_def)
  show "\<exists>f'. bloom_Set sip x f = Ok f' \<and> sized_wf k f' \<and> bloom_Test sip x f' = Ok True \<and>
      (\<forall>y. bloom_Test sip y f = Ok True \<longrightarrow> bloom_Test sip y f' = Ok True)"
    using f' nb w' k w by (auto simp: sized_wf_def bloom_Test_value)
qed

lemma bloom_New_wf:
  assumes "bloom_New sizeBits k = Ok f" and "0 < sizeBits" "sizeBits \<le> 2 ^ 32 - 8" and "0 \<le> k"
  shows "sized_wf k f"
proof -
  let ?m = "nat ((sizeBits + 7) div 8)"
  have f: "f = \<lparr>numHashes = k, filter_data = replicate ?m 0\<rparr>"
    using assms(1,2) by (auto simp: bloom_New_def Let_def signed_divide_int_def split: if_splits)
  have "0 < ?m" "?m * 8 < 2 ^ 32" using assms(2,3) by auto
  then have "nbits f \<noteq> 0"
    unfolding f nbits_def by (simp only: word_of_nat_eq_0_iff Filter.simps length_replicate)
      (auto dest: nat_dvd_not_less)
  then show ?thesis using assms(4) f by (simp add: sized_wf_def filter_wf_def)
qed

lemma bloom_roundtrip:
  "0 \<le> numHashes f \<Longrightarrow> numHashes f < 2 ^ 32 \<Longrightarrow>
     bloom_UnmarshalBinary (bloom_MarshalBinary f) = Ok f"
  by (simp add: bloom_UnmarshalBinary_def bloom_MarshalBinary_def unsigned_of_int take_bit_int_eq_self)

section \<open>Properties\<close>

text \<open>
  C18: a mailbox loses no dial token. Whatever tokens are put into a fresh filter of a size the
  mixer may choose, the filter the client decodes from the mailbox contains each of them, and
  testing it never panics.
\<close>

theorem bloom_mailbox_complete:
  assumes "bloom_New sizeBits k = Ok f" and "0 < sizeBits" "sizeBits \<le> 2 ^ 32 - 8"
    and "0 \<le> k" "k < 2 ^ 32"
  shows "\<exists>f' g. fold_outcome (bloom_Set sip) xs f = Ok f' \<and>
    bloom_UnmarshalBinary (bloom_MarshalBinary f') = Ok g \<and>
    (\<forall>x\<in>set xs. bloom_Test sip x g = Ok True) \<and> (\<forall>y. bloom_Test sip y g \<noteq> Panic)"
proof -
  obtain f' where f': "fold_outcome (bloom_Set sip) xs f = Ok f'" "sized_wf k f'"
    "\<forall>x\<in>set xs. bloom_Test sip x f' = Ok True"
    using bf.no_false_negatives [OF bloom_New_wf [OF assms(1-4)]] by blast
  then show ?thesis
    using assms(4,5) bloom_roundtrip [of f'] by (auto simp: sized_wf_def bloom_Test_value)
qed

theorem bloom_mailbox_complete_witness:
  "\<exists>f g. fold_outcome (bloom_Set (\<lambda>a b x. (a + word_of_nat (length x), 5))) [[1, 2], [3]]
       \<lparr>numHashes = 5, filter_data = [0, 0]\<rparr> = Ok f \<and>
     bloom_UnmarshalBinary (bloom_MarshalBinary f) = Ok g \<and>
     bloom_Test (\<lambda>a b x. (a + word_of_nat (length x), 5)) [3] g = Ok True"
proof -
  have "bloom_New 16 5 = Ok \<lparr>numHashes = 5, filter_data = [0, 0]\<rparr>"
    by (simp add: bloom_New_def signed_divide_int_def numeral_eq_Suc)
  from bloom_mailbox_complete [OF this, of "\<lambda>a b x. (a + word_of_nat (length x), 5)" "[[1, 2], [3]]"]
  show ?thesis by auto
qed

text \<open>
  The array loop of \<open>hash\<close> computes, for every count, the quarters of the Hash128 values
  of 0, 1, 2, and so on, in order, cut to the count; only a negative count panics.
\<close>

theorem bloom_hash_reference:
  "bloom_hash sip x nhash =
     (if nhash < 0 then Panic else Ok (map (hash_word sip x) [0..<nat nhash]))"
  by (rule bloom_hash_words)

text \<open>
  C40: what a mailbox from an untrusted server can make a test do. Any four bytes decode.
  Testing the decoded filter panics exactly when it asks for hashes and its bit count is zero
  modulo \<open>2 ^ 32\<close>; and with a hash count of zero every element is reported as present.
\<close>

theorem bloom_untrusted_mailbox:
  assumes "4 \<le> length d"
  shows "\<exists>f. bloom_UnmarshalBinary d = Ok f \<and>
    (bloom_Test sip x f = Panic \<longleftrightarrow> get_be32 d \<noteq> 0 \<and> (2 :: nat) ^ 32 dvd (length d - 4) * 8) \<and>
    (get_be32 d = 0 \<longrightarrow> bloom_Test sip x f = Ok True)"
proof -
  let ?f = "\<lparr>numHashes = int (unat (get_be32 d)), filter_data = drop 4 d\<rparr>"
  have u: "bloom_UnmarshalBinary d = Ok ?f" using assms by (simp add: bloom_UnmarshalBinary_def)
  have nz: "nbits ?f = 0 \<longleftrightarrow> (2 :: nat) ^ 32 dvd (length d - 4) * 8"
    unfolding nbits_def by (simp only: word_of_nat_eq_0_iff Filter.simps length_drop) simp
  have kz: "numHashes ?f = 0 \<longleftrightarrow> get_be32 d = 0" by (simp add: uint_0_iff)
  show ?thesis
  proof (cases "filter_wf ?f")
    case True
    from True bloom_Test_value [OF this, of sip x] show ?thesis
      using u nz kz by (auto simp: filter_wf_def)
  next
    case False
    then have n: "nbits ?f = 0" "numHashes ?f \<noteq> 0" by (auto simp: filter_wf_def)
    have "bloom_Test sip x ?f = Panic"
    proof (cases "map (hash_word sip x) [0..<nat (numHashes ?f)]")
      case Nil
      with n(2) kz show ?thesis by (simp add: unat_eq_zero)
    next
      case (Cons h hs)
      with n(1) show ?thesis by (simp add: bloom_Test_def bloom_hash_words)
    qed
    then show ?thesis using u nz kz n by auto
  qed
qed

theorem bloom_untrusted_mailbox_witness:
  "bloom_UnmarshalBinary [0, 0, 0, 3] = Ok \<lparr>numHashes = 3, filter_data = []\<rparr> \<and>
   bloom_Test (\<lambda>_ _ _. (0, 0)) [1] \<lparr>numHashes = 3, filter_data = []\<rparr> = Panic"
proof -
  have "get_be32 [0, 0, 0, 3] = 3" by (simp add: get_be32_def word32_of_def)
  moreover from this have "bloom_UnmarshalBinary [0, 0, 0, 3] = Ok \<lparr>numHashes = 3, filter_data = []\<rparr>"
    by (simp add: bloom_UnmarshalBinary_def)
  ultimately show ?thesis
    using bloom_untrusted_mailbox [of "[0, 0, 0, 3]" "\<lambda>_ _ _. (0, 0)" "[1]"] by auto
qed

end
