(* ===== verification/TomlLexer.thy ===== *)
theory TomlLexer
  imports Prelude
begin

text \<open>
  The lexer of the TOML decoder (src/encoding/toml/lexer.go). A state function is a value of
  \<open>stateFn\<close>, the channel of items is the list of what was sent, a rune is a number, and an
  error item carries what the message is formatted from. A slice out of range sets
  \<open>panicked\<close>. The parser is TomlParser.
\<close>

section \<open>Runes\<close>

definition RuneError :: nat where "RuneError = 65533"

definition cont :: "char \<Rightarrow> nat \<Rightarrow> nat \<Rightarrow> bool" where
  "cont c lo hi = (lo \<le> (of_char c :: nat) \<and> of_char c \<le> hi)"

definition low6 :: "char \<Rightarrow> nat" where "low6 c = of_char c mod 64"

text \<open>\<open>utf8.DecodeRuneInString\<close>: rune and width, an invalid byte is RuneError of width 1.\<close>

fun decode_rune :: "string \<Rightarrow> nat \<times> nat" where
  "decode_rune [] = (RuneError, 0)"
| "decode_rune (c # s) =
     (let s0 = of_char c :: nat in
      if s0 < 128 then (s0, 1)
      else if s0 < 194 \<or> 244 < s0 then (RuneError, 1)
      else (case s of
        [] \<Rightarrow> (RuneError, 1)
      | d # s' \<Rightarrow>
          if s0 < 224 then
            (if cont d 128 191 then (s0 mod 32 * 64 + low6 d, 2) else (RuneError, 1))
          else if \<not> cont d (if s0 = 224 then 160 else if s0 = 240 then 144 else 128)
                          (if s0 = 237 then 159 else if s0 = 244 then 143 else 191)
          then (RuneError, 1)
          else (case s' of
            [] \<Rightarrow> (RuneError, 1)
          | e # s'' \<Rightarrow>
              if \<not> cont e 128 191 then (RuneError, 1)
              else if s0 < 240 then (s0 mod 16 * 4096 + low6 d * 64 + low6 e, 3)
              else (case s'' of
                [] \<Rightarrow> (RuneError, 1)
              | f # _ \<Rightarrow>
                  if cont f 128 191
                  then (s0 mod 8 * 262144 + low6 d * 4096 + low6 e * 64 + low6 f, 4)
                  else (RuneError, 1)))))"

lemma decode_rune_width:
  "s \<noteq> [] \<Longrightarrow> decode_rune s = (r, w) \<Longrightarrow> 0 < w \<and> w \<le> length s"
  by (cases s) (auto simp: Let_def split: if_splits list.splits)

section \<open>The lexer\<close>

datatype itemType =
    itemEOF | itemBool | itemKey | itemLeftBracket | itemRightBracket
  | itemLeftDoubleBracket | itemRightDoubleBracket | itemEqual | itemComma | itemNumber | itemString

datatype lex_error =
    UnexpectedEOF | TableNameChar nat | ExpectingBracket nat | KeyStartChar nat
  | EOFExpectedEqual | ExpectedEqual nat | ValueChar nat | UnterminatedString | BadNumber string

datatype item = Item itemType nat string | ErrItem nat lex_error

record lexer =
  input :: string
  pos :: nat
  start :: nat
  width :: nat
  items :: "item list"
  arrayDepth :: int
  expectDoubleBracket :: bool
  panicked :: bool

datatype stateFn =
    LexTableBody | LexComment | LexTableNameStart | LexTableNameEnd
  | LexKeyStart | LexKeyEnd | LexValue | LexQuote | LexNumber

definition lex_next :: "lexer \<Rightarrow> nat \<times> lexer" where
  "lex_next l =
     (if length (input l) \<le> pos l then (0, l\<lparr>width := 0\<rparr>)
      else (let (r, w) = decode_rune (drop (pos l) (input l))
            in (r, l\<lparr>width := w, pos := pos l + w\<rparr>)))"

definition backup :: "lexer \<Rightarrow> lexer" where
  "backup l = l\<lparr>pos := pos l - width l\<rparr>"

definition peek :: "lexer \<Rightarrow> nat \<times> lexer" where
  "peek l = (let (r, l1) = lex_next l in (r, backup l1))"

definition emit :: "itemType \<Rightarrow> lexer \<Rightarrow> lexer" where
  "emit t l =
     (if start l \<le> pos l \<and> pos l \<le> length (input l)
      then l\<lparr>items := items l @ [Item t (start l) (take (pos l - start l) (drop (start l) (input l)))],
             start := pos l\<rparr>
      else l\<lparr>panicked := True\<rparr>)"

definition ignore :: "lexer \<Rightarrow> lexer" where
  "ignore l = l\<lparr>start := pos l\<rparr>"

definition in_set :: "string \<Rightarrow> nat \<Rightarrow> bool" where
  "in_set valid r = (r \<in> set (map of_char valid))"

definition accept :: "string \<Rightarrow> lexer \<Rightarrow> bool \<times> lexer" where
  "accept valid l =
     (let (r, l1) = lex_next l in if in_set valid r then (True, l1) else (False, backup l1))"

definition errorf :: "lex_error \<Rightarrow> lexer \<Rightarrow> stateFn option \<times> lexer" where
  "errorf e l = (None, l\<lparr>items := items l @ [ErrItem (start l) e]\<rparr>)"

text \<open>What is left of the input, which every loop and the state machine consume.\<close>

definition remaining :: "lexer \<Rightarrow> nat" where
  "remaining l = length (input l) - pos l"

lemma lex_next_facts:
  assumes "lex_next l = (r, l1)"
  shows "input l1 = input l" "start l1 = start l" "items l1 = items l" "panicked l1 = panicked l"
    "pos l \<le> pos l1" "pos l1 - width l1 = pos l" "r \<noteq> 0 \<Longrightarrow> remaining l1 < remaining l"
    "r \<noteq> 0 \<Longrightarrow> pos l < pos l1" "remaining l1 \<le> remaining l"
    "pos l \<le> length (input l) \<Longrightarrow> pos l1 \<le> length (input l)"
    "pos l < length (input l) \<Longrightarrow> pos l < pos l1"
    "arrayDepth l1 = arrayDepth l"
  using assms decode_rune_width [of "drop (pos l) (input l)" r "width l1"]
  by (auto simp: lex_next_def remaining_def split: if_splits prod.splits)

lemma backup_next:
  "lex_next l = (r, l1) \<Longrightarrow> backup l1 = l\<lparr>width := width l1\<rparr>"
  by (auto simp: lex_next_def backup_def split: if_splits prod.splits)

lemma remaining_simps [simp]:
  "remaining (l\<lparr>width := w\<rparr>) = remaining l" "remaining (l\<lparr>start := s\<rparr>) = remaining l"
  "remaining (l\<lparr>items := i\<rparr>) = remaining l" "remaining (l\<lparr>panicked := b\<rparr>) = remaining l"
  "remaining (l\<lparr>arrayDepth := d\<rparr>) = remaining l" "remaining (l\<lparr>expectDoubleBracket := b\<rparr>) = remaining l"
  "remaining (ignore l) = remaining l" "remaining (emit t l) = remaining l"
  by (simp_all add: remaining_def ignore_def emit_def)

text \<open>\<open>acceptRun\<close> goes on while the rune is in the set; the rune 0 of the end is in none.\<close>

function acceptRun :: "string \<Rightarrow> lexer \<Rightarrow> lexer" where
  "acceptRun valid l =
     (let (r, l1) = lex_next l in
      if in_set valid r \<and> r \<noteq> 0 then acceptRun valid l1 else backup l1)"
  by pat_completeness auto
termination
  by (relation "measure (\<lambda>(_, l). remaining l)") (auto dest: lex_next_facts(7) [OF sym])

declare acceptRun.simps [simp del]

function skipWhitespace :: "bool \<Rightarrow> lexer \<Rightarrow> lexer" where
  "skipWhitespace skipNewlines l =
     (let (r, l1) = lex_next l in
      if r = of_char CHR '' '' \<or> r = of_char CHR 0x09 \<or> (skipNewlines \<and> r = of_char CHR 0x0A)
      then skipWhitespace skipNewlines (ignore l1) else backup l1)"
  by pat_completeness auto
termination
  by (relation "measure (\<lambda>(_, l). remaining l)") (auto dest: lex_next_facts(7) [OF sym])

declare skipWhitespace.simps [simp del]

definition isDigit :: "nat \<Rightarrow> bool" where
  "isDigit r = (of_char CHR ''0'' \<le> r \<and> r \<le> of_char CHR ''9'')"

definition isAlphaNumeric :: "nat \<Rightarrow> bool" where
  "isAlphaNumeric r =
     ((of_char CHR ''a'' \<le> r \<and> r \<le> of_char CHR ''z'') \<or>
      (of_char CHR ''A'' \<le> r \<and> r \<le> of_char CHR ''Z'') \<or>
      (of_char CHR ''0'' \<le> r \<and> r \<le> of_char CHR ''9'') \<or>
      r = of_char CHR ''-'' \<or> r = of_char CHR ''_'')"

lemma alnum_nonzero: "isAlphaNumeric r \<Longrightarrow> r \<noteq> 0" "isDigit r \<Longrightarrow> r \<noteq> 0"
  by (auto simp: isAlphaNumeric_def isDigit_def)

function bareKey_loop :: "lexer \<Rightarrow> lexer" where
  "bareKey_loop l =
     (let (r, l1) = lex_next l in if \<not> isAlphaNumeric r then backup l1 else bareKey_loop l1)"
  by pat_completeness auto
termination
  by (relation "measure remaining") (auto dest: lex_next_facts(7) [OF sym] alnum_nonzero)

declare bareKey_loop.simps [simp del]

definition lexBareKey :: "lexer \<Rightarrow> lexer" where
  "lexBareKey l = emit itemKey (bareKey_loop l)"

section \<open>State functions\<close>

definition lexTableBody :: "lexer \<Rightarrow> stateFn option \<times> lexer" where
  "lexTableBody l0 =
     (let l = skipWhitespace True l0; (r, l1) = lex_next l in
      if r = of_char CHR ''#'' then (Some LexComment, l1)
      else if r = of_char CHR ''['' then
        (let (r2, l2) = peek l1 in
         if r2 = of_char CHR ''[''
         then (Some LexTableNameStart,
               (emit itemLeftDoubleBracket (snd (lex_next l2)))\<lparr>expectDoubleBracket := True\<rparr>)
         else (Some LexTableNameStart, (emit itemLeftBracket l2)\<lparr>expectDoubleBracket := False\<rparr>))
      else if r = 0 then
        (if start l1 < pos l1 then errorf UnexpectedEOF l1 else (None, emit itemEOF l1))
      else (Some LexKeyStart, backup l1))"

function comment_loop :: "lexer \<Rightarrow> lexer" where
  "comment_loop l =
     (let (r, l1) = lex_next l; l2 = ignore l1 in
      if r = of_char CHR 0x0A \<or> r = 0 then l2 else comment_loop l2)"
  by pat_completeness auto
termination
  by (relation "measure remaining") (auto dest: lex_next_facts(7) [OF sym])

declare comment_loop.simps [simp del]

definition lexComment :: "lexer \<Rightarrow> stateFn option \<times> lexer" where
  "lexComment l = lexTableBody (comment_loop l)"

definition lexTableNameStart :: "lexer \<Rightarrow> stateFn option \<times> lexer" where
  "lexTableNameStart l0 =
     (let l = skipWhitespace False l0; (r, l1) = peek l in
      if isAlphaNumeric r then (Some LexTableNameEnd, lexBareKey l1) else errorf (TableNameChar r) l1)"

definition lexTableNameEnd :: "lexer \<Rightarrow> stateFn option \<times> lexer" where
  "lexTableNameEnd l0 =
     (let l = skipWhitespace False l0; (r, l1) = lex_next l in
      if r = of_char CHR ''.'' then (Some LexTableNameStart, ignore l1)
      else if r = of_char CHR '']'' then
        (if expectDoubleBracket l1
         then (let (rr, l2) = lex_next l1 in
               if rr = of_char CHR '']'' then (Some LexTableBody, emit itemRightDoubleBracket l2)
               else errorf (ExpectingBracket rr) l2)
         else (Some LexTableBody, emit itemRightBracket l1))
      else errorf (TableNameChar r) l1)"

definition lexKeyStart :: "lexer \<Rightarrow> stateFn option \<times> lexer" where
  "lexKeyStart l =
     (let (r, l1) = peek l in
      if isAlphaNumeric r then (Some LexKeyEnd, lexBareKey l1) else errorf (KeyStartChar r) l1)"

definition lexKeyEnd :: "lexer \<Rightarrow> stateFn option \<times> lexer" where
  "lexKeyEnd l0 =
     (let l = skipWhitespace False l0; (r, l1) = lex_next l in
      if r = of_char CHR ''='' then (Some LexValue, emit itemEqual l1)
      else if r = 0 then errorf EOFExpectedEqual l1 else errorf (ExpectedEqual r) l1)"

definition tryString :: "string \<Rightarrow> lexer \<Rightarrow> bool \<times> lexer" where
  "tryString s l =
     (if length (input l) < pos l then (False, l\<lparr>panicked := True\<rparr>)
      else if take (length s) (drop (pos l) (input l)) = s
      then (True, l\<lparr>pos := pos l + length s, width := length s\<rparr>) else (False, l))"

text \<open>One turn of the loop of \<open>lexValue\<close>: go on with a lexer, or leave with a state.\<close>

definition lexValue_turn :: "lexer \<Rightarrow> lexer + stateFn option \<times> lexer" where
  "lexValue_turn l =
     (let (r, l1) = lex_next l in
      if r = of_char CHR '' '' \<or> r = of_char CHR 0x09 then Inl (ignore l1)
      else if r = of_char CHR ''['' then Inl (emit itemLeftBracket (l1\<lparr>arrayDepth := arrayDepth l1 + 1\<rparr>))
      else if r = of_char CHR '']'' then Inl (emit itemRightBracket (l1\<lparr>arrayDepth := arrayDepth l1 - 1\<rparr>))
      else if r = of_char CHR '','' then Inl (emit itemComma l1)
      else if r = of_char CHR ''='' then Inl (emit itemEqual l1)
      else if r = of_char CHR 0x22 then Inr (Some LexQuote, l1)
      else if r = of_char CHR ''#'' then Inr (Some LexComment, l1)
      else if r = of_char CHR 0x0A then Inr (Some LexTableBody, ignore l1)
      else if r = 0 then Inr (None, emit itemEOF l1)
      else
        (let l2 = backup l1 in
         if r = of_char CHR ''+'' \<or> r = of_char CHR ''-'' \<or> isDigit r then Inr (Some LexNumber, l2)
         else
           (let (t, l3) = tryString ''true'' l2 in
            if t then Inl (emit itemBool l3)
            else
              (let (f, l4) = tryString ''false'' l3 in
               if f then Inl (emit itemBool l4)
               else if isAlphaNumeric r then Inr (Some LexKeyStart, l4)
               else Inr (errorf (ValueChar r) l4)))))"

lemma tryString_remaining:
  "tryString s l = (b, l1) \<Longrightarrow> remaining l1 \<le> remaining l \<and> (b \<and> s \<noteq> [] \<longrightarrow> remaining l1 < remaining l)"
  by (auto simp: tryString_def remaining_def split: if_splits)
    (metis diff_less_mono2 drop_eq_Nil le_less_linear length_greater_0_conv less_add_same_cancel1 take_Nil)

lemma lexValue_turn_remaining:
  "lexValue_turn l = Inl l1 \<Longrightarrow> remaining l1 < remaining l"
  using lex_next_facts(7) [of l] backup_next [of l]
  by (auto simp: lexValue_turn_def Let_def errorf_def split: if_splits prod.splits
      dest!: tryString_remaining)

function lexValue :: "lexer \<Rightarrow> stateFn option \<times> lexer" where
  "lexValue l = (case lexValue_turn l of Inl l1 \<Rightarrow> lexValue l1 | Inr out \<Rightarrow> out)"
  by pat_completeness auto
termination
  by (relation "measure remaining") (auto dest: lexValue_turn_remaining)

declare lexValue.simps [simp del]

lemma next_decreases: "(r, l1) = lex_next l \<Longrightarrow> r \<noteq> 0 \<longrightarrow> remaining l1 < remaining l"
  using lex_next_facts(7) [of l r l1] by auto

function quote_loop :: "lexer \<Rightarrow> bool \<times> lexer" where
  "quote_loop l =
     (let (r, l1) = lex_next l in
      if r = of_char CHR 0x5C then
        (let (r2, l2) = lex_next l1 in
         if r2 \<noteq> 0 \<and> r2 \<noteq> of_char CHR 0x0A then quote_loop l2 else (False, l2))
      else if r = 0 \<or> r = of_char CHR 0x0A then (False, l1)
      else if r = of_char CHR 0x22 then (True, l1)
      else quote_loop l1)"
  by pat_completeness auto
termination
  by (relation "measure remaining")
    (auto dest!: next_decreases)

declare quote_loop.simps [simp del]

definition lexQuote :: "lexer \<Rightarrow> stateFn option \<times> lexer" where
  "lexQuote l =
     (let (closed, l1) = quote_loop l in
      if closed then (Some LexValue, emit itemString l1) else errorf UnterminatedString l1)"

definition scanNumber :: "lexer \<Rightarrow> bool \<times> lexer" where
  "scanNumber l0 =
     (let l1 = snd (accept ''+-'' l0);
          l2 = acceptRun ''0123456789'' l1;
          (dot, l3) = accept ''.'' l2;
          l4 = (if dot then acceptRun ''0123456789'' l3 else l3);
          (e, l5) = accept ''eE'' l4;
          l6 = (if e then acceptRun ''0123456789'' (snd (accept ''+-'' l5)) else l5);
          (r, l7) = peek l6
      in if isAlphaNumeric r then (False, snd (lex_next l7)) else (True, l7))"

definition lexNumber :: "lexer \<Rightarrow> stateFn option \<times> lexer" where
  "lexNumber l =
     (let (ok, l1) = scanNumber l in
      if \<not> ok then errorf (BadNumber (take (pos l1 - start l1) (drop (start l1) (input l1)))) l1
      else (Some LexValue, emit itemNumber l1))"

fun lex_step :: "stateFn \<Rightarrow> lexer \<Rightarrow> stateFn option \<times> lexer" where
  "lex_step LexTableBody = lexTableBody"
| "lex_step LexComment = lexComment"
| "lex_step LexTableNameStart = lexTableNameStart"
| "lex_step LexTableNameEnd = lexTableNameEnd"
| "lex_step LexKeyStart = lexKeyStart"
| "lex_step LexKeyEnd = lexKeyEnd"
| "lex_step LexValue = lexValue"
| "lex_step LexQuote = lexQuote"
| "lex_step LexNumber = lexNumber"

section \<open>Moves of the lexer\<close>

text \<open>
  The items sent so far are slices of the input, in order and without overlap, up to the start
  of the item being read.
\<close>

fun sliced :: "string \<Rightarrow> nat \<Rightarrow> item list \<Rightarrow> nat \<Rightarrow> bool" where
  "sliced s a [] e = (a \<le> e)"
| "sliced s a (Item t p v # r) e =
     (a \<le> p \<and> p + length v \<le> length s \<and> v = take (length v) (drop p s) \<and> sliced s (p + length v) r e)"
| "sliced s a (ErrItem p er # r) e = (a \<le> p \<and> r = [] \<and> p \<le> e)"

fun final_item :: "item \<Rightarrow> bool" where
  "final_item (Item t _ _) = (t = itemEOF)"
| "final_item (ErrItem _ _) = True"

definition lx_inv :: "lexer \<Rightarrow> bool" where
  "lx_inv l \<longleftrightarrow> \<not> panicked l \<and> start l \<le> pos l \<and> pos l \<le> length (input l) \<and>
     sliced (input l) 0 (items l) (start l) \<and> (\<forall>i\<in>set (items l). \<not> final_item i)"

definition moves :: "lexer \<Rightarrow> lexer \<Rightarrow> bool" where
  "moves l l' \<longleftrightarrow> input l' = input l \<and> remaining l' \<le> remaining l \<and> (lx_inv l \<longrightarrow> lx_inv l')"

definition finished :: "lexer \<Rightarrow> lexer \<Rightarrow> bool" where
  "finished l l' \<longleftrightarrow> input l' = input l \<and> (lx_inv l \<longrightarrow> \<not> panicked l' \<and>
     (\<exists>is i. items l' = is @ [i] \<and> final_item i \<and> (\<forall>j\<in>set is. \<not> final_item j) \<and>
        sliced (input l') 0 (items l') (length (input l'))))"

lemma moves_refl [simp]: "moves l l" by (simp add: moves_def)

lemma moves_trans: "moves a b \<Longrightarrow> moves b c \<Longrightarrow> moves a c"
  by (simp add: moves_def)

lemma finished_moves: "moves a b \<Longrightarrow> finished b c \<Longrightarrow> finished a c"
  by (auto simp: moves_def finished_def)

lemma sliced_grow: "sliced s a is e \<Longrightarrow> e \<le> e' \<Longrightarrow> sliced s a is e'"
  by (induction s a "is" e rule: sliced.induct) auto

lemma sliced_append_item:
  "sliced s a is p \<Longrightarrow> \<forall>i\<in>set is. \<not> final_item i \<Longrightarrow> p \<le> q \<Longrightarrow> q \<le> length s \<Longrightarrow>
     sliced s a (is @ [Item t p (take (q - p) (drop p s))]) q"
  by (induction s a "is" p rule: sliced.induct) (auto simp: min_def)

lemma sliced_append_error:
  "sliced s a is p \<Longrightarrow> \<forall>i\<in>set is. \<not> final_item i \<Longrightarrow> sliced s a (is @ [ErrItem p er]) p"
  by (induction s a "is" p rule: sliced.induct) auto

lemma next_moves: "lex_next l = (r, l1) \<Longrightarrow> moves l l1"
  using lex_next_facts [of l r l1] by (auto simp: moves_def lx_inv_def)

lemma width_moves: "moves l (l\<lparr>width := w\<rparr>)"
  by (simp add: moves_def lx_inv_def)

lemma backup_moves: "lex_next l = (r, l1) \<Longrightarrow> moves l (backup l1)"
  by (simp add: backup_next width_moves)

lemma ignore_moves: "moves l (ignore l)"
  by (auto simp: moves_def lx_inv_def ignore_def intro: sliced_grow)

lemma emit_moves: "t \<noteq> itemEOF \<Longrightarrow> moves l (emit t l)"
  by (auto simp: moves_def lx_inv_def emit_def sliced_append_item remaining_def)

lemma depth_moves: "moves l (l\<lparr>arrayDepth := d\<rparr>)" "moves l (l\<lparr>expectDoubleBracket := b\<rparr>)"
  by (simp_all add: moves_def lx_inv_def)

lemma emit_eof_finished: "finished l (emit itemEOF l)"
  by (auto simp: finished_def lx_inv_def emit_def intro: sliced_grow [OF sliced_append_item])

lemma errorf_finished: "errorf e l = (None, l') \<Longrightarrow> finished l l'"
  by (auto simp: finished_def lx_inv_def errorf_def intro!: sliced_grow [OF sliced_append_error])

lemma skipWhitespace_moves: "moves l (skipWhitespace b l)"
proof (induction "remaining l" arbitrary: l rule: less_induct)
  case less
  obtain r l1 where n: "lex_next l = (r, l1)" by (metis surj_pair)
  show ?case
  proof (cases "r = of_char CHR '' '' \<or> r = of_char CHR 0x09 \<or> (b \<and> r = of_char CHR 0x0A)")
    case True
    then have eq: "skipWhitespace b l = skipWhitespace b (ignore l1)" by (subst skipWhitespace.simps) (simp add: n)
    have "remaining (ignore l1) < remaining l" using True lex_next_facts(7) [OF n] by auto
    from moves_trans [OF moves_trans [OF next_moves [OF n] ignore_moves] less [OF this]] show ?thesis by (simp only: eq)
  next
    case False
    then have "skipWhitespace b l = backup l1" by (subst skipWhitespace.simps) (auto simp: n)
    then show ?thesis using backup_moves [OF n] by simp
  qed
qed

lemma acceptRun_moves: "moves l (acceptRun v l)"
proof (induction "remaining l" arbitrary: l rule: less_induct)
  case less
  obtain r l1 where n: "lex_next l = (r, l1)" by (metis surj_pair)
  show ?case
  proof (cases "in_set v r \<and> r \<noteq> 0")
    case True
    then have eq: "acceptRun v l = acceptRun v l1" by (subst acceptRun.simps) (simp add: n)
    have "remaining l1 < remaining l" using True lex_next_facts(7) [OF n] by auto
    from moves_trans [OF next_moves [OF n] less [OF this]] show ?thesis by (simp only: eq)
  next
    case False
    then have "acceptRun v l = backup l1" by (subst acceptRun.simps) (auto simp: n)
    then show ?thesis using backup_moves [OF n] by simp
  qed
qed

lemma bareKey_moves: "moves l (bareKey_loop l)"
proof (induction "remaining l" arbitrary: l rule: less_induct)
  case less
  obtain r l1 where n: "lex_next l = (r, l1)" by (metis surj_pair)
  show ?case
  proof (cases "isAlphaNumeric r")
    case True
    then have eq: "bareKey_loop l = bareKey_loop l1" by (subst bareKey_loop.simps) (simp add: n)
    have "remaining l1 < remaining l" using True lex_next_facts(7) [OF n] by (simp add: alnum_nonzero)
    from moves_trans [OF next_moves [OF n] less [OF this]] show ?thesis by (simp only: eq)
  next
    case False
    then have "bareKey_loop l = backup l1" by (subst bareKey_loop.simps) (auto simp: n)
    then show ?thesis using backup_moves [OF n] by simp
  qed
qed

lemma comment_moves: "moves l (comment_loop l)"
proof (induction "remaining l" arbitrary: l rule: less_induct)
  case less
  obtain r l1 where n: "lex_next l = (r, l1)" by (metis surj_pair)
  show ?case
  proof (cases "\<not> (r = of_char CHR 0x0A \<or> r = 0)")
    case True
    then have eq: "comment_loop l = comment_loop (ignore l1)" by (subst comment_loop.simps) (simp add: n)
    have "remaining (ignore l1) < remaining l" using True lex_next_facts(7) [OF n] by simp
    from moves_trans [OF moves_trans [OF next_moves [OF n] ignore_moves] less [OF this]] show ?thesis by (simp only: eq)
  next
    case False
    then have "comment_loop l = ignore l1" by (subst comment_loop.simps) (auto simp: n)
    then show ?thesis using moves_trans [OF next_moves [OF n] ignore_moves] by simp
  qed
qed

lemma quote_moves:
  "quote_loop l = (b, l1) \<Longrightarrow> moves l l1 \<and> (b \<longrightarrow> remaining l1 < remaining l)"
proof (induction "remaining l" arbitrary: l rule: less_induct)
  case less
  obtain r l2 where n: "lex_next l = (r, l2)" by (metis surj_pair)
  obtain r3 l3 where n3: "lex_next l2 = (r3, l3)" by (metis surj_pair)
  note m = next_moves [OF n] moves_trans [OF next_moves [OF n] next_moves [OF n3]]
  note d = lex_next_facts(7,9) [OF n] lex_next_facts(7,9) [OF n3]
  have q: "quote_loop l =
      (if r = of_char CHR 0x5C
       then (if r3 \<noteq> 0 \<and> r3 \<noteq> of_char CHR 0x0A then quote_loop l3 else (False, l3))
       else if r = 0 \<or> r = of_char CHR 0x0A then (False, l2)
       else if r = of_char CHR 0x22 then (True, l2) else quote_loop l2)"
    by (subst quote_loop.simps) (simp add: n n3)
  consider (esc) "r = of_char CHR 0x5C" "r3 \<noteq> 0 \<and> r3 \<noteq> of_char CHR 0x0A"
    | (bad) "quote_loop l = (False, l3)" | (eol) "quote_loop l = (False, l2)"
    | (stop) "r \<noteq> 0" "quote_loop l = (True, l2)" | (skip) "r \<noteq> 0" "quote_loop l = quote_loop l2"
    using q by (auto split: if_splits)
  then show ?case
  proof cases
    case esc
    then have "quote_loop l = quote_loop l3" by (simp add: q)
    moreover have "remaining l3 < remaining l" using esc d by auto
    ultimately show ?thesis using less m by (metis less_trans moves_trans)
  next
    case skip
    then show ?thesis using less d m by (metis less_trans moves_trans)
  qed (use less.prems m d in auto)
qed

lemma accept_moves: "moves l (snd (accept v l))"
  by (auto simp: accept_def Let_def split: prod.split intro: next_moves backup_moves)

lemma peek_moves: "moves l (snd (peek l))"
  by (auto simp: peek_def split: prod.split intro: backup_moves)

lemma moves_remaining: "moves l l' \<Longrightarrow> remaining l' \<le> remaining l"
  by (simp add: moves_def)

lemma next_width [simp]:
  "fst (lex_next (l\<lparr>width := w\<rparr>)) = fst (lex_next l)"
  by (simp add: lex_next_def case_prod_beta)

lemma peek_eq: "peek l = (fst (lex_next l), l\<lparr>width := width (snd (lex_next l))\<rparr>)"
  using backup_next [of l "fst (lex_next l)" "snd (lex_next l)"] by (simp add: peek_def case_prod_beta)

lemma bareKey_progress:
  assumes "isAlphaNumeric (fst (lex_next l))"
  shows "remaining (lexBareKey l) < remaining l"
proof -
  obtain r l1 where n: "lex_next l = (r, l1)" by (metis surj_pair)
  then have "bareKey_loop l = bareKey_loop l1" using assms by (subst bareKey_loop.simps) simp
  moreover have "remaining (bareKey_loop l1) \<le> remaining l1"
    by (rule moves_remaining [OF bareKey_moves])
  ultimately show ?thesis
    using lex_next_facts(7) [OF n] alnum_nonzero(1) [of r] assms n by (simp add: lexBareKey_def)
qed

lemma lexBareKey_moves: "moves l (lexBareKey l)"
  unfolding lexBareKey_def by (rule moves_trans [OF bareKey_moves emit_moves]) simp

section \<open>Every step moves on\<close>

definition number_rune :: "nat \<Rightarrow> bool" where
  "number_rune r \<longleftrightarrow> r = of_char CHR ''+'' \<or> r = of_char CHR ''-'' \<or> isDigit r"

definition rank :: "stateFn \<Rightarrow> lexer \<Rightarrow> nat" where
  "rank st l = (case st of LexComment \<Rightarrow> 3 | LexTableBody \<Rightarrow> 2 | LexValue \<Rightarrow> 2
     | LexNumber \<Rightarrow> if number_rune (fst (lex_next l)) then 0 else 3 | _ \<Rightarrow> 0)"

text \<open>What one state function leaves behind, compared with where it began.\<close>

definition good_step :: "stateFn \<Rightarrow> lexer \<Rightarrow> stateFn option \<times> lexer \<Rightarrow> bool" where
  "good_step st l out \<longleftrightarrow>
     (case out of
        (Some st', l') \<Rightarrow> moves l l' \<and> (remaining l' < remaining l \<or> rank st' l' < rank st l)
      | (None, l') \<Rightarrow> finished l l')"

lemma good_step_moves:
  assumes "good_step st b out" and "moves a b" and "rank st b \<le> rank st' a"
  shows "good_step st' a out"
  using assms
  by (auto simp: good_step_def split: option.splits intro: moves_trans finished_moves
      dest: moves_remaining)

lemma errorf_good: "good_step st l (errorf e l)"
  using errorf_finished [of e l] by (simp add: good_step_def errorf_def)

lemma skip_good:
  "good_step st (skipWhitespace b l) out \<Longrightarrow> rank st (skipWhitespace b l) \<le> rank st l \<Longrightarrow>
     good_step st l out"
  by (rule good_step_moves [OF _ skipWhitespace_moves])

text \<open>A step that consumes a rune and then only moves.\<close>

lemma good_consume:
  assumes "lex_next l = (r, l1)" and "r \<noteq> 0" and "moves l1 l2"
  shows "good_step st l (Some st', l2)"
  using assms lex_next_facts(7) [OF assms(1,2)]
  by (auto simp: good_step_def intro: moves_trans next_moves dest: moves_remaining)

lemma good_key:
  assumes "isAlphaNumeric (fst (lex_next l))"
  shows "good_step st l (Some st', lexBareKey (snd (peek l)))"
proof -
  have "remaining (lexBareKey (snd (peek l))) < remaining l"
    using bareKey_progress [of "snd (peek l)"] assms by (simp add: peek_eq)
  then show ?thesis
    using moves_trans [OF peek_moves lexBareKey_moves] by (simp add: good_step_def)
qed

lemma finished_good: "finished l l' \<Longrightarrow> good_step st l (None, l')"
  by (simp add: good_step_def)

lemma good_error: "moves l l1 \<Longrightarrow> good_step st l (errorf e l1)"
  using finished_moves [OF _ errorf_finished [of e l1]] by (simp add: good_step_def errorf_def)

lemma lexTableBody_good: "good_step LexTableBody l (lexTableBody l)"
proof -
  let ?s = "skipWhitespace True l"
  obtain r l1 where n: "lex_next ?s = (r, l1)" by (metis surj_pair)
  obtain r2 l2 where p: "peek l1 = (r2, l2)" by (metis surj_pair)
  obtain r3 l3 where n3: "lex_next l2 = (r3, l3)" by (metis surj_pair)
  have pm: "moves l1 l2" using peek_moves [of l1] by (simp add: p)
  have array: "moves l1 ((emit itemLeftDoubleBracket l3)\<lparr>expectDoubleBracket := True\<rparr>)"
    by (rule moves_trans [OF pm], rule moves_trans [OF next_moves [OF n3]],
        rule moves_trans [OF emit_moves depth_moves(2)]) simp
  have table: "moves l1 ((emit itemLeftBracket l2)\<lparr>expectDoubleBracket := False\<rparr>)"
    by (rule moves_trans [OF pm], rule moves_trans [OF emit_moves depth_moves(2)]) simp
  have key: "good_step LexTableBody ?s (Some LexKeyStart, backup l1)"
    using backup_moves [OF n] by (simp add: good_step_def rank_def)
  have eof: "good_step LexTableBody ?s (None, emit itemEOF l1)"
    by (rule finished_good, rule finished_moves [OF next_moves [OF n] emit_eof_finished])
  have "good_step LexTableBody ?s (lexTableBody l)"
    unfolding lexTableBody_def Let_def n p n3 prod.case snd_conv
    using good_consume [OF n _ moves_refl] good_consume [OF n _ array] good_consume [OF n _ table]
      key eof good_error [OF next_moves [OF n]]
    by simp
  then show ?thesis by (rule skip_good) (simp add: rank_def)
qed

lemma lexComment_good: "good_step LexComment l (lexComment l)"
  unfolding lexComment_def
  by (rule good_step_moves [OF lexTableBody_good comment_moves]) (simp add: rank_def)

lemma lexTableNameStart_good: "good_step LexTableNameStart l (lexTableNameStart l)"
proof -
  let ?s = "skipWhitespace False l"
  have "good_step LexTableNameStart ?s (lexTableNameStart l)"
    using good_key [of ?s] by (auto simp: lexTableNameStart_def Let_def case_prod_beta peek_eq
        intro: good_error width_moves)
  then show ?thesis by (rule skip_good) (simp add: rank_def)
qed

lemma lexTableNameEnd_good: "good_step LexTableNameEnd l (lexTableNameEnd l)"
proof -
  let ?s = "skipWhitespace False l"
  obtain r l1 where n: "lex_next ?s = (r, l1)" by (metis surj_pair)
  obtain rr l2 where n2: "lex_next l1 = (rr, l2)" by (metis surj_pair)
  have double: "moves l1 (emit itemRightDoubleBracket l2)"
    by (rule moves_trans [OF next_moves [OF n2] emit_moves]) simp
  have "good_step LexTableNameEnd ?s (lexTableNameEnd l)"
    unfolding lexTableNameEnd_def Let_def n n2 prod.case
    using good_consume [OF n _ double] good_consume [OF n _ ignore_moves]
      good_consume [OF n _ emit_moves] good_error [OF next_moves [OF n]]
      good_error [OF moves_trans [OF next_moves [OF n] next_moves [OF n2]]]
    by simp
  then show ?thesis by (rule skip_good) (simp add: rank_def)
qed

lemma lexKeyStart_good: "good_step LexKeyStart l (lexKeyStart l)"
  using good_key [of l]
  by (auto simp: lexKeyStart_def case_prod_beta peek_eq intro: good_error width_moves)

lemma lexKeyEnd_good: "good_step LexKeyEnd l (lexKeyEnd l)"
proof -
  let ?s = "skipWhitespace False l"
  obtain r l1 where n: "lex_next ?s = (r, l1)" by (metis surj_pair)
  have "good_step LexKeyEnd ?s (lexKeyEnd l)"
    unfolding lexKeyEnd_def Let_def n prod.case
    by (auto intro!: good_consume [OF n] good_error emit_moves next_moves [OF n])
  then show ?thesis by (rule skip_good) (simp add: rank_def)
qed

lemma lexQuote_good: "good_step LexQuote l (lexQuote l)"
proof -
  obtain b l1 where q: "quote_loop l = (b, l1)" by (metis surj_pair)
  from quote_moves [OF q] show ?thesis
    by (auto simp: lexQuote_def q good_step_def [of _ _ "(Some LexValue, _)"]
        intro: good_error moves_trans emit_moves)
qed

lemma acceptRun_progress:
  assumes "in_set v (fst (lex_next l))" and "fst (lex_next l) \<noteq> 0"
  shows "remaining (acceptRun v l) < remaining l"
proof -
  obtain r l1 where n: "lex_next l = (r, l1)" by (metis surj_pair)
  then have "acceptRun v l = acceptRun v l1" using assms by (subst acceptRun.simps) simp
  then show ?thesis
    using moves_remaining [OF acceptRun_moves, of v l1] lex_next_facts(7) [OF n] assms(2) n by simp
qed

lemma digit_set: "isDigit r \<Longrightarrow> in_set ''0123456789'' r"
proof -
  assume "isDigit r"
  then have "r \<in> {48, 49, 50, 51, 52, 53, 54, 55, 56, 57}" unfolding isDigit_def by simp arith
  then show ?thesis by (auto simp: in_set_def)
qed

lemma accept_progress:
  "in_set v (fst (lex_next l)) \<Longrightarrow> fst (lex_next l) \<noteq> 0 \<Longrightarrow> remaining (snd (accept v l)) < remaining l"
  using lex_next_facts(7) [of l] by (auto simp: accept_def split: prod.split)

lemma accept_refuse:
  "\<not> in_set v (fst (lex_next l)) \<Longrightarrow> snd (accept v l) = l\<lparr>width := width (snd (lex_next l))\<rparr>"
  using backup_next [of l] by (auto simp: accept_def split: prod.split)

text \<open>The sign and the digits before the point: where a number begins, they consume.\<close>

lemma number_head:
  assumes "number_rune (fst (lex_next l))"
  shows "remaining (acceptRun ''0123456789'' (snd (accept ''+-'' l))) < remaining l"
proof (cases "in_set ''+-'' (fst (lex_next l))")
  case True
  moreover have "fst (lex_next l) \<noteq> 0" using True by (auto simp: in_set_def)
  ultimately show ?thesis
    using accept_progress moves_remaining [OF acceptRun_moves] le_less_trans by blast
next
  case False
  then have d: "isDigit (fst (lex_next l))" using assms by (auto simp: number_rune_def in_set_def)
  let ?l = "l\<lparr>width := width (snd (lex_next l))\<rparr>"
  have "remaining (acceptRun ''0123456789'' ?l) < remaining ?l"
    by (rule acceptRun_progress) (use d digit_set alnum_nonzero in auto)
  then show ?thesis by (simp add: accept_refuse [OF False])
qed

text \<open>The rest of \<open>scanNumber\<close>, from the digits before the point on, only moves.\<close>

lemma scanNumber_moves:
  assumes "scanNumber l = (b, l')"
  shows "moves (acceptRun ''0123456789'' (snd (accept ''+-'' l))) l'" "moves l l'"
proof -
  let ?l2 = "acceptRun ''0123456789'' (snd (accept ''+-'' l))"
  obtain dot l3 where a3: "accept ''.'' ?l2 = (dot, l3)" by (metis surj_pair)
  define l4 where "l4 = (if dot then acceptRun ''0123456789'' l3 else l3)"
  obtain e l5 where a5: "accept ''eE'' l4 = (e, l5)" by (metis surj_pair)
  define l6 where "l6 = (if e then acceptRun ''0123456789'' (snd (accept ''+-'' l5)) else l5)"
  obtain r l7 where p: "peek l6 = (r, l7)" by (metis surj_pair)
  have "moves ?l2 l3" using accept_moves [of ?l2 "''.''"] a3 by simp
  moreover have "moves l3 l4" by (simp add: l4_def acceptRun_moves)
  moreover have "moves l4 l5" using accept_moves [of l4 "''eE''"] a5 by simp
  moreover have "moves l5 l6"
    using moves_trans [OF accept_moves acceptRun_moves] by (simp add: l6_def)
  moreover have "moves l6 l7" using peek_moves [of l6] p by simp
  moreover have "moves l7 l'"
    using assms next_moves [of l7 "fst (lex_next l7)" "snd (lex_next l7)"]
    by (auto simp: scanNumber_def Let_def a3 l4_def [symmetric] a5 l6_def [symmetric] p split: if_splits)
  ultimately show m: "moves ?l2 l'" by (blast intro: moves_trans)
  show "moves l l'"
    by (rule moves_trans [OF moves_trans [OF accept_moves acceptRun_moves] m])
qed

lemma lexNumber_good: "good_step LexNumber l (lexNumber l)"
proof -
  obtain b l1 where n: "scanNumber l = (b, l1)" by (metis surj_pair)
  note m = scanNumber_moves [OF n]
  have "number_rune (fst (lex_next l)) \<Longrightarrow> remaining l1 < remaining l"
    using number_head moves_remaining [OF m(1)] le_less_trans by blast
  then have "good_step LexNumber l (Some LexValue, emit itemNumber l1)"
    using moves_trans [OF m(2) emit_moves, of itemNumber] by (simp add: good_step_def rank_def)
  then show ?thesis using good_error [OF m(2)] by (simp add: lexNumber_def n)
qed

lemma tryString_moves:
  assumes "tryString s l = (b, l1)"
  shows "moves l l1"
proof -
  have "pos l + length s \<le> length (input l)"
    if "take (length s) (drop (pos l) (input l)) = s" "pos l \<le> length (input l)"
    using that(2) arg_cong [OF that(1), of length] by simp
  then show ?thesis
    using assms tryString_remaining [OF assms]
    by (auto simp: tryString_def moves_def lx_inv_def split: if_splits)
qed

text \<open>One turn of \<open>lexValue\<close>, and the whole of it.\<close>

lemma lexValue_turn_good:
  "case lexValue_turn l of Inl l1 \<Rightarrow> moves l l1 | Inr out \<Rightarrow> good_step LexValue l out"
proof -
  obtain r l1 where n: "lex_next l = (r, l1)" by (metis surj_pair)
  obtain t l3 where t: "tryString ''true'' (backup l1) = (t, l3)" by (metis surj_pair)
  obtain f l4 where f: "tryString ''false'' l3 = (f, l4)" by (metis surj_pair)
  note m = next_moves [OF n] and b = backup_moves [OF n]
  have t3: "moves l l3" by (rule moves_trans [OF b tryString_moves [OF t]])
  have t4: "moves l l4" by (rule moves_trans [OF t3 tryString_moves [OF f]])
  have e: "tk \<noteq> itemEOF \<Longrightarrow> moves l (emit tk l1)" "tk \<noteq> itemEOF \<Longrightarrow> moves l (emit tk l3)"
    "tk \<noteq> itemEOF \<Longrightarrow> moves l (emit tk l4)"
    "tk \<noteq> itemEOF \<Longrightarrow> moves l (emit tk (l1\<lparr>arrayDepth := d\<rparr>))" for tk d
    by (blast intro: moves_trans emit_moves m t3 t4 depth_moves)+
  have num: "number_rune r \<Longrightarrow> good_step LexValue l (Some LexNumber, backup l1)"
    using b by (simp add: good_step_def rank_def backup_next [OF n] n)
  have key: "good_step LexValue l (Some LexKeyStart, l4)"
    using t4 by (simp add: good_step_def rank_def)
  have eof: "good_step LexValue l (None, emit itemEOF l1)"
    by (rule finished_good, rule finished_moves [OF m emit_eof_finished])
  show ?thesis
    unfolding lexValue_turn_def Let_def n prod.case t f
    using e moves_trans [OF m ignore_moves] good_consume [OF n _ moves_refl]
      good_consume [OF n _ ignore_moves] num key eof good_error [OF t4]
    by (simp add: number_rune_def)
qed

lemma lexValue_good: "good_step LexValue l (lexValue l)"
proof (induction "remaining l" arbitrary: l rule: less_induct)
  case less
  show ?case
  proof (cases "lexValue_turn l")
    case (Inl l1)
    then have "good_step LexValue l1 (lexValue l1)"
      using less lexValue_turn_remaining by blast
    then have "good_step LexValue l (lexValue l1)"
      using lexValue_turn_good [of l] Inl by (auto intro: good_step_moves simp: rank_def)
    then show ?thesis by (subst lexValue.simps) (simp add: Inl)
  next
    case (Inr out)
    then show ?thesis using lexValue_turn_good [of l] by (subst lexValue.simps) simp
  qed
qed

lemma lex_step_good: "good_step st l (lex_step st l)"
  by (cases st) (simp_all add: lexTableBody_good lexComment_good lexTableNameStart_good
      lexTableNameEnd_good lexKeyStart_good lexKeyEnd_good lexValue_good lexQuote_good lexNumber_good)

lemma lex_step_goodD: "lex_step st l = out \<Longrightarrow> good_step st l out"
  using lex_step_good by blast

section \<open>The run\<close>

function lex_run :: "stateFn \<Rightarrow> lexer \<Rightarrow> lexer" where
  "lex_run st l =
     (case lex_step st l of (None, l') \<Rightarrow> l' | (Some st', l') \<Rightarrow> lex_run st' l')"
  by pat_completeness auto
termination
  by (relation "measures [\<lambda>(_, l). remaining l, \<lambda>(st, l). rank st l]")
    (auto simp: good_step_def dest!: lex_step_goodD [OF sym] moves_remaining)

declare lex_run.simps [simp del]

definition lex_new :: "string \<Rightarrow> lexer" where
  "lex_new s = \<lparr>input = s, pos = 0, start = 0, width = 0, items = [], arrayDepth = 0,
     expectDoubleBracket = False, panicked = False\<rparr>"

text \<open>What \<open>lex\<close> and the goroutine \<open>run\<close> send over the channel, when everything is received.\<close>

definition lex_input :: "string \<Rightarrow> item list" where
  "lex_input s = items (lex_run LexTableBody (lex_new s))"

lemma lex_run_finished: "finished l (lex_run st l)"
proof (induction st l rule: lex_run.induct)
  case (1 st l)
  obtain o' l' where s: "lex_step st l = (o', l')" by (metis surj_pair)
  show ?case
  proof (cases o')
    case None
    with s show ?thesis using lex_step_good [of st l]
      by (subst lex_run.simps) (simp add: good_step_def)
  next
    case (Some st')
    with s have "finished l' (lex_run st' l')" "moves l l'"
      using 1 lex_step_good [of st l] by (auto simp: good_step_def)
    then have "finished l (lex_run st' l')" by (rule finished_moves [rotated])
    then show ?thesis by (subst lex_run.simps) (simp add: s Some)
  qed
qed

section \<open>Properties\<close>

text \<open>
  C36: on every input the lexer stops without a slice out of range; what it has sent ends with
  the end-of-input token or an error, and has neither before that; and the tokens are slices
  of the input at the positions they name, in order and without overlap.
\<close>

theorem lexer_total:
  "\<not> panicked (lex_run LexTableBody (lex_new s)) \<and>
   lex_input s \<noteq> [] \<and> filter final_item (lex_input s) = [last (lex_input s)] \<and>
   sliced s 0 (lex_input s) (length s)"
proof -
  have "lx_inv (lex_new s)" "input (lex_new s) = s" by (simp_all add: lx_inv_def lex_new_def)
  then show ?thesis
    using lex_run_finished [of "lex_new s" LexTableBody] by (auto simp: finished_def lex_input_def)
qed

lemma lexer_example:
  "lex_input ''a = 1 # x'' =
     [Item itemKey 0 ''a'', Item itemEqual 2 ''='', Item itemNumber 4 ''1'', Item itemEOF 9 '''']"
  by code_simp

end
