(* ===== verification/TomlParser.thy ===== *)
theory TomlParser
  imports TomlLexer Decimal "HOL-Library.AList"
begin

text \<open>
  The TOML parser (src/encoding/toml/parser.go, made by goyacc from parser.y) and \<open>parse\<close> of
  decode.go: the tables, the automaton that reads them, and the actions of the productions. A Go
  map is an association list, or \<open>None\<close> for nil; no map or slice that an action changes is
  reachable from two places, so a change is a new value. An index out of range and a
  write to a nil map are \<open>Panic\<close>. \<open>ParseFloat\<close> and \<open>Unquote\<close> of strconv are parameters.
\<close>

section \<open>Values\<close>

datatype 'f tvalue =
    VNil | VBool bool | VInt "64 word" | VFloat 'f | VString string | VArray "'f tvalue list"
  | VTable "(string \<times> 'f tvalue) list" | VTables "(string \<times> 'f tvalue) list list"

type_synonym 'f tmap = "(string \<times> 'f tvalue) list"

record 'f toml_table =
  tb_isArray :: bool
  tb_keys :: "string list"
  tb_entries :: "'f tmap option"

text \<open>The union of all that a symbol can carry, as goyacc makes it.\<close>

record 'f yySymType =
  sy_yys :: int
  sy_str :: string
  sy_line :: nat
  sy_entries :: "'f tmap option"
  sy_entry :: "string \<times> 'f tvalue"
  sy_value :: "'f tvalue"
  sy_values :: "'f tvalue list"
  sy_table :: "'f toml_table"
  sy_tables :: "'f tmap option"
  sy_keys :: "string list"

definition zero_sym :: "'f yySymType" where
  "zero_sym = \<lparr>sy_yys = 0, sy_str = [], sy_line = 0, sy_entries = None, sy_entry = ([], VNil), sy_value = VNil,
     sy_values = [], sy_table = \<lparr>tb_isArray = False, tb_keys = [], tb_entries = None\<rparr>, sy_tables = None, sy_keys = []\<rparr>"

datatype toml_error =
  LexicalError lex_error | SyntaxError | ArrayWasMap string | MapWasArray string | NotAMap string
| BadFloat string | BadInt string | BadString string

section \<open>The lexer's side\<close>

text \<open>What the parser sees of the lexer: the channel of items, the last position, its two results.\<close>

record 'f plexer =
  px_input :: string
  px_items :: "item list"
  px_lastPos :: nat
  px_err :: "(nat \<times> toml_error) option"
  px_result :: "'f tmap option"

fun item_pos :: "item \<Rightarrow> nat" where
  "item_pos (Item _ p _) = p"
| "item_pos (ErrItem p _) = p"

text \<open>Receiving from the closed channel gives the zero item.\<close>

definition nextItem :: "'f plexer \<Rightarrow> item \<times> 'f plexer" where
  "nextItem l =
     (case px_items l of
        [] \<Rightarrow> (Item itemEOF 0 [], l\<lparr>px_lastPos := 0\<rparr>)
      | i # rest \<Rightarrow> (i, l\<lparr>px_items := rest, px_lastPos := item_pos i\<rparr>))"

definition lineNumber :: "'f plexer \<Rightarrow> nat" where
  "lineNumber l = 1 + length (filter (\<lambda>c. c = CHR 0x0A) (take (px_lastPos l) (px_input l)))"

definition lexer_Error :: "toml_error \<Rightarrow> 'f plexer \<Rightarrow> 'f plexer" where
  "lexer_Error e l = l\<lparr>px_err := Some (lineNumber l, e)\<rparr>"

fun item_code :: "itemType \<Rightarrow> int" where
  "item_code itemEOF = 0"
| "item_code itemBool = 57347"
| "item_code itemKey = 57348"
| "item_code itemLeftBracket = 57349"
| "item_code itemLeftDoubleBracket = 57350"
| "item_code itemRightBracket = 57351"
| "item_code itemRightDoubleBracket = 57352"
| "item_code itemComma = 57353"
| "item_code itemEqual = 57354"
| "item_code itemNumber = 57355"
| "item_code itemString = 57356"

definition Lex :: "'f yySymType \<Rightarrow> 'f plexer \<Rightarrow> int \<times> 'f yySymType \<times> 'f plexer" where
  "Lex lval l =
     (case nextItem l of
        (ErrItem _ e, l') \<Rightarrow> (0, lval, lexer_Error (LexicalError e) l')
      | (Item t _ s, l') \<Rightarrow> (item_code t, zero_sym\<lparr>sy_str := s, sy_line := lineNumber l'\<rparr>, l'))"

section \<open>The tables\<close>

definition yyExca :: "int list" where "yyExca = [-1, 1, 1, -1, -2, 0]"

definition yyPrivate :: int where "yyPrivate = 57344"

definition yyLast :: int where "yyLast = 28"

definition yyAct :: "int list" where
  "yyAct = [13, 2, 14, 25, 17, 26, 19, 9, 19, 18, 15, 16, 20, 7, 8, 10, 5, 11, 22, 1, 23, 6, 24, 3, 12, 21, 4, 27]"

definition yyPact :: "int list" where
  "yyPact = [-1000, -1000, 10, 6, -1000, -5, -1000, 11, 11, -3, 0, -1000, 2, -1000, -1000, -1000, -1000, -3, -1000, -1000,
     -1000, -6, -1000, 10, 10, -1000, -3, -1000]"

definition yyPgo :: "int list" where "yyPgo = [0, 26, 1, 0, 25, 23, 21, 15, 19]"

definition yyR1 :: "int list" where "yyR1 = [0, 8, 5, 5, 6, 6, 7, 7, 2, 2, 1, 3, 3, 3, 3, 4, 4]"

definition yyR2 :: "int list" where "yyR2 = [0, 2, 0, 2, 4, 4, 1, 2, 0, 2, 3, 1, 1, 1, 3, 1, 3]"

definition yyChk :: "int list" where
  "yyChk = [-1000, -8, -2, -5, -1, 6, -6, 7, 8, 12, -7, 6, -7, -3, 5, 13, 14, 7, 9, 6, 10, -4, -3, -2, -2, 9, 11, -3]"

definition yyDef :: "int list" where
  "yyDef = [8, -2, 2, 1, 9, 0, 3, 0, 0, 0, 0, 6, 0, 10, 11, 12, 13, 0, 8, 7, 8, 0, 15, 4, 5, 14, 0, 16]"

definition yyTok1 :: "int list" where "yyTok1 = [1]"

definition yyTok2 :: "int list" where "yyTok2 = [2, 3, 4, 5, 6, 7, 8, 9, 10, 11, 12, 13, 14]"

definition yyTok3 :: "int list" where "yyTok3 = [0]"

definition at :: "'a list \<Rightarrow> int \<Rightarrow> ('e, 'a) outcome" where
  "at t i = (if 0 \<le> i \<and> i < int (length t) then Ok (t ! nat i) else Panic)"

text \<open>The token of a lexer code.\<close>

fun tok3_scan :: "int \<Rightarrow> int list \<Rightarrow> int" where
  "tok3_scan char (a # b # rest) = (if a = char then b else if rest = [] then a else tok3_scan char rest)"
| "tok3_scan char [a] = a"
| "tok3_scan char [] = 0"

definition yylex1 :: "'f yySymType \<Rightarrow> 'f plexer \<Rightarrow> int \<times> int \<times> 'f yySymType \<times> 'f plexer" where
  "yylex1 lval l =
     (case Lex lval l of
        (char, lval', l') \<Rightarrow>
          (let token = (if char \<le> 0 then yyTok1 ! 0
                 else if char < int (length yyTok1) then yyTok1 ! nat char
                 else if yyPrivate \<le> char \<and> char < yyPrivate + int (length yyTok2) then yyTok2 ! nat (char - yyPrivate)
                 else tok3_scan char yyTok3)
           in (char, if token = 0 then yyTok2 ! 1 else token, lval', l')))"

section \<open>The actions\<close>

record 'f strconv =
  sc_ParseFloat :: "string \<Rightarrow> 'f option"
  sc_Unquote :: "string \<Rightarrow> string option"

text \<open>\<open>ParseInt(s, 10, 64)\<close>: an optional sign and decimal digits whose value fits.\<close>

definition parse_magnitude :: "string \<Rightarrow> nat option" where
  "parse_magnitude s = (if s = [] then None else read_digits 0 s)"

definition ParseInt :: "string \<Rightarrow> 64 word option" where
  "ParseInt s =
     (let neg = (s \<noteq> [] \<and> hd s = CHR ''-'');
          digits = (if s \<noteq> [] \<and> (hd s = CHR ''-'' \<or> hd s = CHR ''+'') then drop 1 s else s)
      in case parse_magnitude digits of
           None \<Rightarrow> None
         | Some n \<Rightarrow>
             if neg then (if int n \<le> 2 ^ 63 then Some (- word_of_int (int n)) else None)
             else (if int n < 2 ^ 63 then Some (word_of_int (int n)) else None))"

text \<open>Writing to a map; a nil map panics. The loop over another map writes each of its pairs.\<close>

definition map_put :: "string \<Rightarrow> 'f tvalue \<Rightarrow> 'f tmap option \<Rightarrow> (toml_error, 'f tmap option) outcome" where
  "map_put k v m = (case m of None \<Rightarrow> Panic | Some t \<Rightarrow> Ok (Some (AList.update k v t)))"

definition range_of :: "'f tmap option \<Rightarrow> 'f tmap" where
  "range_of m = (case m of None \<Rightarrow> [] | Some t \<Rightarrow> t)"

definition put_all :: "'f tmap option \<Rightarrow> 'f tmap option \<Rightarrow> (toml_error, 'f tmap option) outcome" where
  "put_all es m = fold_outcome (\<lambda>(k, v). map_put k v) (range_of es) m"

text \<open>
  Production 3: the entries of a table go to the map that its keys lead to from \<open>m\<close>, which is made
  where it is missing.
\<close>

fun merge_table :: "bool \<Rightarrow> string list \<Rightarrow> 'f tmap option \<Rightarrow> 'f tmap option \<Rightarrow> (toml_error, 'f tmap option) outcome" where
  "merge_table isArray [] es m = put_all es m"
| "merge_table isArray (key # keys) es m =
     (case map_of (range_of m) key of
        None \<Rightarrow>
          bind_outcome (merge_table isArray keys es (Some [])) (\<lambda>t.
            map_put key (if isArray \<and> keys = [] then VTables [range_of t] else VTable (range_of t)) m)
      | Some (VTable t) \<Rightarrow>
          if isArray \<and> keys = [] then Err (ArrayWasMap key)
          else bind_outcome (merge_table isArray keys es (Some t)) (\<lambda>t'. map_put key (VTable (range_of t')) m)
      | Some (VTables ts) \<Rightarrow>
          if isArray \<and> keys = []
          then bind_outcome (merge_table isArray keys es (Some [])) (\<lambda>t'. map_put key (VTables (ts @ [range_of t'])) m)
          else if \<not> isArray \<and> keys = [] then Err (MapWasArray key)
          else if ts = [] then Panic
          else bind_outcome (merge_table isArray keys es (Some (last ts))) (\<lambda>t'.
                 map_put key (VTables (butlast ts @ [range_of t'])) m)
      | Some _ \<Rightarrow> Err (NotAMap key))"

definition number_value :: "'f strconv \<Rightarrow> string \<Rightarrow> (toml_error, 'f tvalue) outcome" where
  "number_value S s =
     (if CHR ''.'' \<in> set s
      then (case sc_ParseFloat S s of None \<Rightarrow> Err (BadFloat s) | Some n \<Rightarrow> Ok (VFloat n))
      else (case ParseInt s of None \<Rightarrow> Err (BadInt s) | Some n \<Rightarrow> Ok (VInt n)))"

text \<open>
  The action of production \<open>yynt\<close>: \<open>d i\<close> is \<open>yyDollar[i]\<close>, \<open>v\<close> is \<open>yyVAL\<close> as the automaton set it;
  the second result is the lexer's \<open>result\<close>, where it is assigned.
\<close>

definition yy_action ::
  "'f strconv \<Rightarrow> int \<Rightarrow> (nat \<Rightarrow> 'f yySymType) \<Rightarrow> 'f yySymType \<Rightarrow> (toml_error, 'f yySymType \<times> 'f tmap option option) outcome" where
  "yy_action S yynt d v =
     (if yynt = 1 then bind_outcome (put_all (sy_entries (d 1)) (sy_tables (d 2))) (\<lambda>t. Ok (v, Some t))
      else if yynt = 2 then Ok (v\<lparr>sy_tables := Some []\<rparr>, None)
      else if yynt = 3 then
        (let tb = sy_table (d 2) in
         bind_outcome (merge_table (tb_isArray tb) (tb_keys tb) (tb_entries tb) (sy_tables (d 1))) (\<lambda>t.
           Ok (v\<lparr>sy_tables := t\<rparr>, None)))
      else if yynt = 4 then
        Ok (v\<lparr>sy_table := \<lparr>tb_isArray = False, tb_keys = sy_keys (d 2), tb_entries = sy_entries (d 4)\<rparr>\<rparr>, None)
      else if yynt = 5 then
        Ok (v\<lparr>sy_table := \<lparr>tb_isArray = True, tb_keys = sy_keys (d 2), tb_entries = sy_entries (d 4)\<rparr>\<rparr>, None)
      else if yynt = 6 then Ok (v\<lparr>sy_keys := [sy_str (d 1)]\<rparr>, None)
      else if yynt = 7 then Ok (v\<lparr>sy_keys := sy_keys (d 1) @ [sy_str (d 2)]\<rparr>, None)
      else if yynt = 8 then Ok (v\<lparr>sy_entries := Some []\<rparr>, None)
      else if yynt = 9 then
        bind_outcome (map_put (fst (sy_entry (d 2))) (snd (sy_entry (d 2))) (sy_entries (d 1))) (\<lambda>t.
          Ok (v\<lparr>sy_entries := t\<rparr>, None))
      else if yynt = 10 then Ok (v\<lparr>sy_entry := (sy_str (d 1), sy_value (d 3))\<rparr>, None)
      else if yynt = 11 then Ok (v\<lparr>sy_value := VBool (sy_str (d 1) = ''true'')\<rparr>, None)
      else if yynt = 12 then bind_outcome (number_value S (sy_str (d 1))) (\<lambda>n. Ok (v\<lparr>sy_value := n\<rparr>, None))
      else if yynt = 13 then
        (case sc_Unquote S (sy_str (d 1)) of
           None \<Rightarrow> Err (BadString (sy_str (d 1))) | Some s \<Rightarrow> Ok (v\<lparr>sy_value := VString s\<rparr>, None))
      else if yynt = 14 then Ok (v\<lparr>sy_value := VArray (sy_values (d 2))\<rparr>, None)
      else if yynt = 15 then Ok (v\<lparr>sy_values := [sy_value (d 1)]\<rparr>, None)
      else if yynt = 16 then Ok (v\<lparr>sy_values := sy_values (d 1) @ [sy_value (d 3)]\<rparr>, None)
      else Ok (v, None))"

section \<open>The automaton\<close>

text \<open>\<open>yp_S\<close> is the stack array with \<open>yp_p\<close> as its top index.\<close>

record 'f yyparser =
  yp_S :: "'f yySymType list"
  yp_p :: int
  yp_state :: int
  yp_char :: int
  yp_token :: int
  yp_lval :: "'f yySymType"
  yp_VAL :: "'f yySymType"
  yp_Errflag :: nat
  yp_lex :: "'f plexer"

datatype 'f turn = Goto "'f yyparser" | Return int "'f yyparser"

definition yy_grow :: "int \<Rightarrow> 'f yySymType list \<Rightarrow> 'f yySymType list" where
  "yy_grow p S = (if int (length S) \<le> p then S @ replicate (length S) zero_sym else S)"

text \<open>The label \<open>yystack\<close>: put a state and value onto the stack.\<close>

definition yy_push :: "'f yyparser \<Rightarrow> (unit, 'f yyparser) outcome" where
  "yy_push P =
     (let p = yp_p P + 1; S = yy_grow p (yp_S P) in
      bind_outcome (at S p) (\<lambda>_.
        Ok (P\<lparr>yp_p := p, yp_S := S[nat p := (yp_VAL P)\<lparr>sy_yys := yp_state P\<rparr>]\<rparr>)))"

text \<open>Fetch the next token unless there is one.\<close>

definition yy_fetch :: "'f yyparser \<Rightarrow> 'f yyparser" where
  "yy_fetch P =
     (if 0 \<le> yp_char P then P
      else (case yylex1 (yp_lval P) (yp_lex P) of
              (char, token, lval, l) \<Rightarrow> P\<lparr>yp_char := char, yp_token := token, yp_lval := lval, yp_lex := l\<rparr>))"

text \<open>The loops through the exception table.\<close>

fun exca_find :: "int \<Rightarrow> int list \<Rightarrow> (unit, int list) outcome" where
  "exca_find state (a # b # rest) = (if a = -1 \<and> b = state then Ok rest else exca_find state rest)"
| "exca_find state _ = Panic"

fun exca_scan :: "int \<Rightarrow> int list \<Rightarrow> (unit, int) outcome" where
  "exca_scan token (a # b # rest) = (if a < 0 \<or> a = token then Ok b else exca_scan token rest)"
| "exca_scan token _ = Panic"

text \<open>A shift, when the tables have one for the token.\<close>

definition yy_shift :: "int \<Rightarrow> 'f yyparser \<Rightarrow> (unit, 'f yyparser option) outcome" where
  "yy_shift pact P =
     (let yyn = pact + yp_token P in
      if yyn < 0 \<or> yyLast \<le> yyn then Ok None
      else bind_outcome (at yyAct yyn) (\<lambda>s.
           bind_outcome (at yyChk s) (\<lambda>c.
             Ok (if c = yp_token P
                 then Some (P\<lparr>yp_char := -1, yp_token := -1, yp_VAL := yp_lval P, yp_state := s,
                   yp_Errflag := yp_Errflag P - 1\<rparr>)
                 else None))))"

text \<open>The search for a state that shifts the error token, from the top index down.\<close>

fun yy_recover :: "'f yySymType list \<Rightarrow> nat \<Rightarrow> (unit, (nat \<times> int) option) outcome" where
  "yy_recover S 0 = Ok None"
| "yy_recover S (Suc p) =
     bind_outcome (at S (int p)) (\<lambda>sym.
     bind_outcome (at yyPact (sy_yys sym)) (\<lambda>n.
       let yyn = n + 2 in
       if 0 \<le> yyn \<and> yyn < yyLast
       then bind_outcome (at yyAct yyn) (\<lambda>s. bind_outcome (at yyChk s) (\<lambda>c.
              if c = 2 then Ok (Some (p, s)) else yy_recover S p))
       else yy_recover S p))"

definition yy_error :: "'f yyparser \<Rightarrow> (unit, 'f turn) outcome" where
  "yy_error P =
     (if yp_Errflag P \<le> 2
      then (let P1 = (if yp_Errflag P = 0 then P\<lparr>yp_lex := lexer_Error SyntaxError (yp_lex P)\<rparr> else P)\<lparr>yp_Errflag := 3\<rparr>
            in bind_outcome (yy_recover (yp_S P1) (nat (yp_p P1 + 1))) (\<lambda>r.
                 case r of None \<Rightarrow> Ok (Return 1 P1)
                 | Some (p, s) \<Rightarrow> bind_outcome (yy_push (P1\<lparr>yp_p := int p, yp_state := s\<rparr>)) (\<lambda>P'. Ok (Goto P'))))
      else if yp_token P = 1 then Ok (Return 1 P)
      else Ok (Goto (P\<lparr>yp_char := -1, yp_token := -1\<rparr>)))"

text \<open>The state to go to after a reduction to the symbol \<open>r1\<close>.\<close>

definition yy_goto :: "int \<Rightarrow> int \<Rightarrow> (unit, int) outcome" where
  "yy_goto r1 state =
     bind_outcome (at yyPgo r1) (\<lambda>yyg.
       let yyj = yyg + state + 1 in
       if yyLast \<le> yyj then at yyAct yyg
       else bind_outcome (at yyAct yyj) (\<lambda>s. bind_outcome (at yyChk s) (\<lambda>c.
              if c \<noteq> - r1 then at yyAct yyg else Ok s)))"

definition yy_reduce :: "'f strconv \<Rightarrow> int \<Rightarrow> 'f yyparser \<Rightarrow> (unit, 'f turn) outcome" where
  "yy_reduce C yynt P =
     bind_outcome (at yyR2 yynt) (\<lambda>r2.
     let yypt = yp_p P; p = yypt - r2; S = yy_grow (p + 1) (yp_S P) in
     bind_outcome (at S (p + 1)) (\<lambda>val.
     bind_outcome (at yyR1 yynt) (\<lambda>r1.
     bind_outcome (at S p) (\<lambda>base.
     bind_outcome (yy_goto r1 (sy_yys base)) (\<lambda>state.
       case yy_action C yynt (\<lambda>i. S ! nat (yypt - r2 + int i)) val of
         Ok (v, res) \<Rightarrow>
           bind_outcome (yy_push (P\<lparr>yp_p := p, yp_S := S, yp_state := state, yp_VAL := v,
               yp_lex := (case res of None \<Rightarrow> yp_lex P | Some r \<Rightarrow> (yp_lex P)\<lparr>px_result := r\<rparr>)\<rparr>)) (\<lambda>P'. Ok (Goto P'))
       | Err e \<Rightarrow> Ok (Return 1 (P\<lparr>yp_lex := lexer_Error e (yp_lex P)\<rparr>))
       | Panic \<Rightarrow> Panic)))))"

definition yy_default :: "'f strconv \<Rightarrow> 'f yyparser \<Rightarrow> (unit, 'f turn) outcome" where
  "yy_default C P =
     bind_outcome (at yyDef (yp_state P)) (\<lambda>yyn.
       if yyn = -2
       then (let P1 = yy_fetch P in
             bind_outcome (exca_find (yp_state P1) yyExca) (\<lambda>rest.
             bind_outcome (exca_scan (yp_token P1) rest) (\<lambda>n.
               if n < 0 then Ok (Return 0 P1) else if n = 0 then yy_error P1 else yy_reduce C n P1)))
       else if yyn = 0 then yy_error P else yy_reduce C yyn P)"

text \<open>From the label \<open>yynewstate\<close> to the next visit of it, or the return.\<close>

definition yy_turn :: "'f strconv \<Rightarrow> 'f yyparser \<Rightarrow> (unit, 'f turn) outcome" where
  "yy_turn C P =
     bind_outcome (at yyPact (yp_state P)) (\<lambda>pact.
       if pact \<le> -1000 then yy_default C P
       else (let P1 = yy_fetch P in
             bind_outcome (yy_shift pact P1) (\<lambda>r.
               case r of Some P2 \<Rightarrow> bind_outcome (yy_push P2) (\<lambda>P'. Ok (Goto P')) | None \<Rightarrow> yy_default C P1)))"

partial_function (option) yy_run :: "'f strconv \<Rightarrow> 'f yyparser \<Rightarrow> (unit, int \<times> 'f yyparser) outcome option" where
  "yy_run C P =
     (case yy_turn C P of
        Ok (Goto P') \<Rightarrow> yy_run C P' | Ok (Return r P') \<Rightarrow> Some (Ok (r, P')) | Err e \<Rightarrow> Some (Err e) | Panic \<Rightarrow> Some Panic)"

declare yy_run.simps [code]

definition yy_new :: "'f plexer \<Rightarrow> 'f yyparser" where
  "yy_new l = \<lparr>yp_S = replicate 16 zero_sym, yp_p = -1, yp_state = 0, yp_char = -1, yp_token = -1, yp_lval = zero_sym,
     yp_VAL = zero_sym, yp_Errflag = 0, yp_lex = l\<rparr>"

definition yyParse :: "'f strconv \<Rightarrow> 'f plexer \<Rightarrow> (unit, int \<times> 'f yyparser) outcome option" where
  "yyParse C l = (case yy_push (yy_new l) of Ok P \<Rightarrow> yy_run C P | Err e \<Rightarrow> Some (Err e) | Panic \<Rightarrow> Some Panic)"

section \<open>Parse\<close>

definition new_plexer :: "string \<Rightarrow> 'f plexer" where
  "new_plexer s = \<lparr>px_input = s, px_items = lex_input s, px_lastPos = 0, px_err = None, px_result = None\<rparr>"

text \<open>\<open>parse\<close>: the result with the error, either of which may be nil; \<open>None\<close> is not returning.\<close>

definition toml_parse :: "'f strconv \<Rightarrow> string \<Rightarrow> (unit, 'f tmap option \<times> (nat \<times> toml_error) option) outcome option" where
  "toml_parse C str =
     (case yyParse C (new_plexer str) of
        None \<Rightarrow> None
      | Some (Ok (r, P)) \<Rightarrow>
          (let lx = yp_lex P in
           Some (Ok (if r = 0 \<or> px_err lx = None then (px_result lx, px_err lx) else (None, px_err lx))))
      | Some (Err e) \<Rightarrow> Some (Err e)
      | Some Panic \<Rightarrow> Some Panic)"

end
