(* ===== verification/TomlGrammar.thy ===== *)
theory TomlGrammar
  imports TomlParser
begin

text \<open>
  What the TOML parser should accept: the grammar of src/encoding/toml/parser.y, production by
  production, as relations between lists of tokens and the values its actions make; and a parser by
  recursive descent, proved equal to the grammar, that the automaton can be compared with.
\<close>

section \<open>The grammar\<close>

inductive g_value :: "'f strconv \<Rightarrow> item list \<Rightarrow> 'f tvalue \<Rightarrow> bool"
  and g_values :: "'f strconv \<Rightarrow> item list \<Rightarrow> 'f tvalue list \<Rightarrow> bool" for C where
  g_bool: "g_value C [Item itemBool p s] (VBool (s = ''true''))"
| g_number: "number_value C s = Ok n \<Longrightarrow> g_value C [Item itemNumber p s] n"
| g_string: "sc_Unquote C s = Some u \<Longrightarrow> g_value C [Item itemString p s] (VString u)"
| g_array: "g_values C ts vs \<Longrightarrow> g_value C (Item itemLeftBracket p s # ts @ [Item itemRightBracket p' s']) (VArray vs)"
| g_one: "g_value C ts v \<Longrightarrow> g_values C ts [v]"
| g_more: "g_values C ts vs \<Longrightarrow> g_value C ts' v \<Longrightarrow> g_values C (ts @ Item itemComma p s # ts') (vs @ [v])"

inductive g_entry :: "'f strconv \<Rightarrow> item list \<Rightarrow> string \<times> 'f tvalue \<Rightarrow> bool" for C where
  g_assign: "g_value C ts v \<Longrightarrow> g_entry C (Item itemKey p k # Item itemEqual p' e # ts) (k, v)"

inductive g_entries :: "'f strconv \<Rightarrow> item list \<Rightarrow> 'f tmap \<Rightarrow> bool" for C where
  g_no_entries: "g_entries C [] []"
| g_next_entry: "g_entries C ts es \<Longrightarrow> g_entry C ts' (k, v) \<Longrightarrow> g_entries C (ts @ ts') (AList.update k v es)"

inductive g_keys :: "item list \<Rightarrow> string list \<Rightarrow> bool" where
  g_first_key: "g_keys [Item itemKey p k] [k]"
| g_next_key: "g_keys ts ks \<Longrightarrow> g_keys (ts @ [Item itemKey p k]) (ks @ [k])"

inductive g_table :: "'f strconv \<Rightarrow> item list \<Rightarrow> bool \<times> string list \<times> 'f tmap \<Rightarrow> bool" for C where
  g_map: "g_keys ts ks \<Longrightarrow> g_entries C ts' es \<Longrightarrow>
     g_table C (Item itemLeftBracket p s # ts @ Item itemRightBracket p' s' # ts') (False, ks, es)"
| g_maps: "g_keys ts ks \<Longrightarrow> g_entries C ts' es \<Longrightarrow>
     g_table C (Item itemLeftDoubleBracket p s # ts @ Item itemRightDoubleBracket p' s' # ts') (True, ks, es)"

inductive g_tables :: "'f strconv \<Rightarrow> item list \<Rightarrow> 'f tmap \<Rightarrow> bool" for C where
  g_no_tables: "g_tables C [] []"
| g_next_table: "g_tables C ts m \<Longrightarrow> g_table C ts' (isArray, ks, es) \<Longrightarrow>
     merge_table isArray ks (Some es) (Some m) = Ok (Some m') \<Longrightarrow> g_tables C (ts @ ts') m'"

inductive g_top :: "'f strconv \<Rightarrow> item list \<Rightarrow> 'f tmap \<Rightarrow> bool" for C where
  g_document: "g_entries C ts es \<Longrightarrow> g_tables C ts' m \<Longrightarrow> put_all (Some es) (Some m) = Ok (Some r) \<Longrightarrow> g_top C (ts @ ts') r"

section \<open>Recursive descent\<close>

text \<open>Each function takes what it recognises off the front of the tokens. The guards are always met.\<close>

function (sequential) d_value :: "'f strconv \<Rightarrow> item list \<Rightarrow> ('f tvalue \<times> item list) option"
  and d_more :: "'f strconv \<Rightarrow> 'f tvalue list \<Rightarrow> item list \<Rightarrow> ('f tvalue list \<times> item list) option" where
  "d_value C (Item itemBool p s # ts) = Some (VBool (s = ''true''), ts)"
| "d_value C (Item itemNumber p s # ts) = (case number_value C s of Ok n \<Rightarrow> Some (n, ts) | _ \<Rightarrow> None)"
| "d_value C (Item itemString p s # ts) = (case sc_Unquote C s of Some u \<Rightarrow> Some (VString u, ts) | None \<Rightarrow> None)"
| "d_value C (Item itemLeftBracket p s # ts) =
     (case d_value C ts of
        Some (v, ts1) \<Rightarrow> if length ts1 < length ts then map_option (\<lambda>(vs, ts2). (VArray vs, ts2)) (d_more C [v] ts1) else None
      | None \<Rightarrow> None)"
| "d_value C _ = None"
| "d_more C vs (Item itemRightBracket p s # ts) = Some (vs, ts)"
| "d_more C vs (Item itemComma p s # ts) =
     (case d_value C ts of
        Some (v, ts1) \<Rightarrow> if length ts1 < length ts then d_more C (vs @ [v]) ts1 else None
      | None \<Rightarrow> None)"
| "d_more C vs _ = None"
  by pat_completeness auto
termination
  by (relation "measure (\<lambda>x. case x of Inl (C, ts) \<Rightarrow> length ts | Inr (C, vs, ts) \<Rightarrow> length ts)") auto

lemma d_shorter:
  "d_value C ts = Some (v, ts') \<Longrightarrow> length ts' < length ts"
  "d_more C vs ts = Some (vs', ts') \<Longrightarrow> length ts' < length ts"
  by (induction C ts and C vs ts arbitrary: v ts' and vs' ts' rule: d_value_d_more.induct)
    (force split: option.splits outcome.splits if_splits)+

lemma d_nested:
  "d_value C (Item itemLeftBracket p s # ts) =
     (case d_value C ts of
        Some (v, ts1) \<Rightarrow> map_option (\<lambda>(vs, ts2). (VArray vs, ts2)) (d_more C [v] ts1) | None \<Rightarrow> None)"
  "d_more C vs (Item itemComma p s # ts) = (case d_value C ts of Some (v, ts1) \<Rightarrow> d_more C (vs @ [v]) ts1 | None \<Rightarrow> None)"
  using d_shorter(1) [of C ts] by (auto split: option.splits)

declare d_value.simps(4) [simp del] d_more.simps(2) [simp del] d_nested [simp]

fun key_of :: "item list \<Rightarrow> (string \<times> item list) option" where
  "key_of (Item t p k # ts) = (if t = itemKey then Some (k, ts) else None)"
| "key_of _ = None"

fun after_equal :: "item list \<Rightarrow> item list option" where
  "after_equal (Item t p s # ts) = (if t = itemEqual then Some ts else None)"
| "after_equal _ = None"

lemma key_of_Some: "key_of ts = Some (k, ts') \<longleftrightarrow> (\<exists>p. ts = Item itemKey p k # ts')"
  by (cases ts rule: key_of.cases) auto

lemma after_equal_Some: "after_equal ts = Some ts' \<longleftrightarrow> (\<exists>p s. ts = Item itemEqual p s # ts')"
  by (cases ts rule: after_equal.cases) auto

function d_entries :: "'f strconv \<Rightarrow> 'f tmap \<Rightarrow> item list \<Rightarrow> ('f tmap \<times> item list) option" where
  "d_entries C es ts =
     (case key_of ts of
        None \<Rightarrow> Some (es, ts)
      | Some (k, ts1) \<Rightarrow>
          (case after_equal ts1 of
             None \<Rightarrow> None
           | Some ts2 \<Rightarrow>
               (case d_value C ts2 of Some (v, ts3) \<Rightarrow> d_entries C (AList.update k v es) ts3 | None \<Rightarrow> None)))"
  by pat_completeness auto
termination
  by (relation "measure (\<lambda>(C, es, ts). length ts)") (auto simp: key_of_Some after_equal_Some dest!: sym [THEN d_shorter(1)] d_shorter(1))

declare d_entries.simps [simp del]

fun d_keys :: "string list \<Rightarrow> item list \<Rightarrow> string list \<times> item list" where
  "d_keys ks (Item itemKey p k # ts) = d_keys (ks @ [k]) ts"
| "d_keys ks ts = (ks, ts)"

text \<open>A table up to the next one, and the tables; the result of a merge is never nil.\<close>

fun d_table :: "'f strconv \<Rightarrow> item list \<Rightarrow> (bool \<times> string list \<times> 'f tmap \<times> item list) option" where
  "d_table C (Item itemLeftBracket p s # ts) =
     (case d_keys [] ts of
        (k # ks, Item itemRightBracket p' s' # ts1) \<Rightarrow>
          map_option (\<lambda>(es, ts2). (False, k # ks, es, ts2)) (d_entries C [] ts1)
      | _ \<Rightarrow> None)"
| "d_table C (Item itemLeftDoubleBracket p s # ts) =
     (case d_keys [] ts of
        (k # ks, Item itemRightDoubleBracket p' s' # ts1) \<Rightarrow>
          map_option (\<lambda>(es, ts2). (True, k # ks, es, ts2)) (d_entries C [] ts1)
      | _ \<Rightarrow> None)"
| "d_table C _ = None"

fun opens_table :: "item list \<Rightarrow> bool" where
  "opens_table (Item t p s # ts) = (t = itemLeftBracket \<or> t = itemLeftDoubleBracket)"
| "opens_table _ = False"

lemma d_entries_step:
  assumes "d_entries C es ts = Some r"
  obtains "key_of ts = None" "r = (es, ts)"
  | p k p' e ts2 v ts3 where "ts = Item itemKey p k # Item itemEqual p' e # ts2" "d_value C ts2 = Some (v, ts3)"
    "d_entries C (AList.update k v es) ts3 = Some r"
  using assms by (subst (asm) d_entries.simps) (auto simp: key_of_Some after_equal_Some split: option.splits)

lemma d_entries_shorter: "d_entries C es ts = Some (es', ts') \<Longrightarrow> length ts' \<le> length ts"
proof (induction "length ts" arbitrary: es ts rule: less_induct)
  case less
  from less.prems show ?case
  proof (cases rule: d_entries_step)
    case (2 p k p' e ts2 v ts3)
    then show ?thesis using less.hyps [OF _ 2(3)] d_shorter(1) [OF 2(2)] by simp
  qed simp
qed

lemma d_keys_shorter: "d_keys ks ts = (ks', ts') \<Longrightarrow> length ts' \<le> length ts"
  by (induction ks ts rule: d_keys.induct) (auto simp: less_imp_le intro: le_SucI)

lemma d_table_shorter: "d_table C ts = Some (a, ks, es, ts') \<Longrightarrow> length ts' < length ts"
  by (cases "(C, ts)" rule: d_table.cases)
    (auto split: prod.splits list.splits item.splits itemType.splits dest!: d_entries_shorter d_keys_shorter)

function d_tables :: "'f strconv \<Rightarrow> 'f tmap \<Rightarrow> item list \<Rightarrow> ('f tmap \<times> item list) option" where
  "d_tables C m ts =
     (if opens_table ts
      then (case d_table C ts of
              None \<Rightarrow> None
            | Some (isArray, ks, es, ts1) \<Rightarrow>
                (case merge_table isArray ks (Some es) (Some m) of
                   Ok (Some m') \<Rightarrow> d_tables C m' ts1 | _ \<Rightarrow> None))
      else Some (m, ts))"
  by pat_completeness auto
termination
  by (relation "measure (\<lambda>(C, m, ts). length ts)") (auto dest: d_table_shorter)

declare d_tables.simps [simp del]

fun at_end :: "item list \<Rightarrow> bool" where
  "at_end [] = True"
| "at_end (Item t p s # ts) = (t = itemEOF)"
| "at_end (ErrItem p e # ts) = False"

definition d_top :: "'f strconv \<Rightarrow> item list \<Rightarrow> 'f tmap option" where
  "d_top C ts =
     (case d_entries C [] ts of
        None \<Rightarrow> None
      | Some (es, ts1) \<Rightarrow>
          (case d_tables C [] ts1 of
             None \<Rightarrow> None
           | Some (m, ts2) \<Rightarrow>
               if at_end ts2 then (case put_all (Some es) (Some m) of Ok r \<Rightarrow> r | _ \<Rightarrow> None) else None))"

section \<open>The descent is the grammar\<close>

lemma d_value_sound:
  "d_value C ts = Some (v, ts') \<Longrightarrow> \<exists>u. ts = u @ ts' \<and> g_value C u v"
  "d_more C vs ts = Some (vs', ts') \<Longrightarrow>
     \<exists>u p s. ts = u @ Item itemRightBracket p s # ts' \<and> (\<forall>w. g_values C w vs \<longrightarrow> g_values C (w @ u) vs')"
proof (induction C ts and C vs ts arbitrary: v ts' and vs' ts' rule: d_value_d_more.induct)
  case (4 C p s ts)
  then obtain v1 ts1 vs where d: "d_value C ts = Some (v1, ts1)" "d_more C [v1] ts1 = Some (vs, ts')" "v = VArray vs"
    by (auto split: option.splits)
  obtain u where u: "ts = u @ ts1" "g_value C u v1" using 4(1) [OF d(1)] by blast
  obtain u' p' s' where u': "ts1 = u' @ Item itemRightBracket p' s' # ts'" "\<forall>w. g_values C w [v1] \<longrightarrow> g_values C (w @ u') vs"
    using 4(2) [OF d(1) refl d_shorter(1) [OF d(1)] d(2)] by blast
  have "g_values C (u @ u') vs" using u u' by (auto intro: g_one)
  from g_array [OF this, of p s p' s'] show ?case
    using u u' d(3) by (intro exI [of _ "Item itemLeftBracket p s # (u @ u') @ [Item itemRightBracket p' s']"]) simp
next
  case (6 C vs p s ts)
  then show ?case by (auto intro!: exI [of _ "[]"])
next
  case (7 C vs p s ts)
  then obtain v1 ts1 where d: "d_value C ts = Some (v1, ts1)" "d_more C (vs @ [v1]) ts1 = Some (vs', ts')"
    by (auto split: option.splits)
  obtain u where u: "ts = u @ ts1" "g_value C u v1" using 7(1) [OF d(1)] by blast
  obtain u' p' s' where u': "ts1 = u' @ Item itemRightBracket p' s' # ts'"
    "\<forall>w. g_values C w (vs @ [v1]) \<longrightarrow> g_values C (w @ u') vs'"
    using 7(2) [OF d(1) refl d_shorter(1) [OF d(1)] d(2)] by blast
  show ?case using u u' g_more [OF _ u(2)]
    by (intro exI [of _ "Item itemComma p s # u @ u'"] exI [of _ p'] exI [of _ s']) fastforce
qed (auto split: outcome.splits option.splits intro: g_value_g_values.intros)

lemma d_value_complete:
  "g_value C u v \<Longrightarrow> d_value C (u @ ts) = Some (v, ts)"
  "g_values C u vs \<Longrightarrow> \<exists>v ts1. d_value C (u @ ts) = Some (v, ts1) \<and> d_more C [v] ts1 = d_more C vs ts"
proof (induction arbitrary: ts and ts rule: g_value_g_values.inducts)
  case (g_array us vs p s p' s')
  then obtain v ts1 where d: "d_value C (us @ Item itemRightBracket p' s' # ts) = Some (v, ts1)"
    "d_more C [v] ts1 = d_more C vs (Item itemRightBracket p' s' # ts)" using g_array(2) by blast
  then show ?case by simp
next
  case (g_more us vs us' v p s)
  obtain v1 ts1 where "d_value C (us @ Item itemComma p s # us' @ ts) = Some (v1, ts1)"
    "d_more C [v1] ts1 = d_more C vs (Item itemComma p s # us' @ ts)" using g_more(2) by blast
  then show ?case using g_more(4) [of ts] by simp
qed simp_all

lemma d_entries_sound:
  "d_entries C es ts = Some (es', ts') \<Longrightarrow> g_entries C w es \<Longrightarrow> \<exists>u. ts = u @ ts' \<and> g_entries C (w @ u) es' \<and> key_of ts' = None"
proof (induction "length ts" arbitrary: w es ts rule: less_induct)
  case less
  from less.prems(1) show ?case
  proof (cases rule: d_entries_step)
    case (2 p k p' e ts2 v ts3)
    obtain u where u: "ts2 = u @ ts3" "g_value C u v" using d_value_sound(1) [OF 2(2)] by blast
    let ?w = "w @ Item itemKey p k # Item itemEqual p' e # u"
    have "g_entries C ?w (AList.update k v es)" using less.prems(2) u(2) by (intro g_next_entry g_assign)
    then obtain u' where "ts3 = u' @ ts'" "g_entries C (?w @ u') es'" "key_of ts' = None"
      using less.hyps [OF _ 2(3)] d_shorter(1) [OF 2(2)] 2(1) by fastforce
    then show ?thesis using 2(1) u(1) by auto
  qed (use less.prems(2) in auto)
qed

lemma d_entries_complete:
  "g_entries C u es \<Longrightarrow> d_entries C [] (u @ ts) = d_entries C es ts"
proof (induction arbitrary: ts rule: g_entries.induct)
  case (g_next_entry us es us' k v)
  obtain w p p' e where w: "us' = Item itemKey p k # Item itemEqual p' e # w" "g_value C w v"
    using g_next_entry.hyps(2) by (cases rule: g_entry.cases) auto
  have "d_entries C es (us' @ ts) = d_entries C (AList.update k v es) ts"
    by (subst d_entries.simps) (simp add: w(1) d_value_complete(1) [OF w(2)])
  then show ?case using g_next_entry.IH by simp
qed simp

lemma d_keys_sound: "d_keys ks ts = (ks', ts') \<Longrightarrow> ks \<noteq> [] \<and> g_keys w ks \<or> ks = [] \<and> w = [] \<Longrightarrow>
    \<exists>u. ts = u @ ts' \<and> (if ks' = [] then w @ u = [] else g_keys (w @ u) ks') \<and> key_of ts' = None"
proof (induction ks ts arbitrary: w rule: d_keys.induct)
  case (1 ks p k ts)
  have "g_keys (w @ [Item itemKey p k]) (ks @ [k])" using 1(3) by (auto intro: g_keys.intros)
  then obtain u where "ts = u @ ts'" "if ks' = [] then (w @ [Item itemKey p k]) @ u = [] else g_keys ((w @ [Item itemKey p k]) @ u) ks'"
    "key_of ts' = None"
    using 1(1) [of "w @ [Item itemKey p k]"] 1(2) by (simp only: d_keys.simps) blast
  then show ?case by (auto split: if_splits)
qed auto

lemma d_keys_complete: "g_keys u ks \<Longrightarrow> d_keys [] (u @ ts) = d_keys ks ts"
  by (induction arbitrary: ts rule: g_keys.induct) simp_all

lemma g_keys_nonempty: "g_keys u ks \<Longrightarrow> ks \<noteq> []"
  by (induction rule: g_keys.induct) auto

lemma d_entries_stop: "key_of ts = None \<Longrightarrow> d_entries C es ts = Some (es, ts)"
  by (subst d_entries.simps) simp

lemma d_table_sound:
  assumes "d_table C ts = Some (a, ks, es, ts')"
  shows "\<exists>u. ts = u @ ts' \<and> g_table C u (a, ks, es) \<and> key_of ts' = None"
proof -
  obtain p s t ts0 k ks' p' s' t' ts1 where t: "ts = Item t p s # ts0" "d_keys [] ts0 = (k # ks', Item t' p' s' # ts1)"
    "d_entries C [] ts1 = Some (es, ts')" "ks = k # ks'"
    "(t = itemLeftBracket \<and> t' = itemRightBracket \<and> \<not> a) \<or> (t = itemLeftDoubleBracket \<and> t' = itemRightDoubleBracket \<and> a)"
    using assms by (cases "(C, ts)" rule: d_table.cases)
      (auto split: prod.splits list.splits item.splits itemType.splits)
  obtain u where u: "ts0 = u @ Item t' p' s' # ts1" "g_keys u ks"
    using d_keys_sound [OF t(2), of "[]"] t(4) by auto
  obtain u' where u': "ts1 = u' @ ts'" "g_entries C u' es" "key_of ts' = None"
    using d_entries_sound [OF t(3) g_no_entries] by auto
  show ?thesis
    using t(1,5) u(1) u' g_map [OF u(2) u'(2), of p s p' s'] g_maps [OF u(2) u'(2), of p s p' s'] by auto
qed

lemma d_table_complete:
  assumes "g_table C u (a, ks, es)" and "key_of ts = None"
  shows "d_table C (u @ ts) = Some (a, ks, es, ts) \<and> opens_table (u @ ts) \<and> key_of (u @ ts) = None"
  using assms(1)
proof (cases rule: g_table.cases)
  case (g_map w w' p s p' s')
  then have "d_keys [] (w @ Item itemRightBracket p' s' # w' @ ts) = (ks, Item itemRightBracket p' s' # w' @ ts)" "ks \<noteq> []"
    using d_keys_complete g_keys_nonempty by fastforce+
  moreover have "d_entries C [] (w' @ ts) = Some (es, ts)"
    using d_entries_complete [OF g_map(4)] d_entries_stop [OF assms(2)] by simp
  ultimately show ?thesis using g_map by (cases ks) simp_all
next
  case (g_maps w w' p s p' s')
  then have "d_keys [] (w @ Item itemRightDoubleBracket p' s' # w' @ ts) = (ks, Item itemRightDoubleBracket p' s' # w' @ ts)" "ks \<noteq> []"
    using d_keys_complete g_keys_nonempty by fastforce+
  moreover have "d_entries C [] (w' @ ts) = Some (es, ts)"
    using d_entries_complete [OF g_maps(4)] d_entries_stop [OF assms(2)] by simp
  ultimately show ?thesis using g_maps by (cases ks) simp_all
qed

lemma d_tables_sound:
  "d_tables C m ts = Some (m', ts') \<Longrightarrow> g_tables C w m \<Longrightarrow> \<exists>u. ts = u @ ts' \<and> g_tables C (w @ u) m' \<and> \<not> opens_table ts'"
proof (induction "length ts" arbitrary: w m ts rule: less_induct)
  case less
  show ?case
  proof (cases "opens_table ts")
    case True
    then obtain a ks es ts1 m1 where d: "d_table C ts = Some (a, ks, es, ts1)" "merge_table a ks (Some es) (Some m) = Ok (Some m1)"
      "d_tables C m1 ts1 = Some (m', ts')"
      using less.prems(1) by (subst (asm) d_tables.simps) (auto split: option.splits outcome.splits)
    obtain u where u: "ts = u @ ts1" "g_table C u (a, ks, es)" using d_table_sound [OF d(1)] by blast
    have "g_tables C (w @ u) m1" using less.prems(2) u(2) d(2) by (rule g_next_table)
    then obtain u' where "ts1 = u' @ ts'" "g_tables C ((w @ u) @ u') m'" "\<not> opens_table ts'"
      using less.hyps [OF d_table_shorter [OF d(1)] d(3)] by blast
    then show ?thesis using u(1) by (intro exI [of _ "u @ u'"]) simp
  next
    case False
    then show ?thesis using less.prems by (subst (asm) d_tables.simps) auto
  qed
qed

lemma d_tables_complete:
  "g_tables C u m \<Longrightarrow> key_of ts = None \<Longrightarrow> d_tables C [] (u @ ts) = d_tables C m ts \<and> key_of (u @ ts) = None"
proof (induction arbitrary: ts rule: g_tables.induct)
  case (g_next_table us m us' a ks es m')
  note t = d_table_complete [OF g_next_table(2) g_next_table.prems]
  have "d_tables C m (us' @ ts) = d_tables C m' ts"
    by (subst d_tables.simps) (simp add: t g_next_table(3))
  then show ?case using g_next_table.IH [of "us' @ ts"] t by simp
qed simp

text \<open>The whole input: what stands before the end of input is a document.\<close>

lemma at_end_stops: "at_end ts \<Longrightarrow> key_of ts = None \<and> \<not> opens_table ts"
  by (cases ts rule: at_end.cases) auto

lemma put_all_Some: "put_all es (Some m) = Ok (Some (fold (\<lambda>(k, v). AList.update k v) (range_of es) m))"
proof -
  have "fold_outcome (\<lambda>(k, v). map_put k v) xs (Some m) = Ok (Some (fold (\<lambda>(k, v). AList.update k v) xs m))" for xs :: "'a tmap"
    by (induction xs arbitrary: m) (auto simp: map_put_def)
  then show ?thesis by (simp add: put_all_def)
qed

lemma d_top_grammar: "d_top C ts = Some r \<longleftrightarrow> (\<exists>u ts'. ts = u @ ts' \<and> at_end ts' \<and> g_top C u r)"
proof
  assume "d_top C ts = Some r"
  then obtain es ts1 m ts2 where d: "d_entries C [] ts = Some (es, ts1)" "d_tables C [] ts1 = Some (m, ts2)" "at_end ts2"
    "put_all (Some es) (Some m) = Ok (Some r)"
    by (auto simp: d_top_def put_all_Some split: option.splits if_splits)
  obtain u where u: "ts = u @ ts1" "g_entries C u es" using d_entries_sound [OF d(1) g_no_entries] by auto
  obtain u' where u': "ts1 = u' @ ts2" "g_tables C u' m" using d_tables_sound [OF d(2) g_no_tables] by auto
  have "g_top C (u @ u') r" using u(2) u'(2) d(4) by (rule g_document)
  then show "\<exists>u ts'. ts = u @ ts' \<and> at_end ts' \<and> g_top C u r"
    using u(1) u'(1) d(3) by (intro exI [of _ "u @ u'"] exI [of _ ts2]) simp
next
  assume "\<exists>u ts'. ts = u @ ts' \<and> at_end ts' \<and> g_top C u r"
  then obtain us es us' m ts' where d: "ts = us @ us' @ ts'" "at_end ts'" "g_entries C us es" "g_tables C us' m"
    "put_all (Some es) (Some m) = Ok (Some r)"
    by (elim exE conjE g_top.cases) simp
  have t: "d_tables C [] (us' @ ts') = d_tables C m ts'" "key_of (us' @ ts') = None"
    using d_tables_complete [OF d(4), of ts'] at_end_stops [OF d(2)] by simp_all
  have "d_entries C [] ts = Some (es, us' @ ts')"
    by (simp add: d(1) d_entries_complete [OF d(3)] d_entries_stop [OF t(2)])
  moreover have "d_tables C [] (us' @ ts') = Some (m, ts')"
    using t at_end_stops [OF d(2)] by (simp add: d_tables.simps)
  ultimately show "d_top C ts = Some r" using d(2,5) by (simp add: d_top_def)
qed

end
