(* ===== verification/TomlAutomaton.thy ===== *)
theory TomlAutomaton
  imports TomlGrammar
begin

text \<open>
  The tables implement the grammar: from a stack and a list of tokens the automaton comes to the
  stack and the tokens that recursive descent leaves, or it reports an error. States are numbers of
  parser.go; a stack lists them from the top with what their slots carry.
\<close>

section \<open>Configurations\<close>

datatype 'f attr =
  ANone | AStr string | AEntries "'f tmap" | AEntry string "'f tvalue" | AValue "'f tvalue" | AValues "'f tvalue list"
| ATable bool "string list" "'f tmap" | ATables "'f tmap" | AKeys "string list"

fun carries :: "'f attr \<Rightarrow> 'f yySymType \<Rightarrow> bool" where
  "carries ANone x = True"
| "carries (AStr s) x = (sy_str x = s)"
| "carries (AEntries es) x = (sy_entries x = Some es)"
| "carries (AEntry k v) x = (sy_entry x = (k, v))"
| "carries (AValue v) x = (sy_value x = v)"
| "carries (AValues vs) x = (sy_values x = vs)"
| "carries (ATable a ks es) x = (sy_table x = \<lparr>tb_isArray = a, tb_keys = ks, tb_entries = Some es\<rparr>)"
| "carries (ATables m) x = (sy_tables x = Some m)"
| "carries (AKeys ks) x = (sy_keys x = ks)"

type_synonym 'f lrstack = "(int \<times> 'f attr) list"

definition holds :: "int \<times> 'f attr \<Rightarrow> 'f yySymType \<Rightarrow> bool" where
  "holds e x \<longleftrightarrow> sy_yys x = fst e \<and> carries (snd e) x \<and> 0 \<le> fst e \<and> fst e < 28"

definition on_stack :: "'f yyparser \<Rightarrow> 'f lrstack \<Rightarrow> bool" where
  "on_stack P st \<longleftrightarrow> st \<noteq> [] \<and> yp_p P = int (length st) - 1 \<and> length st \<le> length (yp_S P) \<and> yp_state P = fst (hd st) \<and>
     list_all2 holds (rev st) (take (length st) (yp_S P))"

definition token_of :: "itemType \<Rightarrow> int" where
  "token_of t = (if t = itemEOF then 1 else item_code t - 57342)"

fun ahead :: "item list \<Rightarrow> int" where
  "ahead (Item t p s # ts) = token_of t"
| "ahead _ = 1"

fun lexeme :: "item list \<Rightarrow> string" where
  "lexeme (Item t p s # ts) = s"
| "lexeme _ = []"

fun clean :: "item list \<Rightarrow> bool" where
  "clean (ErrItem p e # ts) = False"
| "clean _ = True"

definition on_input :: "'f yyparser \<Rightarrow> item list \<Rightarrow> bool" where
  "on_input P ts \<longleftrightarrow> yp_Errflag P = 0 \<and>
     (if yp_char P < 0 then px_items (yp_lex P) = ts \<and> px_err (yp_lex P) = None
      else px_items (yp_lex P) = tl ts \<and> yp_token P = ahead ts \<and> (clean ts \<and> ts \<noteq> [] \<longrightarrow> sy_str (yp_lval P) = lexeme ts) \<and>
        (px_err (yp_lex P) = None \<longleftrightarrow> clean ts))"

definition config :: "'f yyparser \<Rightarrow> 'f lrstack \<Rightarrow> item list \<Rightarrow> bool" where
  "config P st ts \<longleftrightarrow> on_stack P st \<and> on_input P ts"

text \<open>The automaton comes from one configuration to another; or it returns with an error.\<close>

definition goes :: "'f strconv \<Rightarrow> 'f lrstack \<times> item list \<Rightarrow> 'f lrstack \<times> item list \<Rightarrow> bool" where
  "goes C x y \<longleftrightarrow> (\<forall>P. config P (fst x) (snd x) \<longrightarrow> (\<exists>P'. yy_run C P = yy_run C P' \<and> config P' (fst y) (snd y)))"

definition fails :: "'f strconv \<Rightarrow> 'f lrstack \<times> item list \<Rightarrow> bool" where
  "fails C x \<longleftrightarrow> (\<forall>P. config P (fst x) (snd x) \<longrightarrow> (\<exists>r P'. yy_run C P = Some (Ok (r, P')) \<and> px_err (yp_lex P') \<noteq> None))"

lemma goes_refl [simp]: "goes C x x"
  by (auto simp: goes_def)

lemma goes_trans [trans]: "goes C x y \<Longrightarrow> goes C y z \<Longrightarrow> goes C x z"
  unfolding goes_def by metis

lemma goes_fails [trans]: "goes C x y \<Longrightarrow> fails C y \<Longrightarrow> fails C x"
  unfolding goes_def fails_def by metis

section \<open>One turn\<close>

lemma at_Ok: "at t i = Ok x \<longleftrightarrow> 0 \<le> i \<and> i < int (length t) \<and> t ! nat i = x"
  by (auto simp: at_def)

lemma yylex1_ahead:
  assumes "yylex1 lval l = (char, token, lval', l')" and "px_items l = ts" and "px_err l = None"
  shows "0 \<le> char \<and> px_items l' = tl ts \<and> token = ahead ts \<and> (clean ts \<and> ts \<noteq> [] \<longrightarrow> sy_str lval' = lexeme ts) \<and>
    (px_err l' = None \<longleftrightarrow> clean ts)"
proof (cases ts rule: ahead.cases)
  case (1 t p s ts')
  then show ?thesis using assms
    by (cases t) (auto simp: yylex1_def Lex_def nextItem_def Let_def yyTok1_def yyTok2_def yyPrivate_def token_of_def)
qed (use assms in \<open>auto simp: yylex1_def Lex_def nextItem_def Let_def yyTok1_def lexer_Error_def zero_sym_def token_of_def\<close>)

lemma fetch_config:
  assumes "config P st ts"
  shows "config (yy_fetch P) st ts \<and> 0 \<le> yp_char (yy_fetch P) \<and> yp_token (yy_fetch P) = ahead ts"
proof (cases "0 \<le> yp_char P")
  case True
  then show ?thesis using assms by (simp add: yy_fetch_def config_def on_input_def)
next
  case False
  obtain char token lval l where y: "yylex1 (yp_lval P) (yp_lex P) = (char, token, lval, l)" by (metis surj_pair)
  then show ?thesis using assms False yylex1_ahead [OF y]
    by (auto simp: yy_fetch_def config_def on_input_def on_stack_def)
qed

lemma push_config:
  assumes "list_all2 holds (rev st) (take (length st) (yp_S P))" and "length st \<le> length (yp_S P)" and "yp_p P = int (length st) - 1"
    and "length (yp_S P) \<noteq> 0" and "holds (yp_state P, a) ((yp_VAL P)\<lparr>sy_yys := yp_state P\<rparr>)"
  shows "\<exists>S. yy_push P = Ok (P\<lparr>yp_p := int (length st), yp_S := S\<rparr>) \<and> on_stack (P\<lparr>yp_p := int (length st), yp_S := S\<rparr>) ((yp_state P, a) # st)"
proof -
  let ?G = "yy_grow (int (length st)) (yp_S P)" and ?x = "(yp_VAL P)\<lparr>sy_yys := yp_state P\<rparr>"
  let ?S = "?G[length st := ?x]"
  have g: "length st < length ?G" "take (length st) ?G = take (length st) (yp_S P)"
    using assms(2,4) by (auto simp: yy_grow_def)
  have "take (Suc (length st)) ?S = take (length st) (yp_S P) @ [?x]"
    using g by (simp add: take_Suc_conv_app_nth)
  then have "on_stack (P\<lparr>yp_p := int (length st), yp_S := ?S\<rparr>) ((yp_state P, a) # st)"
    using assms(1,5) g(1) by (simp add: on_stack_def list_all2_appendI)
  moreover have "yy_push P = Ok (P\<lparr>yp_p := int (length st), yp_S := ?S\<rparr>)"
    using g(1) assms(3) by (simp add: yy_push_def Let_def at_def)
  ultimately show ?thesis by blast
qed

text \<open>The entries of the tables that index tables are in range.\<close>

lemma act_in_range:
  assumes "0 \<le> i" and "i < 28"
  shows "at yyAct i = Ok (yyAct ! nat i)" and "0 \<le> yyAct ! nat i" and "yyAct ! nat i < 28"
proof -
  have "list_all (\<lambda>x. 0 \<le> x \<and> x < 28) yyAct" "length yyAct = 28" by (simp_all add: yyAct_def)
  then show "at yyAct i = Ok (yyAct ! nat i)" "0 \<le> yyAct ! nat i" "yyAct ! nat i < 28"
    using assms by (simp_all add: at_def list_all_length)
qed

lemma chk_in_range: "0 \<le> i \<Longrightarrow> i < 28 \<Longrightarrow> at yyChk i = Ok (yyChk ! nat i)"
  by (simp add: at_def yyChk_def)

lemma pact_in_range: "0 \<le> i \<Longrightarrow> i < 28 \<Longrightarrow> at yyPact i = Ok (yyPact ! nat i)"
  by (simp add: at_def yyPact_def)

lemma def_in_range: "0 \<le> i \<Longrightarrow> i < 28 \<Longrightarrow> at yyDef i = Ok (yyDef ! nat i)"
  by (simp add: at_def yyDef_def)

definition shifts :: "int \<Rightarrow> int \<Rightarrow> int option" where
  "shifts s t =
     (let i = yyPact ! nat s + t in
      if yyPact ! nat s \<le> -1000 \<or> i < 0 \<or> 28 \<le> i \<or> yyChk ! nat (yyAct ! nat i) \<noteq> t then None else Some (yyAct ! nat i))"

lemma config_top: "config P ((s, a) # st) ts \<Longrightarrow> yp_state P = s \<and> 0 \<le> s \<and> s < 28"
proof -
  assume c: "config P ((s, a) # st) ts"
  then have "list_all2 holds (rev st @ [(s, a)]) (take (Suc (length st)) (yp_S P))" by (simp add: config_def on_stack_def)
  then obtain xs y where "holds (s, a) y" by (auto simp: list_all2_append1 list_all2_Cons1)
  then show ?thesis using c by (simp add: holds_def config_def on_stack_def)
qed

text \<open>What is pushed on a stack whatever the top state is.\<close>

lemma pushed_on:
  assumes "on_stack (P\<lparr>yp_state := s\<rparr>) st" and "holds (yp_state P, a) ((yp_VAL P)\<lparr>sy_yys := yp_state P\<rparr>)"
  shows "\<exists>S. yy_push P = Ok (P\<lparr>yp_p := int (length st), yp_S := S\<rparr>) \<and> on_stack (P\<lparr>yp_p := int (length st), yp_S := S\<rparr>) ((yp_state P, a) # st)"
proof -
  have "yp_S P \<noteq> []" using assms(1) by (cases st) (auto simp: on_stack_def)
  then show ?thesis using assms by (intro push_config) (auto simp: on_stack_def)
qed

lemma turn_shift:
  assumes "config P ((s, a) # st) (Item t p v # ts)" and "shifts s (token_of t) = Some s'"
  shows "\<exists>P'. yy_turn C P = Ok (Goto P') \<and> config P' ((s', AStr v) # (s, a) # st) ts"
proof -
  let ?P = "yy_fetch P" and ?i = "yyPact ! nat s + token_of t"
  have sh: "\<not> yyPact ! nat s \<le> -1000" "0 \<le> ?i" "?i < 28" "yyChk ! nat s' = token_of t" "yyAct ! nat ?i = s'"
    using assms(2) by (auto simp: shifts_def Let_def split: if_splits)
  have f: "config ?P ((s, a) # st) (Item t p v # ts)" "yp_token ?P = token_of t" "0 \<le> yp_char ?P"
    using fetch_config [OF assms(1)] by simp_all
  have s': "0 \<le> s'" "s' < 28" using act_in_range(2,3) [of ?i] sh(2,3,5) by auto
  let ?Q = "?P\<lparr>yp_char := -1, yp_token := -1, yp_VAL := yp_lval ?P, yp_state := s', yp_Errflag := yp_Errflag ?P - 1\<rparr>"
  have st: "on_stack ?P ((s, a) # st)" "sy_str (yp_lval ?P) = v" "px_items (yp_lex ?P) = ts" "px_err (yp_lex ?P) = None"
      "yp_Errflag ?P = 0"
    using f by (auto simp: config_def on_input_def)
  obtain S where p: "yy_push ?Q = Ok (?Q\<lparr>yp_p := int (length ((s, a) # st)), yp_S := S\<rparr>)"
    "on_stack (?Q\<lparr>yp_p := int (length ((s, a) # st)), yp_S := S\<rparr>) ((yp_state ?Q, AStr v) # (s, a) # st)"
    using pushed_on [where s = "yp_state ?P" and P = ?Q and st = "(s, a) # st" and a = "AStr v"] st(1,2) s' by (auto simp: holds_def on_stack_def)
  have "yy_turn C P = Ok (Goto (?Q\<lparr>yp_p := int (length ((s, a) # st)), yp_S := S\<rparr>))"
    using config_top [OF assms(1)] sh s' p(1) f(2)
    by (simp add: yy_turn_def pact_in_range yy_shift_def Let_def yyLast_def act_in_range chk_in_range)
  moreover have "config (?Q\<lparr>yp_p := int (length ((s, a) # st)), yp_S := S\<rparr>) ((s', AStr v) # (s, a) # st) ts"
    using p(2) st by (simp add: config_def on_input_def)
  ultimately show ?thesis by blast
qed

lemma turn_default:
  assumes "config P ((s, a) # st) ts" and "shifts s (ahead ts) = None"
  shows "\<exists>P1. config P1 ((s, a) # st) ts \<and> yy_turn C P = yy_default C P1 \<and> (0 \<le> yp_char P1 \<or> yyPact ! nat s \<le> -1000)"
proof (cases "yyPact ! nat s \<le> -1000")
  case True
  then show ?thesis using assms(1) config_top [OF assms(1)] by (intro exI [of _ P]) (simp add: yy_turn_def pact_in_range)
next
  case False
  let ?P = "yy_fetch P"
  have f: "config ?P ((s, a) # st) ts" "yp_token ?P = ahead ts" "0 \<le> yp_char ?P" using fetch_config [OF assms(1)] by simp_all
  let ?i = "yyPact ! nat s + ahead ts"
  have "yy_shift (yyPact ! nat s) ?P = Ok None"
  proof (cases "?i < 0 \<or> 28 \<le> ?i")
    case True
    then show ?thesis using f(2) by (auto simp: yy_shift_def Let_def yyLast_def)
  next
    case in_range: False
    then have "yyChk ! nat (yyAct ! nat ?i) \<noteq> ahead ts" using False assms(2) by (auto simp: shifts_def Let_def split: if_splits)
    then show ?thesis using in_range f(2) by (simp add: yy_shift_def Let_def yyLast_def act_in_range chk_in_range)
  qed
  then show ?thesis using f False config_top [OF assms(1)] by (intro exI [of _ ?P]) (simp add: yy_turn_def pact_in_range Let_def)
qed

section \<open>Reductions\<close>

definition act_ok :: "'f strconv \<Rightarrow> int \<Rightarrow> 'f lrstack \<Rightarrow> 'f attr \<Rightarrow> bool" where
  "act_ok C n xs a \<longleftrightarrow> (\<forall>d v. (\<forall>i<length xs. carries (snd (rev xs ! i)) (d (Suc i))) \<longrightarrow>
     (\<exists>v'. yy_action C n d v = Ok (v', None) \<and> carries a v'))"

definition act_err :: "'f strconv \<Rightarrow> int \<Rightarrow> 'f lrstack \<Rightarrow> bool" where
  "act_err C n xs \<longleftrightarrow> (\<forall>d v. (\<forall>i<length xs. carries (snd (rev xs ! i)) (d (Suc i))) \<longrightarrow>
     (\<exists>e. yy_action C n d v = Err e))"

lemma act_okD:
  "act_ok C n xs a \<Longrightarrow> \<forall>i<length xs. carries (snd (rev xs ! i)) (d (Suc i)) \<Longrightarrow> \<exists>v'. yy_action C n d v = Ok (v', None) \<and> carries a v'"
  unfolding act_ok_def by blast

lemma act_errD:
  "act_err C n xs \<Longrightarrow> \<forall>i<length xs. carries (snd (rev xs ! i)) (d (Suc i)) \<Longrightarrow> \<exists>e. yy_action C n d v = Err e"
  unfolding act_err_def by blast

text \<open>The part of the stack array under and in the handle, whether or not the array grew.\<close>

lemma handle:
  assumes "on_stack P (xs @ (b, a0) # st)"
  defines "p \<equiv> yp_p P - int (length xs)" and "S \<equiv> yy_grow (yp_p P - int (length xs) + 1) (yp_S P)"
  shows "at S (p + 1) = Ok (S ! nat (p + 1))" and "at S p = Ok (S ! nat p)" and "sy_yys (S ! nat p) = b" and "p = int (length st)"
    and "\<forall>i<length xs. carries (snd (rev xs ! i)) (S ! nat (p + int (Suc i)))"
    and "list_all2 holds (rev ((b, a0) # st)) (take (Suc (length st)) S)" and "Suc (length st) \<le> length S"
proof -
  let ?n = "length xs" and ?m = "length st"
  have s: "yp_p P = int (?n + ?m)" "?n + Suc ?m \<le> length (yp_S P)"
    "list_all2 holds (rev st @ (b, a0) # rev xs) (take (?n + Suc ?m) (yp_S P))"
    using assms(1) by (simp_all add: on_stack_def)
  show p: "p = int ?m" using s(1) by (simp add: p_def)
  have len: "Suc ?m \<le> length S" "Suc ?m < length S" "take (length (yp_S P)) S = yp_S P"
    using s(1,2) by (auto simp: S_def yy_grow_def)
  have pre: "take (?n + Suc ?m) S = take (?n + Suc ?m) (yp_S P)"
    using s(2) len(3) by (metis min.absorb1 take_take)
  have l2: "list_all2 holds (rev st @ (b, a0) # rev xs) (take (?n + Suc ?m) S)" using s(3) pre by simp
  show "at S (p + 1) = Ok (S ! nat (p + 1))" "at S p = Ok (S ! nat p)" using len(2) p by (simp_all add: at_def nat_add_distrib)
  have nth: "holds ((rev st @ (b, a0) # rev xs) ! i) (S ! i)" if "i < ?n + Suc ?m" for i
    using list_all2_nthD [OF l2, of i] that by simp
  show "sy_yys (S ! nat p) = b" using nth [of ?m] p by (simp add: nth_append holds_def)
  show "\<forall>i<length xs. carries (snd (rev xs ! i)) (S ! nat (p + int (Suc i)))"
  proof (intro allI impI)
    fix i assume i: "i < ?n"
    have "nat (p + int (Suc i)) = Suc (?m + i)" using p by simp
    then show "carries (snd (rev xs ! i)) (S ! nat (p + int (Suc i)))"
      using nth [of "Suc (?m + i)"] i by (simp add: nth_append holds_def)
  qed
  have "take (Suc ?m) (take (?n + Suc ?m) S) = take (Suc ?m) S" by simp
  moreover have "list_all2 holds (take (Suc ?m) (rev st @ (b, a0) # rev xs)) (take (Suc ?m) (take (?n + Suc ?m) S))"
    using l2 by (rule list_all2_takeI)
  ultimately show "list_all2 holds (rev ((b, a0) # st)) (take (Suc (length st)) S)" by simp
  show "Suc (length st) \<le> length S" by (rule len(1))
qed

lemma rule_in_range: "0 \<le> n \<Longrightarrow> n < 17 \<Longrightarrow> at yyR1 n = Ok (yyR1 ! nat n) \<and> at yyR2 n = Ok (yyR2 ! nat n)"
  by (simp add: at_def yyR1_def yyR2_def)

lemma reduce_unfold:
  assumes "on_stack P (xs @ (b, a0) # st)" and "0 \<le> n" and "n < 17" and "yyR2 ! nat n = int (length xs)"
    and "yy_goto (yyR1 ! nat n) b = Ok s'"
  defines "S \<equiv> yy_grow (yp_p P - int (length xs) + 1) (yp_S P)" and "p \<equiv> yp_p P - int (length xs)"
  shows "yy_reduce C n P =
    (case yy_action C n (\<lambda>i. S ! nat (p + int i)) (S ! nat (p + 1)) of
       Ok (v, res) \<Rightarrow>
         bind_outcome (yy_push (P\<lparr>yp_p := p, yp_S := S, yp_state := s', yp_VAL := v,
             yp_lex := (case res of None \<Rightarrow> yp_lex P | Some r \<Rightarrow> (yp_lex P)\<lparr>px_result := r\<rparr>)\<rparr>)) (\<lambda>P'. Ok (Goto P'))
     | Err e \<Rightarrow> Ok (Return 1 (P\<lparr>yp_lex := lexer_Error e (yp_lex P)\<rparr>))
     | Panic \<Rightarrow> Panic)"
  using handle(1-3) [OF assms(1)] assms(2-5) rule_in_range [OF assms(2,3)]
  unfolding S_def p_def by (simp add: yy_reduce_def Let_def at_def split: if_splits)

lemma reduce_pushed:
  assumes "on_stack P (xs @ (b, a0) # st)" and "carries a v" and "0 \<le> s'" and "s' < 28"
  defines "S \<equiv> yy_grow (yp_p P - int (length xs) + 1) (yp_S P)" and "p \<equiv> yp_p P - int (length xs)"
  shows "\<exists>P'. yy_push (P\<lparr>yp_p := p, yp_S := S, yp_state := s', yp_VAL := v, yp_lex := l\<rparr>) = Ok P' \<and>
    on_stack P' ((s', a) # (b, a0) # st) \<and> yp_lex P' = l \<and> yp_char P' = yp_char P \<and> yp_token P' = yp_token P \<and>
    yp_lval P' = yp_lval P \<and> yp_Errflag P' = yp_Errflag P"
proof -
  let ?P = "P\<lparr>yp_p := p, yp_S := S, yp_state := s', yp_VAL := v, yp_lex := l\<rparr>"
  note h = handle(4,6,7) [OF assms(1), folded S_def p_def]
  have "holds (s', a) (v\<lparr>sy_yys := s'\<rparr>)" using assms(2-4) by (cases a) (auto simp: holds_def)
  moreover have "on_stack (?P\<lparr>yp_state := b\<rparr>) ((b, a0) # st)" using h by (simp add: on_stack_def)
  ultimately show ?thesis using pushed_on [of b ?P "(b, a0) # st" a] by auto
qed

lemma reduce_ok:
  assumes "config P (xs @ (b, a0) # st) ts" and "0 \<le> n" and "n < 17" and "yyR2 ! nat n = int (length xs)"
    and "yy_goto (yyR1 ! nat n) b = Ok s'" and "0 \<le> s'" and "s' < 28" and "act_ok C n xs a"
  shows "\<exists>P'. yy_reduce C n P = Ok (Goto P') \<and> config P' ((s', a) # (b, a0) # st) ts"
proof -
  have o: "on_stack P (xs @ (b, a0) # st)" "on_input P ts" using assms(1) by (auto simp: config_def)
  let ?S = "yy_grow (yp_p P - int (length xs) + 1) (yp_S P)" and ?p = "yp_p P - int (length xs)"
  obtain v where v: "yy_action C n (\<lambda>i. ?S ! nat (?p + int i)) (?S ! nat (?p + 1)) = Ok (v, None)" "carries a v"
    using act_okD [OF assms(8), of "\<lambda>i. ?S ! nat (?p + int i)" "?S ! nat (?p + 1)"] handle(5) [OF o(1)] by blast
  show ?thesis
    using reduce_pushed [OF o(1) v(2) assms(6,7), of "yp_lex P"] o(2)
    by (auto simp: reduce_unfold [OF o(1) assms(2-5)] v(1) config_def on_input_def)
qed

lemma reduce_err:
  assumes "config P (xs @ (b, a0) # st) ts" and "0 \<le> n" and "n < 17" and "yyR2 ! nat n = int (length xs)"
    and "yy_goto (yyR1 ! nat n) b = Ok s'" and "act_err C n xs"
  shows "\<exists>P'. yy_reduce C n P = Ok (Return 1 P') \<and> px_err (yp_lex P') \<noteq> None"
proof -
  have o: "on_stack P (xs @ (b, a0) # st)" using assms(1) by (auto simp: config_def)
  let ?S = "yy_grow (yp_p P - int (length xs) + 1) (yp_S P)" and ?p = "yp_p P - int (length xs)"
  obtain e where "yy_action C n (\<lambda>i. ?S ! nat (?p + int i)) (?S ! nat (?p + 1)) = Err e"
    using act_errD [OF assms(6), of "\<lambda>i. ?S ! nat (?p + int i)" "?S ! nat (?p + 1)"] handle(5) [OF o] by blast
  then show ?thesis by (simp add: reduce_unfold [OF o assms(2-5)] lexer_Error_def)
qed

text \<open>No state shifts the error token, so an error ends the run.\<close>

lemma no_recovery: "n \<le> length S \<Longrightarrow> \<forall>x\<in>set (take n S). 0 \<le> sy_yys x \<and> sy_yys x < 28 \<Longrightarrow> yy_recover S n = Ok None"
proof (induction n)
  case (Suc n)
  let ?s = "sy_yys (S ! n)"
  have s: "0 \<le> ?s" "?s < 28" using Suc.prems by (auto simp: take_Suc_conv_app_nth)
  have "list_all (\<lambda>p. 0 \<le> p + 2 \<and> p + 2 < 28 \<longrightarrow> yyChk ! nat (yyAct ! nat (p + 2)) \<noteq> 2) yyPact" "length yyPact = 28"
    by (simp_all add: yyPact_def yyAct_def yyChk_def)
  then have no: "0 \<le> yyPact ! nat ?s + 2 \<and> yyPact ! nat ?s + 2 < 28 \<longrightarrow> yyChk ! nat (yyAct ! nat (yyPact ! nat ?s + 2)) \<noteq> 2"
    using s by (simp add: list_all_length)
  have "yy_recover S n = Ok None" using Suc by (auto simp: take_Suc_conv_app_nth)
  then show ?case using Suc.prems(1) s no
    by (simp add: at_def [of S] pact_in_range Let_def yyLast_def act_in_range chk_in_range)
qed simp

lemma live_states:
  assumes "list_all2 holds xs ys"
  shows "\<forall>y\<in>set ys. 0 \<le> sy_yys y \<and> sy_yys y < 28"
  using assms by (induction rule: list_all2_induct) (auto simp: holds_def)

lemma error_turn:
  assumes "config P st ts"
  shows "\<exists>P'. yy_error P = Ok (Return 1 P') \<and> px_err (yp_lex P') \<noteq> None"
proof -
  have "yp_Errflag P = 0" "nat (yp_p P + 1) = length st" using assms by (auto simp: config_def on_input_def on_stack_def)
  moreover have "yy_recover (yp_S P) (length st) = Ok None"
    using assms live_states [of "rev st" "take (length st) (yp_S P)"] by (intro no_recovery) (auto simp: config_def on_stack_def)
  ultimately show ?thesis by (simp add: yy_error_def Let_def lexer_Error_def)
qed

section \<open>The moves\<close>

lemma run_goto: "yy_turn C P = Ok (Goto P') \<Longrightarrow> yy_run C P = yy_run C P'"
  by (subst yy_run.simps) simp

lemma run_return: "yy_turn C P = Ok (Return r P') \<Longrightarrow> yy_run C P = Some (Ok (r, P'))"
  by (subst yy_run.simps) simp

lemma goes_shift:
  assumes "shifts s (token_of t) = Some s'"
  shows "goes C ((s, a) # st, Item t p v # ts) ((s', AStr v) # (s, a) # st, ts)"
  unfolding goes_def fst_conv snd_conv
proof (intro allI impI)
  fix P assume "config P ((s, a) # st) (Item t p v # ts)"
  from turn_shift [OF this assms] show "\<exists>P'. yy_run C P = yy_run C P' \<and> config P' ((s', AStr v) # (s, a) # st) ts"
    using run_goto by blast
qed

definition reduces :: "int \<Rightarrow> int \<Rightarrow> item list \<Rightarrow> 'f lrstack \<Rightarrow> int \<Rightarrow> int \<Rightarrow> bool" where
  "reduces s n ts xs b s' \<longleftrightarrow> shifts s (ahead ts) = None \<and> yyDef ! nat s = n \<and> 0 < n \<and> n < 17 \<and> yyR2 ! nat n = int (length xs) \<and>
     yy_goto (yyR1 ! nat n) b = Ok s' \<and> 0 \<le> s' \<and> s' < 28 \<and> s = (if xs = [] then b else fst (hd xs))"

lemma default_reduces:
  assumes "config P (xs @ (b, a0) # st) ts" and "reduces s n ts xs b s'"
  shows "\<exists>P1. config P1 (xs @ (b, a0) # st) ts \<and> yy_turn C P = yy_reduce C n P1"
proof -
  obtain a1 st1 where e: "xs @ (b, a0) # st = (s, a1) # st1"
    using assms(2) by (cases xs) (auto simp: reduces_def)
  have c: "config P ((s, a1) # st1) ts" using assms(1) by (simp only: e)
  obtain P1 where p: "config P1 ((s, a1) # st1) ts" "yy_turn C P = yy_default C P1"
    using turn_default [OF c] assms(2) by (auto simp: reduces_def)
  then show ?thesis using assms(2) config_top [OF p(1)] unfolding e
    by (intro exI [of _ P1]) (auto simp: yy_default_def def_in_range reduces_def)
qed

lemma goes_reduce:
  assumes "reduces s n ts xs b s'" and "act_ok C n xs a"
  shows "goes C (xs @ (b, a0) # st, ts) ((s', a) # (b, a0) # st, ts)"
  unfolding goes_def fst_conv snd_conv
proof (intro allI impI)
  fix P assume "config P (xs @ (b, a0) # st) ts"
  from default_reduces [OF this assms(1)] obtain P1 where p: "config P1 (xs @ (b, a0) # st) ts" "yy_turn C P = yy_reduce C n P1" by blast
  then obtain P' where "yy_reduce C n P1 = Ok (Goto P')" "config P' ((s', a) # (b, a0) # st) ts"
    using reduce_ok [OF p(1) _ _ _ _ _ _ assms(2)] assms(1) by (auto simp: reduces_def)
  then show "\<exists>P'. yy_run C P = yy_run C P' \<and> config P' ((s', a) # (b, a0) # st) ts"
    using run_goto p(2) by metis
qed

lemma fails_reduce:
  assumes "reduces s n ts xs b s'" and "act_err C n xs"
  shows "fails C (xs @ (b, a0) # st, ts)"
  unfolding fails_def fst_conv snd_conv
proof (intro allI impI)
  fix P assume "config P (xs @ (b, a0) # st) ts"
  from default_reduces [OF this assms(1)] obtain P1 where p: "config P1 (xs @ (b, a0) # st) ts" "yy_turn C P = yy_reduce C n P1" by blast
  then obtain P' where "yy_reduce C n P1 = Ok (Return 1 P')" "px_err (yp_lex P') \<noteq> None"
    using reduce_err [OF p(1) _ _ _ _ assms(2)] assms(1) by (auto simp: reduces_def)
  then show "\<exists>r P'. yy_run C P = Some (Ok (r, P')) \<and> px_err (yp_lex P') \<noteq> None"
    using run_return p(2) by metis
qed

lemma fails_error:
  assumes "shifts s (ahead ts) = None" and "yyDef ! nat s = 0"
  shows "fails C ((s, a) # st, ts)"
  unfolding fails_def fst_conv snd_conv
proof (intro allI impI)
  fix P assume c: "config P ((s, a) # st) ts"
  obtain P1 where p: "config P1 ((s, a) # st) ts" "yy_turn C P = yy_default C P1" using turn_default [OF c assms(1)] by blast
  then have "yy_turn C P = yy_error P1" using config_top [OF p(1)] assms(2) by (simp add: yy_default_def def_in_range)
  then show "\<exists>r P'. yy_run C P = Some (Ok (r, P')) \<and> px_err (yp_lex P') \<noteq> None"
    using error_turn [OF p(1)] run_return by metis
qed

text \<open>The shifts and gotos of the tables.\<close>

definition shift_table :: "((int \<times> int) \<times> int) list" where
  "shift_table = [((2, 6), 5), ((3, 7), 7), ((3, 8), 8), ((5, 12), 9), ((7, 6), 11), ((8, 6), 11),
     ((9, 5), 14), ((9, 13), 15), ((9, 14), 16), ((9, 7), 17), ((10, 6), 19), ((10, 9), 18), ((12, 6), 19), ((12, 10), 20),
     ((17, 5), 14), ((17, 13), 15), ((17, 14), 16), ((17, 7), 17), ((21, 9), 25), ((21, 11), 26), ((23, 6), 5), ((24, 6), 5),
     ((26, 5), 14), ((26, 13), 15), ((26, 14), 16), ((26, 7), 17)]"

lemma shifts_table: "1 \<le> t \<Longrightarrow> t \<le> 14 \<Longrightarrow> 0 \<le> s \<Longrightarrow> s < 28 \<Longrightarrow> shifts s t = map_of shift_table (s, t)"
proof -
  have "list_all (\<lambda>s. list_all (\<lambda>t. shifts s t = map_of shift_table (s, t)) [1..14]) [0..27]" by code_simp
  then show "1 \<le> t \<Longrightarrow> t \<le> 14 \<Longrightarrow> 0 \<le> s \<Longrightarrow> s < 28 \<Longrightarrow> ?thesis" by (simp add: list_all_iff)
qed

lemma token_range: "1 \<le> token_of t" "token_of t \<le> 14"
  by (cases t; simp add: token_of_def)+

lemma ahead_range: "1 \<le> ahead ts" "ahead ts \<le> 14"
  by (cases ts rule: ahead.cases; simp add: token_range)+

lemma ahead_token: "ahead ts = token_of t \<Longrightarrow> t \<noteq> itemEOF \<Longrightarrow> \<exists>p s ts'. ts = Item t p s # ts'"
proof (cases ts rule: ahead.cases)
  case (1 t' p s ts')
  moreover have "token_of t' = token_of t \<longleftrightarrow> t' = t" by (cases t'; cases t; simp add: token_of_def)
  ultimately show "ahead ts = token_of t \<Longrightarrow> ?thesis" by simp
qed (cases t; simp add: token_of_def)+

lemma shifts_ahead: "0 \<le> s \<Longrightarrow> s < 28 \<Longrightarrow> shifts s (ahead ts) = map_of shift_table (s, ahead ts)"
  by (rule shifts_table) (rule ahead_range)+

lemmas tables = yyDef_def yyR1_def yyR2_def yyPgo_def yyAct_def yyChk_def yyLast_def

text \<open>What the actions carry.\<close>

lemma acts:
  "act_ok C 2 [] (ATables [])"
  "act_ok C 4 [(s4, AEntries es), (s3, a3), (s2, AKeys ks), (s1, a1)] (ATable False ks es)"
  "act_ok C 5 [(s4, AEntries es), (s3, a3), (s2, AKeys ks), (s1, a1)] (ATable True ks es)"
  "act_ok C 6 [(s1, AStr k)] (AKeys [k])"
  "act_ok C 7 [(s2, AStr k), (s1, AKeys ks)] (AKeys (ks @ [k]))"
  "act_ok C 8 [] (AEntries [])"
  "act_ok C 9 [(s2, AEntry k v), (s1, AEntries es)] (AEntries (AList.update k v es))"
  "act_ok C 10 [(s3, AValue v), (s2, a2), (s1, AStr k)] (AEntry k v)"
  "act_ok C 11 [(s1, AStr w)] (AValue (VBool (w = ''true'')))"
  "number_value C w = Ok n \<Longrightarrow> act_ok C 12 [(s1, AStr w)] (AValue n)"
  "sc_Unquote C w = Some u \<Longrightarrow> act_ok C 13 [(s1, AStr w)] (AValue (VString u))"
  "act_ok C 14 [(s3, a3), (s2, AValues vs), (s1, a1)] (AValue (VArray vs))"
  "act_ok C 15 [(s1, AValue v)] (AValues [v])"
  "act_ok C 16 [(s3, AValue v), (s2, a2), (s1, AValues vs)] (AValues (vs @ [v]))"
  "merge_table a ks (Some es) (Some m) = Ok (Some m') \<Longrightarrow> act_ok C 3 [(s2, ATable a ks es), (s1, ATables m)] (ATables m')"
  by (simp_all add: act_ok_def yy_action_def All_less_Suc eval_nat_numeral map_put_def)

lemma acts_err:
  "number_value C w = Err e \<Longrightarrow> act_err C 12 [(s1, AStr w)]"
  "sc_Unquote C w = None \<Longrightarrow> act_err C 13 [(s1, AStr w)]"
  "merge_table a ks (Some es) (Some m) = Err e \<Longrightarrow> act_err C 3 [(s2, ATable a ks es), (s1, ATables m)]"
  by (simp_all add: act_err_def yy_action_def All_less_Suc eval_nat_numeral)

section \<open>Values\<close>

text \<open>The states in which a value begins, and where they go with it.\<close>

definition value_goto :: "int \<Rightarrow> int" where
  "value_goto s = (if s = 9 then 13 else if s = 17 then 22 else 27)"

lemma goto_value: "s \<in> {9, 17, 26} \<Longrightarrow> yy_goto 3 s = Ok (value_goto s)"
  by (auto simp: yy_goto_def at_def tables value_goto_def Let_def)

lemma value_reduces:
  assumes "s \<in> {9, 17, 26}"
  shows "reduces 14 11 ts [(14, a)] s (value_goto s)" "reduces 15 12 ts [(15, a)] s (value_goto s)"
    "reduces 16 13 ts [(16, a)] s (value_goto s)" "reduces 25 14 ts [(25, a), (21, a'), (17, a'')] s (value_goto s)"
    and "reduces 22 15 ts [(22, a)] 17 21" and "reduces 27 16 ts [(27, a), (26, a'), (21, a'')] 17 21"
proof -
  have g: "yy_goto 3 s = Ok (value_goto s)" "0 \<le> value_goto s" "value_goto s < 28" "yy_goto 4 17 = Ok 21"
    using goto_value [OF assms] by (simp_all add: value_goto_def yy_goto_def at_def tables Let_def)
  show "reduces 14 11 ts [(14, a)] s (value_goto s)" "reduces 15 12 ts [(15, a)] s (value_goto s)"
    "reduces 16 13 ts [(16, a)] s (value_goto s)" "reduces 25 14 ts [(25, a), (21, a'), (17, a'')] s (value_goto s)"
    "reduces 22 15 ts [(22, a)] 17 21" "reduces 27 16 ts [(27, a), (26, a'), (21, a'')] 17 21"
    by (simp_all add: reduces_def g shifts_ahead shift_table_def, simp_all add: yyDef_def yyR1_def yyR2_def g)
qed

lemma value_shifts:
  assumes "s \<in> {9, 17, 26}"
  shows "shifts s (token_of itemBool) = Some 14" "shifts s (token_of itemNumber) = Some 15"
    "shifts s (token_of itemString) = Some 16" "shifts s (token_of itemLeftBracket) = Some 17"
  using assms by (auto simp: shifts_table shift_table_def token_of_def)

definition value_done :: "'f strconv \<Rightarrow> 'f lrstack \<Rightarrow> item list \<Rightarrow> ('f tvalue \<times> item list) option \<Rightarrow> int \<Rightarrow> 'f attr \<Rightarrow> 'f lrstack \<Rightarrow> bool" where
  "value_done C st ts r s a st' \<longleftrightarrow> (case r of
     Some (v, ts') \<Rightarrow> goes C (st, ts) ((value_goto s, AValue v) # (s, a) # st', ts') | None \<Rightarrow> fails C (st, ts))"

lemma value_sim:
  "s \<in> {9, 17, 26} \<Longrightarrow> value_done C ((s, a) # st) ts (d_value C ts) s a st"
  "s \<in> {9, 17, 26} \<Longrightarrow> value_done C ((21, AValues vs) # (17, b) # (s, a) # st) ts
     (map_option (\<lambda>(vs', ts'). (VArray vs', ts')) (d_more C vs ts)) s a st"
proof (induction C ts and C vs ts arbitrary: s a st and s a b st rule: d_value_d_more.induct)
  case (1 C p w ts)
  have "goes C ((s, a) # st, Item itemBool p w # ts) ((14, AStr w) # (s, a) # st, ts)"
    by (rule goes_shift) (rule value_shifts [OF 1])
  also have "goes C \<dots> ((value_goto s, AValue (VBool (w = ''true''))) # (s, a) # st, ts)"
    using goes_reduce [OF value_reduces(1) [OF 1] acts(9), of C] by simp
  finally show ?case by (simp add: value_done_def)
next
  case (2 C p w ts)
  have sh: "goes C ((s, a) # st, Item itemNumber p w # ts) ((15, AStr w) # (s, a) # st, ts)"
    by (rule goes_shift) (rule value_shifts [OF 2])
  show ?case
  proof (cases "number_value C w")
    case (Ok n)
    note sh
    also have "goes C ((15, AStr w) # (s, a) # st, ts) ((value_goto s, AValue n) # (s, a) # st, ts)"
      using goes_reduce [OF value_reduces(2) [OF 2] acts(10) [OF Ok]] by simp
    finally show ?thesis by (simp add: value_done_def Ok)
  next
    case (Err e)
    have "fails C ((15, AStr w) # (s, a) # st, ts)" using fails_reduce [OF value_reduces(2) [OF 2] acts_err(1) [OF Err]] by simp
    then show ?thesis using goes_fails [OF sh] by (simp add: value_done_def Err)
  next
    case Panic
    then show ?thesis by (auto simp: number_value_def split: if_splits option.splits)
  qed
next
  case (3 C p w ts)
  have sh: "goes C ((s, a) # st, Item itemString p w # ts) ((16, AStr w) # (s, a) # st, ts)"
    by (rule goes_shift) (rule value_shifts [OF 3])
  show ?case
  proof (cases "sc_Unquote C w")
    case (Some u)
    note sh
    also have "goes C ((16, AStr w) # (s, a) # st, ts) ((value_goto s, AValue (VString u)) # (s, a) # st, ts)"
      using goes_reduce [OF value_reduces(3) [OF 3] acts(11) [OF Some]] by simp
    finally show ?thesis by (simp add: value_done_def Some)
  next
    case None
    have "fails C ((16, AStr w) # (s, a) # st, ts)" using fails_reduce [OF value_reduces(3) [OF 3] acts_err(2) [OF None]] by simp
    then show ?thesis using goes_fails [OF sh] by (simp add: value_done_def None)
  qed
next
  case (4 C p w ts)
  have sh: "goes C ((s, a) # st, Item itemLeftBracket p w # ts) ((17, AStr w) # (s, a) # st, ts)"
    by (rule goes_shift) (rule value_shifts [OF 4(3)])
  have first: "value_done C ((17, AStr w) # (s, a) # st) ts (d_value C ts) 17 (AStr w) ((s, a) # st)" by (rule 4(1)) simp
  show ?case
  proof (cases "d_value C ts")
    case None
    then show ?thesis using first goes_fails [OF sh] by (simp add: value_done_def)
  next
    case (Some r)
    obtain v ts1 where r: "r = (v, ts1)" by (cases r)
    note sh
    also have "goes C ((17, AStr w) # (s, a) # st, ts) ((22, AValue v) # (17, AStr w) # (s, a) # st, ts1)"
      using first Some r by (simp add: value_done_def value_goto_def)
    also have "goes C \<dots> ((21, AValues [v]) # (17, AStr w) # (s, a) # st, ts1)"
      using goes_reduce [OF value_reduces(5) acts(13)] 4(3) by simp
    finally have g: "goes C ((s, a) # st, Item itemLeftBracket p w # ts) ((21, AValues [v]) # (17, AStr w) # (s, a) # st, ts1)" .
    have "length ts1 < length ts" using d_shorter(1) Some r by blast
    then have "value_done C ((21, AValues [v]) # (17, AStr w) # (s, a) # st) ts1
        (map_option (\<lambda>(vs', ts'). (VArray vs', ts')) (d_more C [v] ts1)) s a st"
      using 4(2) [OF Some r [symmetric]] 4(3) by blast
    then show ?thesis using g Some r
      by (auto simp: value_done_def split: option.splits intro: goes_trans goes_fails)
  qed
next
  case (6 C vs p w ts)
  have "goes C ((21, AValues vs) # (17, b) # (s, a) # st, Item itemRightBracket p w # ts)
      ((25, AStr w) # (21, AValues vs) # (17, b) # (s, a) # st, ts)"
    by (rule goes_shift) (simp add: shifts_table shift_table_def token_of_def)
  also have "goes C \<dots> ((value_goto s, AValue (VArray vs)) # (s, a) # st, ts)"
    using goes_reduce [OF value_reduces(4) [OF 6] acts(12)] by simp
  finally show ?case by (simp add: value_done_def)
next
  case (7 C vs p w ts)
  have sh: "goes C ((21, AValues vs) # (17, b) # (s, a) # st, Item itemComma p w # ts)
      ((26, AStr w) # (21, AValues vs) # (17, b) # (s, a) # st, ts)"
    by (rule goes_shift) (simp add: shifts_table shift_table_def token_of_def)
  have first: "value_done C ((26, AStr w) # (21, AValues vs) # (17, b) # (s, a) # st) ts (d_value C ts) 26 (AStr w)
      ((21, AValues vs) # (17, b) # (s, a) # st)" by (rule 7(1)) simp
  show ?case
  proof (cases "d_value C ts")
    case None
    then show ?thesis using first goes_fails [OF sh] by (simp add: value_done_def)
  next
    case (Some r)
    obtain v ts1 where r: "r = (v, ts1)" by (cases r)
    note sh
    also have "goes C ((26, AStr w) # (21, AValues vs) # (17, b) # (s, a) # st, ts)
        ((27, AValue v) # (26, AStr w) # (21, AValues vs) # (17, b) # (s, a) # st, ts1)"
      using first Some r by (simp add: value_done_def value_goto_def)
    also have "goes C \<dots> ((21, AValues (vs @ [v])) # (17, b) # (s, a) # st, ts1)"
      using goes_reduce [OF value_reduces(6) acts(14)] 7(3) by simp
    finally have g: "goes C ((21, AValues vs) # (17, b) # (s, a) # st, Item itemComma p w # ts)
        ((21, AValues (vs @ [v])) # (17, b) # (s, a) # st, ts1)" .
    have "length ts1 < length ts" using d_shorter(1) Some r by blast
    then have "value_done C ((21, AValues (vs @ [v])) # (17, b) # (s, a) # st) ts1
        (map_option (\<lambda>(vs', ts'). (VArray vs', ts')) (d_more C (vs @ [v]) ts1)) s a st"
      using 7(2) [OF Some r [symmetric]] 7(3) by blast
    then show ?thesis using g Some r
      by (auto simp: value_done_def split: option.splits intro: goes_trans goes_fails)
  qed
qed (auto simp: value_done_def shifts_table shift_table_def token_of_def yyDef_def intro!: fails_error)

section \<open>Entries and keys\<close>

text \<open>The states after some entries, and what stands under them.\<close>

definition entries_goto :: "int \<Rightarrow> int" where
  "entries_goto b = (if b = 0 then 2 else if b = 18 then 23 else 24)"

lemma entries_reduces:
  assumes "b \<in> {0, 18, 20}"
  shows "reduces b 8 ts [] b (entries_goto b)" and "reduces 4 9 ts [(4, a), (entries_goto b, a')] b (entries_goto b)"
    and "reduces 13 10 ts [(13, a), (9, a'), (5, a'')] (entries_goto b) 4"
  using assms by (auto simp: reduces_def shifts_ahead shift_table_def entries_goto_def yy_goto_def at_def tables yyR2_def Let_def)

lemma key_of_ahead: "key_of ts = None \<longleftrightarrow> ahead ts \<noteq> 6"
proof (cases ts rule: ahead.cases)
  case (1 t p s ts')
  then show ?thesis by (cases t) (simp_all add: token_of_def)
qed simp_all

lemma after_equal_ahead: "after_equal ts = None \<longleftrightarrow> ahead ts \<noteq> 12"
proof (cases ts rule: ahead.cases)
  case (1 t p s ts')
  then show ?thesis by (cases t) (simp_all add: token_of_def)
qed simp_all

lemma entries_sim:
  assumes "b \<in> {0, 18, 20}"
  shows "case d_entries C es ts of
      Some (es', ts') \<Rightarrow> goes C ((entries_goto b, AEntries es) # (b, a) # st, ts) ((entries_goto b, AEntries es') # (b, a) # st, ts')
    | None \<Rightarrow> fails C ((entries_goto b, AEntries es) # (b, a) # st, ts)"
proof (induction "length ts" arbitrary: es ts rule: less_induct)
  case less
  let ?e = "entries_goto b" and ?st = "(b, a) # st"
  show ?case
  proof (cases "key_of ts")
    case None
    then show ?thesis by (simp add: d_entries_stop)
  next
    case (Some k1)
    then obtain k p ts1 where k: "ts = Item itemKey p k # ts1" "k1 = (k, ts1)" by (cases k1) (auto simp: key_of_Some)
    have sh: "goes C ((?e, AEntries es) # ?st, ts) ((5, AStr k) # (?e, AEntries es) # ?st, ts1)"
      unfolding k(1) by (rule goes_shift) (use assms in \<open>auto simp: entries_goto_def shifts_table shift_table_def token_of_def\<close>)
    show ?thesis
    proof (cases "after_equal ts1")
      case None
      then have "fails C ((5, AStr k) # (?e, AEntries es) # ?st, ts1)"
        by (intro fails_error) (auto simp: shifts_ahead shift_table_def yyDef_def after_equal_ahead)
      then show ?thesis using goes_fails [OF sh] Some None k by (simp add: d_entries.simps)
    next
      case eq: (Some ts2)
      then obtain p' w where w: "ts1 = Item itemEqual p' w # ts2" by (auto simp: after_equal_Some)
      have "goes C ((5, AStr k) # (?e, AEntries es) # ?st, ts1) ((9, AStr w) # (5, AStr k) # (?e, AEntries es) # ?st, ts2)"
        unfolding w by (rule goes_shift) (simp add: shifts_table shift_table_def token_of_def)
      note sh2 = goes_trans [OF sh this]
      have v: "value_done C ((9, AStr w) # (5, AStr k) # (?e, AEntries es) # ?st) ts2 (d_value C ts2) 9 (AStr w)
          ((5, AStr k) # (?e, AEntries es) # ?st)" by (rule value_sim(1)) simp
      show ?thesis
      proof (cases "d_value C ts2")
        case None
        then show ?thesis using v goes_fails [OF sh2] Some eq k by (simp add: value_done_def d_entries.simps)
      next
        case val: (Some r)
        obtain v ts3 where r: "r = (v, ts3)" by (cases r)
        note sh2
        also have "goes C ((9, AStr w) # (5, AStr k) # (?e, AEntries es) # ?st, ts2)
            ((13, AValue v) # (9, AStr w) # (5, AStr k) # (?e, AEntries es) # ?st, ts3)"
          using v val r by (simp add: value_done_def value_goto_def)
        also have "goes C \<dots> ((4, AEntry k v) # (?e, AEntries es) # ?st, ts3)"
          using goes_reduce [OF entries_reduces(3) [OF assms] acts(8)] by simp
        also have "goes C \<dots> ((?e, AEntries (AList.update k v es)) # ?st, ts3)"
          using goes_reduce [OF entries_reduces(2) [OF assms] acts(7)] by simp
        finally have g: "goes C ((?e, AEntries es) # ?st, ts) ((?e, AEntries (AList.update k v es)) # ?st, ts3)" .
        have "length ts3 < length ts" using d_shorter(1) [of C ts2] val r k(1) w by fastforce
        then have "case d_entries C (AList.update k v es) ts3 of
            Some (es', ts') \<Rightarrow> goes C ((?e, AEntries (AList.update k v es)) # ?st, ts3) ((?e, AEntries es') # ?st, ts')
          | None \<Rightarrow> fails C ((?e, AEntries (AList.update k v es)) # ?st, ts3)" by (rule less)
        moreover have "d_entries C es ts = d_entries C (AList.update k v es) ts3"
          using Some eq val k r by (subst d_entries.simps) simp
        ultimately show ?thesis using g by (auto split: option.splits intro: goes_trans goes_fails)
      qed
    qed
  qed
qed

text \<open>Keys between brackets: states 7 and 10, or 8 and 12.\<close>

definition keys_goto :: "int \<Rightarrow> int" where
  "keys_goto b = (if b = 7 then 10 else 12)"

lemma keys_reduces:
  assumes "b \<in> {7, 8}"
  shows "reduces 11 6 ts [(11, a)] b (keys_goto b)" and "reduces 19 7 ts [(19, a), (keys_goto b, a')] b (keys_goto b)"
  using assms by (auto simp: reduces_def shifts_ahead shift_table_def keys_goto_def yy_goto_def at_def tables yyR2_def Let_def)

lemma keys_sim:
  assumes "b \<in> {7, 8}" and "d_keys ks ts = (ks', ts')"
  shows "goes C ((keys_goto b, AKeys ks) # (b, a) # st, ts) ((keys_goto b, AKeys ks') # (b, a) # st, ts')"
  using assms(2)
proof (induction ks ts rule: d_keys.induct)
  case (1 ks p k ts)
  have "goes C ((keys_goto b, AKeys ks) # (b, a) # st, Item itemKey p k # ts) ((19, AStr k) # (keys_goto b, AKeys ks) # (b, a) # st, ts)"
    by (rule goes_shift) (use assms in \<open>auto simp: keys_goto_def shifts_table shift_table_def token_of_def\<close>)
  also have "goes C \<dots> ((keys_goto b, AKeys (ks @ [k])) # (b, a) # st, ts)"
    using goes_reduce [OF keys_reduces(2) [OF assms(1)] acts(5)] by simp
  also have "goes C \<dots> ((keys_goto b, AKeys ks') # (b, a) # st, ts')" using 1 by simp
  finally show ?case .
qed auto

lemma first_key_sim:
  assumes "b \<in> {7, 8}"
  shows "case d_keys [] ts of
      ([], _) \<Rightarrow> fails C ((b, a) # st, ts)
    | (ks, ts') \<Rightarrow> goes C ((b, a) # st, ts) ((keys_goto b, AKeys ks) # (b, a) # st, ts')"
proof (cases "key_of ts")
  case None
  then have "fails C ((b, a) # st, ts)"
    using assms by (intro fails_error) (auto simp: shifts_ahead shift_table_def yyDef_def key_of_ahead)
  moreover have "d_keys [] ts = ([], ts)" using None by (cases "([] :: string list, ts)" rule: d_keys.cases) auto
  ultimately show ?thesis by simp
next
  case (Some r)
  then obtain k p ts1 where k: "ts = Item itemKey p k # ts1" by (cases r) (auto simp: key_of_Some)
  obtain ks' ts' where d: "d_keys [k] ts1 = (ks', ts')" by (metis surj_pair)
  have n: "ks' \<noteq> []" using d_keys_sound [OF d, of "[Item itemKey p k]"] g_first_key [of p k] by (auto split: if_splits)
  have "goes C ((b, a) # st, Item itemKey p k # ts1) ((11, AStr k) # (b, a) # st, ts1)"
    by (rule goes_shift) (use assms in \<open>auto simp: shifts_table shift_table_def token_of_def\<close>)
  also have "goes C \<dots> ((keys_goto b, AKeys [k]) # (b, a) # st, ts1)"
    using goes_reduce [OF keys_reduces(1) [OF assms] acts(4)] by simp
  also have "goes C \<dots> ((keys_goto b, AKeys ks') # (b, a) # st, ts')" by (rule keys_sim [OF assms d])
  finally show ?thesis using k d n by (auto split: list.splits)
qed

section \<open>Tables\<close>

text \<open>An array of tables is never empty, so the last one exists.\<close>

inductive ok_value :: "'f tvalue \<Rightarrow> bool" where
  ok_table: "\<forall>x\<in>set t. ok_value (snd x) \<Longrightarrow> ok_value (VTable t)"
| ok_tables: "ts \<noteq> [] \<Longrightarrow> \<forall>t\<in>set ts. \<forall>x\<in>set t. ok_value (snd x) \<Longrightarrow> ok_value (VTables ts)"
| ok_scalar: "\<nexists>t. v = VTable t \<Longrightarrow> \<nexists>ts. v = VTables ts \<Longrightarrow> ok_value v"

definition ok_map :: "'f tmap \<Rightarrow> bool" where
  "ok_map m \<longleftrightarrow> (\<forall>x\<in>set m. ok_value (snd x))"

lemma ok_value_simps [simp]:
  "ok_value (VTable t) \<longleftrightarrow> ok_map t" "ok_value (VTables ts) \<longleftrightarrow> ts \<noteq> [] \<and> (\<forall>t\<in>set ts. ok_map t)"
  by (subst ok_value.simps, force simp: ok_map_def)+

lemma ok_map_Cons [simp]: "ok_map ((k, v) # m) \<longleftrightarrow> ok_value v \<and> ok_map m"
  by (simp add: ok_map_def)

lemma ok_map_Nil [simp]: "ok_map []"
  by (simp add: ok_map_def)

lemma set_update_subset: "set (AList.update k v m) \<subseteq> insert (k, v) (set m)"
  by (induction m) auto

lemma ok_map_update: "ok_map m \<Longrightarrow> ok_value v \<Longrightarrow> ok_map (AList.update k v m)"
  using set_update_subset [of k v m] by (auto simp: ok_map_def)

lemma ok_map_fold: "ok_map es \<Longrightarrow> ok_map m \<Longrightarrow> ok_map (fold (\<lambda>(k, v). AList.update k v) es m)"
  by (induction es arbitrary: m) (auto simp: ok_map_update)

lemma ok_map_lookup: "ok_map m \<Longrightarrow> map_of m k = Some v \<Longrightarrow> ok_value v"
  by (auto simp: ok_map_def dest!: map_of_SomeD)

lemma merge_ok:
  assumes "ok_map es" and "ok_map m"
  shows "(\<exists>m'. merge_table a ks (Some es) (Some m) = Ok (Some m') \<and> ok_map m') \<or> (\<exists>e. merge_table a ks (Some es) (Some m) = Err e)"
  using assms(2)
proof (induction ks arbitrary: m)
  case Nil
  then show ?case using assms(1) by (simp add: put_all_Some range_of_def ok_map_fold)
next
  case (Cons k ks)
  consider "map_of m k = None" | t where "map_of m k = Some (VTable t)" | ts where "map_of m k = Some (VTables ts)"
    | v where "map_of m k = Some v" "\<nexists>t. v = VTable t" "\<nexists>ts. v = VTables ts" by blast
  then show ?case
  proof cases
    case 1
    then show ?thesis using Cons.IH [of "[]"] Cons.prems by (auto simp: range_of_def map_put_def intro!: ok_map_update)
  next
    case (2 t)
    then have "ok_map t" using ok_map_lookup [OF Cons.prems] by fastforce
    then show ?thesis using 2 Cons.IH [of t] Cons.prems by (auto simp: range_of_def map_put_def intro!: ok_map_update)
  next
    case (3 ts)
    then have ts: "ts \<noteq> []" "\<forall>t\<in>set ts. ok_map t" using ok_map_lookup [OF Cons.prems] by fastforce+
    have l: "ok_map (last ts)" "\<forall>t\<in>set (butlast ts). ok_map t" using ts by (auto dest: in_set_butlastD)
    show ?thesis using 3 ts l Cons.IH [of "[]"] Cons.IH [OF l(1)] Cons.prems
      by (auto simp: range_of_def map_put_def intro!: ok_map_update)
  next
    case (4 v)
    then show ?thesis by (cases v) (auto simp: range_of_def)
  qed
qed

text \<open>Entries are values without tables.\<close>

lemma d_value_ok:
  "d_value C ts = Some (v, ts') \<Longrightarrow> ok_value v"
  by (erule d_value.elims)
    (auto simp: number_value_def map_option_case split: option.splits outcome.splits if_splits intro: ok_scalar)

lemma d_entries_ok: "d_entries C es ts = Some (es', ts') \<Longrightarrow> ok_map es \<Longrightarrow> ok_map es'"
proof (induction "length ts" arbitrary: es ts rule: less_induct)
  case less
  from less.prems(1) show ?case
  proof (cases rule: d_entries_step)
    case (2 p k p' e ts2 v ts3)
    have "length ts3 < length ts" using d_shorter(1) [OF 2(2)] 2(1) by simp
    then show ?thesis using less.hyps [OF _ 2(3)] less.prems(2) ok_map_update [OF _ d_value_ok [OF 2(2)]] by blast
  qed (use less.prems(2) in simp)
qed

lemma tables_reduces:
  shows "ahead ts \<noteq> 6 \<Longrightarrow> reduces 23 4 ts [(23, a4), (18, a3), (10, a2), (7, a1)] 3 6"
    and "ahead ts \<noteq> 6 \<Longrightarrow> reduces 24 5 ts [(24, a4), (20, a3), (12, a2), (8, a1)] 3 6"
    and "reduces 6 3 ts [(6, a2), (3, a1)] 2 3" and "ahead ts \<noteq> 6 \<Longrightarrow> reduces 2 2 ts [] 2 3"
  by (auto simp: reduces_def shifts_ahead shift_table_def yy_goto_def at_def tables yyR2_def Let_def)

text \<open>One table: from its bracket to the symbol for it, on the tables before.\<close>

lemma table_sim_at:
  fixes b c :: int
  assumes "(b, close, c) \<in> {(7, itemRightBracket, 18), (8, itemRightDoubleBracket, 20)}"
    and "r = (case d_keys [] ts of
        (k # ks, Item t p' s' # ts1) \<Rightarrow> if t = close then map_option (\<lambda>(es, ts2). (k # ks, es, ts2)) (d_entries C [] ts1) else None
      | _ \<Rightarrow> None)"
  shows "case r of
      Some (ks, es, ts2) \<Rightarrow> goes C ((b, a) # (3, m) # st, ts) ((6, ATable (b = 8) ks es) # (3, m) # st, ts2) \<and> ok_map es
    | None \<Rightarrow> fails C ((b, a) # (3, m) # st, ts)"
proof -
  have b: "b \<in> {7, 8}" "c \<in> {0, 18, 20}" using assms(1) by auto
  obtain ks ts0 where k: "d_keys [] ts = (ks, ts0)" by (metis surj_pair)
  show ?thesis
  proof (cases ks)
    case Nil
    then show ?thesis using first_key_sim [OF b(1), where ts = ts and C = C and a = a and st = "(3, m) # st"] assms(2) k by simp
  next
    case (Cons k1 ks1)
    have keys: "goes C ((b, a) # (3, m) # st, ts) ((keys_goto b, AKeys ks) # (b, a) # (3, m) # st, ts0)"
      using first_key_sim [OF b(1), where ts = ts and C = C and a = a and st = "(3, m) # st"] k Cons by simp
    have no_key: "key_of ts0 = None" using d_keys_sound [OF k, of "[]"] by auto
    show ?thesis
    proof (cases "ahead ts0 = token_of close")
      case False
      have "fails C ((keys_goto b, AKeys ks) # (b, a) # (3, m) # st, ts0)"
        using no_key False assms(1)
        by (intro fails_error) (auto simp: keys_goto_def shifts_ahead shift_table_def yyDef_def key_of_ahead token_of_def)
      moreover have "r = None"
        using False assms(2) k Cons by (cases ts0 rule: ahead.cases) auto
      ultimately show ?thesis using goes_fails [OF keys] by simp
    next
      case True
      then obtain p s ts1 where t: "ts0 = Item close p s # ts1" using assms(1) ahead_token [of ts0 close] by auto
      note keys
      also have "goes C ((keys_goto b, AKeys ks) # (b, a) # (3, m) # st, ts0) ((c, AStr s) # (keys_goto b, AKeys ks) # (b, a) # (3, m) # st, ts1)"
        unfolding t by (rule goes_shift) (use assms(1) in \<open>auto simp: keys_goto_def shifts_table shift_table_def token_of_def\<close>)
      also have "goes C \<dots> ((entries_goto c, AEntries []) # (c, AStr s) # (keys_goto b, AKeys ks) # (b, a) # (3, m) # st, ts1)"
        using goes_reduce [OF entries_reduces(1) [OF b(2)] acts(6)] by simp
      finally have g: "goes C ((b, a) # (3, m) # st, ts)
          ((entries_goto c, AEntries []) # (c, AStr s) # (keys_goto b, AKeys ks) # (b, a) # (3, m) # st, ts1)" .
      note sim = entries_sim [OF b(2), where C = C and es = "[]" and ts = ts1 and a = "AStr s" and st = "(keys_goto b, AKeys ks) # (b, a) # (3, m) # st"]
      show ?thesis
      proof (cases "d_entries C [] ts1")
        case None
        then show ?thesis using sim goes_fails [OF g] assms(2) k Cons t by simp
      next
        case (Some x)
        obtain es ts2 where x: "x = (es, ts2)" by (cases x)
        have stop: "ahead ts2 \<noteq> 6" "ok_map es"
          using d_entries_sound [OF _ g_no_entries, of C ts1 es ts2] d_entries_ok [of C "[]" ts1 es ts2] Some x key_of_ahead by auto
        note g
        also have "goes C ((entries_goto c, AEntries []) # (c, AStr s) # (keys_goto b, AKeys ks) # (b, a) # (3, m) # st, ts1)
            ((entries_goto c, AEntries es) # (c, AStr s) # (keys_goto b, AKeys ks) # (b, a) # (3, m) # st, ts2)" using sim Some x by simp
        also have "goes C \<dots> ((6, ATable (b = 8) ks es) # (3, m) # st, ts2)"
          using goes_reduce [OF tables_reduces(1) [OF stop(1)] acts(2)] goes_reduce [OF tables_reduces(2) [OF stop(1)] acts(3)] assms(1)
          by (auto simp: entries_goto_def keys_goto_def)
        finally show ?thesis using assms(2) k Cons t Some x stop(2) by simp
      qed
    qed
  qed
qed

lemma table_sim:
  assumes "opens_table ts"
  shows "case d_table C ts of
      Some (isArray, ks, es, ts2) \<Rightarrow>
        goes C ((3, m) # st, ts) ((6, ATable isArray ks es) # (3, m) # st, ts2) \<and> ok_map es \<and> length ts2 < length ts
    | None \<Rightarrow> fails C ((3, m) # st, ts)"
proof -
  obtain t p s ts1 where t: "ts = Item t p s # ts1" "t = itemLeftBracket \<or> t = itemLeftDoubleBracket"
    using assms by (cases ts rule: opens_table.cases) auto
  define r where "r = (case d_keys [] ts1 of
        (k # ks, Item t' p' s' # ts2) \<Rightarrow>
          if t' = (if t = itemLeftBracket then itemRightBracket else itemRightDoubleBracket)
          then map_option (\<lambda>(es, ts3). (k # ks, es, ts3)) (d_entries C [] ts2) else None
      | _ \<Rightarrow> None)"
  let ?b = "if t = itemLeftBracket then 7 else 8 :: int"
  have d: "d_table C ts = map_option (\<lambda>(ks, es, ts2). (t \<noteq> itemLeftBracket, ks, es, ts2)) r"
    using t by (auto simp: r_def map_option_case split: list.split item.split itemType.split prod.split option.split)
  have sh: "goes C ((3, m) # st, ts) ((?b, AStr s) # (3, m) # st, ts1)"
    unfolding t(1) by (rule goes_shift) (use t(2) in \<open>auto simp: shifts_table shift_table_def token_of_def\<close>)
  have sim: "case r of
      Some (ks, es, ts2) \<Rightarrow> goes C ((?b, AStr s) # (3, m) # st, ts1) ((6, ATable (?b = 8) ks es) # (3, m) # st, ts2) \<and> ok_map es
    | None \<Rightarrow> fails C ((?b, AStr s) # (3, m) # st, ts1)"
    by (rule table_sim_at [where close = "if t = itemLeftBracket then itemRightBracket else itemRightDoubleBracket"
          and c = "if t = itemLeftBracket then 18 else 20"]) (use t(2) r_def in auto)
  show ?thesis
  proof (cases r)
    case None
    then show ?thesis using sim goes_fails [OF sh] by (simp add: d)
  next
    case (Some x)
    obtain ks es ts2 where x: "x = (ks, es, ts2)" by (cases x)
    have "length ts2 < length ts" using d_table_shorter [of C ts _ ks es ts2] d Some x by simp
    moreover have "(?b = 8) = (t \<noteq> itemLeftBracket)" by simp
    ultimately show ?thesis using sim goes_trans [OF sh] Some x by (simp add: d)
  qed
qed

lemma tables_sim:
  assumes "ok_map m"
  shows "case d_tables C m ts of
      Some (m', ts') \<Rightarrow> goes C ((3, ATables m) # (2, a) # st, ts) ((3, ATables m') # (2, a) # st, ts')
    | None \<Rightarrow> fails C ((3, ATables m) # (2, a) # st, ts)"
  using assms
proof (induction "length ts" arbitrary: m ts rule: less_induct)
  case less
  show ?case
  proof (cases "opens_table ts")
    case False
    then show ?thesis by (simp add: d_tables.simps)
  next
    case True
    note sim = table_sim [OF True, where C = C and m = "ATables m" and st = "(2, a) # st"]
    show ?thesis
    proof (cases "d_table C ts")
      case None
      then show ?thesis using sim True by (simp add: d_tables.simps)
    next
      case (Some x)
      obtain isArray ks es ts1 where x: "x = (isArray, ks, es, ts1)" by (cases x)
      have t: "goes C ((3, ATables m) # (2, a) # st, ts) ((6, ATable isArray ks es) # (3, ATables m) # (2, a) # st, ts1)"
        "ok_map es" "length ts1 < length ts" using sim Some x by simp_all
      from merge_ok [OF t(2) less.prems, of isArray ks] show ?thesis
      proof (elim disjE exE conjE)
        fix m' assume m': "merge_table isArray ks (Some es) (Some m) = Ok (Some m')" "ok_map m'"
        note t(1)
        also have "goes C ((6, ATable isArray ks es) # (3, ATables m) # (2, a) # st, ts1) ((3, ATables m') # (2, a) # st, ts1)"
          using goes_reduce [OF tables_reduces(3) acts(15) [OF m'(1)]] by simp
        finally have g: "goes C ((3, ATables m) # (2, a) # st, ts) ((3, ATables m') # (2, a) # st, ts1)" .
        have "d_tables C m ts = d_tables C m' ts1" using True Some x m'(1) by (subst d_tables.simps) simp
        then show ?thesis using less.hyps [OF t(3) m'(2)] g by (auto split: option.splits intro: goes_trans goes_fails)
      next
        fix e assume e: "merge_table isArray ks (Some es) (Some m) = Err e"
        have "fails C ((6, ATable isArray ks es) # (3, ATables m) # (2, a) # st, ts1)"
          using fails_reduce [OF tables_reduces(3) acts_err(3) [OF e]] by simp
        then show ?thesis using goes_fails [OF t(1)] True Some x e by (simp add: d_tables.simps)
      qed
    qed
  qed
qed

section \<open>The whole parse\<close>

lemma start_config:
  assumes "px_items l = ts" and "px_err l = None"
  shows "\<exists>P. yy_push (yy_new l) = Ok P \<and> config P [(0, ANone)] ts"
  using push_config [of "[]" "yy_new l" ANone] assms
  by (auto simp: yy_new_def config_def on_input_def holds_def)

lemma opens_ahead: "opens_table ts \<longleftrightarrow> ahead ts = 7 \<or> ahead ts = 8"
proof (cases ts rule: ahead.cases)
  case (1 t p s ts')
  then show ?thesis by (cases t) (simp_all add: token_of_def)
qed simp_all

lemma end_ahead: "at_end ts \<longleftrightarrow> ahead ts = 1 \<and> clean ts"
proof (cases ts rule: ahead.cases)
  case (1 t p s ts')
  then show ?thesis by (cases t) (simp_all add: token_of_def)
qed simp_all

lemma reduce_document:
  assumes "config P [(3, ATables m), (2, AEntries es), (0, ANone)] ts"
  shows "\<exists>P'. yy_reduce C 1 P = Ok (Goto P') \<and> config P' [(1, ANone), (0, ANone)] ts \<and>
    px_result (yp_lex P') = Some (fold (\<lambda>(k, v). AList.update k v) es m)"
proof -
  let ?xs = "[(3 :: int, ATables m), (2, AEntries es)]"
  have o: "on_stack P (?xs @ (0, ANone) # [])" "on_input P ts" using assms by (simp_all add: config_def)
  let ?S = "yy_grow (yp_p P - int (length ?xs) + 1) (yp_S P)" and ?p = "yp_p P - int (length ?xs)"
  let ?d = "\<lambda>i. ?S ! nat (?p + int i)"
  have "sy_entries (?d 1) = Some es" "sy_tables (?d 2) = Some m"
    using handle(5) [OF o(1)] by (simp_all add: All_less_Suc eval_nat_numeral)
  then have act: "yy_action C 1 ?d v = Ok (v, Some (Some (fold (\<lambda>(k, v). AList.update k v) es m)))" for v
    by (simp add: yy_action_def put_all_Some range_of_def)
  have "yy_goto (yyR1 ! nat 1) 0 = Ok 1" by (simp add: yyR1_def yy_goto_def at_def tables Let_def)
  then show ?thesis
    using reduce_unfold [OF o(1), of 1 1 C] act o(2)
      reduce_pushed [OF o(1), of ANone "?S ! nat (?p + 1)" 1 "(yp_lex P)\<lparr>px_result := Some (fold (\<lambda>(k, v). AList.update k v) es m)\<rparr>"]
    by (auto simp: yyR2_def config_def on_input_def)
qed

lemma accept_turn:
  assumes "config P [(1, ANone), (0, ANone)] ts"
  shows "\<exists>r P'. yy_run C P = Some (Ok (r, P')) \<and>
    (if at_end ts then r = 0 \<and> px_err (yp_lex P') = None \<and> px_result (yp_lex P') = px_result (yp_lex P) else px_err (yp_lex P') \<noteq> None)"
proof -
  have t: "yy_turn C P = yy_default C P" using config_top [OF assms] by (simp add: yy_turn_def at_def yyPact_def)
  let ?P = "yy_fetch P"
  have f: "config ?P [(1, ANone), (0, ANone)] ts" "yp_token ?P = ahead ts" using fetch_config [OF assms] by simp_all
  have res: "px_result (yp_lex ?P) = px_result (yp_lex P)"
    by (auto simp: yy_fetch_def yylex1_def Lex_def nextItem_def lexer_Error_def Let_def split: prod.splits list.splits item.splits)
  have e: "exca_find (yp_state ?P) yyExca = Ok [1, -1, -2, 0]" using config_top [OF f(1)] by (simp add: yyExca_def)
  have d: "yy_default C P = (if ahead ts = 1 then Ok (Return 0 ?P) else yy_error ?P)"
    using config_top [OF assms] e f(2) by (simp add: yy_default_def at_def yyDef_def Let_def)
  show ?thesis
  proof (cases "ahead ts = 1")
    case True
    have "yy_run C P = Some (Ok (0, ?P))" by (rule run_return) (simp add: t d True)
    moreover have "at_end ts \<longleftrightarrow> clean ts" using True by (simp add: end_ahead)
    ultimately show ?thesis using f(1) res fetch_config [OF assms] by (auto simp: config_def on_input_def)
  next
    case False
    then obtain P' where "yy_error ?P = Ok (Return 1 P')" "px_err (yp_lex P') \<noteq> None" using error_turn [OF f(1)] by blast
    moreover have "\<not> at_end ts" using False by (simp add: end_ahead)
    ultimately show ?thesis using run_return [of C P 1 P'] by (simp add: t d False)
  qed
qed

lemma parse_descent:
  assumes "px_items l = ts" and "px_err l = None"
  shows "\<exists>r P. yyParse C l = Some (Ok (r, P)) \<and>
    (case d_top C ts of Some m \<Rightarrow> r = 0 \<and> px_err (yp_lex P) = None \<and> px_result (yp_lex P) = Some m | None \<Rightarrow> px_err (yp_lex P) \<noteq> None)"
proof -
  obtain P0 where P0: "yy_push (yy_new l) = Ok P0" "config P0 [(0, ANone)] ts" using start_config [OF assms] by blast
  have run: "yyParse C l = yy_run C P0" using P0(1) by (simp add: yyParse_def)
  have b: "(0 :: int) \<in> {0, 18, 20}" by simp
  have first: "goes C ([(0, ANone)], ts) ([(2, AEntries []), (0, ANone)], ts)"
    using goes_reduce [OF entries_reduces(1) [OF b] acts(6), where C = C and ts = ts and ?a0.0 = ANone and st = "[]"] by (simp add: entries_goto_def)
  note es = entries_sim [OF b, where C = C and es = "[]" and ts = ts and a = ANone and st = "[]"]
  have failed: "\<exists>r P. yy_run C P0 = Some (Ok (r, P)) \<and> px_err (yp_lex P) \<noteq> None" if "fails C ([(0, ANone)], ts)"
    using that P0(2) by (auto simp: fails_def)
  show ?thesis
  proof (cases "d_entries C [] ts")
    case None
    then have "fails C ([(0, ANone)], ts)" using es goes_fails [OF first] by (simp add: entries_goto_def)
    then show ?thesis using failed None run by (simp add: d_top_def)
  next
    case (Some x)
    obtain es' ts1 where x: "x = (es', ts1)" by (cases x)
    have stop: "ahead ts1 \<noteq> 6" using d_entries_sound [OF _ g_no_entries, of C ts es' ts1] Some x key_of_ahead by auto
    note first
    also have "goes C ([(2, AEntries []), (0, ANone)], ts) ([(2, AEntries es'), (0, ANone)], ts1)"
      using es Some x by (simp add: entries_goto_def)
    also have "goes C \<dots> ([(3, ATables []), (2, AEntries es'), (0, ANone)], ts1)"
      using goes_reduce [OF tables_reduces(4) [OF stop] acts(1), where C = C and ?a0.0 = "AEntries es'" and st = "[(0, ANone)]"] by simp
    finally have g: "goes C ([(0, ANone)], ts) ([(3, ATables []), (2, AEntries es'), (0, ANone)], ts1)" .
    note tb = tables_sim [OF ok_map_Nil, where C = C and ts = ts1 and a = "AEntries es'" and st = "[(0, ANone)]"]
    show ?thesis
    proof (cases "d_tables C [] ts1")
      case None
      then have "fails C ([(0, ANone)], ts)" using tb goes_fails [OF g] by simp
      then show ?thesis using failed None run Some x by (simp add: d_top_def)
    next
      case m: (Some y)
      obtain m ts2 where y: "y = (m, ts2)" by (cases y)
      have "goes C ([(0, ANone)], ts) ([(3, ATables m), (2, AEntries es'), (0, ANone)], ts2)" using tb m y goes_trans [OF g] by simp
      then obtain P1 where P1: "yy_run C P0 = yy_run C P1" "config P1 [(3, ATables m), (2, AEntries es'), (0, ANone)] ts2"
        using P0(2) by (auto simp: goes_def)
      have "\<not> opens_table ts2" using d_tables_sound [OF _ g_no_tables, of C ts1 m ts2] m y by auto
      then have r: "reduces 3 1 ts2 [(3, ATables m), (2, AEntries es')] 0 1"
        by (auto simp: opens_ahead reduces_def shifts_ahead shift_table_def yy_goto_def at_def tables yyR2_def Let_def)
      obtain P2 where P2: "config P2 [(3, ATables m), (2, AEntries es'), (0, ANone)] ts2" "yy_turn C P1 = yy_reduce C 1 P2"
        using default_reduces [OF _ r, of P1 ANone "[]" C] P1(2) by auto
      obtain P3 where P3: "yy_reduce C 1 P2 = Ok (Goto P3)" "config P3 [(1, ANone), (0, ANone)] ts2"
        "px_result (yp_lex P3) = Some (fold (\<lambda>(k, v). AList.update k v) es' m)" using reduce_document [OF P2(1)] by blast
      have "yyParse C l = yy_run C P3" using run P1(1) run_goto [of C P1 P3] P2(2) P3(1) by simp
      moreover have "d_top C ts = (if at_end ts2 then Some (fold (\<lambda>(k, v). AList.update k v) es' m) else None)"
        using Some x m y by (simp add: d_top_def put_all_Some range_of_def)
      ultimately show ?thesis using accept_turn [OF P3(2), of C] P3(3) by (auto split: if_splits)
    qed
  qed
qed

text \<open>What the lexer sends ends with its only end-of-input or error item.\<close>

lemma lex_ends:
  "\<exists>is i. lex_input s = is @ [i] \<and> final_item i \<and> (\<forall>j\<in>set is. \<not> final_item j)"
  using lex_run_finished [of "lex_new s" LexTableBody] by (auto simp: finished_def lex_input_def lx_inv_def lex_new_def)

lemma g_tokens:
  "g_value C u v \<Longrightarrow> \<forall>i\<in>set u. \<not> final_item i" "g_values C u vs \<Longrightarrow> \<forall>i\<in>set u. \<not> final_item i"
  by (induction rule: g_value_g_values.inducts) auto

lemma at_end_last:
  assumes "lex_input s = u @ ts" and "at_end ts" and "\<forall>i\<in>set u. \<not> final_item i"
  shows "\<exists>p w. ts = [Item itemEOF p w]"
proof -
  obtain js i where l: "u @ ts = js @ [i]" "final_item i" "\<forall>j\<in>set js. \<not> final_item j" using lex_ends [of s] assms(1) by auto
  show ?thesis
  proof (cases ts rule: at_end.cases)
    case 1
    then show ?thesis using l assms(3) by (metis append_Nil2 in_set_conv_decomp)
  next
    case (2 t p w ts')
    then have f: "final_item (Item t p w)" using assms(2) by simp
    have "ts' = []"
    proof (rule ccontr)
      assume "ts' \<noteq> []"
      then have "js = u @ Item t p w # butlast ts'" using l(1) 2 by (metis append_Cons append_assoc append_butlast_last_id butlast_append butlast_snoc)
      then show False using l(3) f by simp
    qed
    then show ?thesis using 2 assms(2) by simp
  qed (use assms(2) in simp)
qed

lemma g_tables_tokens:
  assumes "g_top C u r"
  shows "\<forall>i\<in>set u. \<not> final_item i"
proof -
  have e: "\<forall>i\<in>set u. \<not> final_item i" if "g_entries C u es" for u es
    using that by (induction rule: g_entries.induct) (force simp: g_entry.simps dest: g_tokens(1))+
  have k: "\<forall>i\<in>set u. \<not> final_item i" if "g_keys u ks" for u ks
    using that by (induction rule: g_keys.induct) auto
  have "\<forall>i\<in>set u. \<not> final_item i" if "g_tables C u m" for u m
    using that by (induction rule: g_tables.induct) (force simp: g_table.simps dest: e k)+
  then show ?thesis using assms e by (auto elim!: g_top.cases)
qed

lemma d_top_document:
  "d_top C (lex_input s) = Some m \<longleftrightarrow> (\<exists>ts p w. lex_input s = ts @ [Item itemEOF p w] \<and> g_top C ts m)"
proof
  assume "d_top C (lex_input s) = Some m"
  then obtain u ts where u: "lex_input s = u @ ts" "at_end ts" "g_top C u m" by (auto simp: d_top_grammar)
  then show "\<exists>ts p w. lex_input s = ts @ [Item itemEOF p w] \<and> g_top C ts m"
    using at_end_last [OF u(1,2) g_tables_tokens [OF u(3)]] by auto
next
  assume "\<exists>ts p w. lex_input s = ts @ [Item itemEOF p w] \<and> g_top C ts m"
  then show "d_top C (lex_input s) = Some m" unfolding d_top_grammar by fastforce
qed

section \<open>Properties\<close>

text \<open>
  C7: the tables implement the grammar. On every input the parser returns, without an index out
  of range and without a write to a nil map; and it returns a result without an error exactly when the
  lexer reached the end of the input without an error and its tokens are a document of the grammar
  of parser.y, whose value is then the result.
\<close>

theorem parser_implements_grammar:
  "(\<exists>x. toml_parse C s = Some (Ok x)) \<and>
   (\<forall>r. toml_parse C s = Some (Ok (r, None)) \<longleftrightarrow>
      (\<exists>ts p w m. lex_input s = ts @ [Item itemEOF p w] \<and> g_top C ts m \<and> r = Some m))"
proof -
  obtain r P where p: "yyParse C (new_plexer s) = Some (Ok (r, P))"
    "case d_top C (lex_input s) of Some m \<Rightarrow> r = 0 \<and> px_err (yp_lex P) = None \<and> px_result (yp_lex P) = Some m
     | None \<Rightarrow> px_err (yp_lex P) \<noteq> None"
    using parse_descent [of "new_plexer s" "lex_input s" C] by (auto simp: new_plexer_def)
  have "toml_parse C s = Some (Ok (q, None)) \<longleftrightarrow> (\<exists>m. d_top C (lex_input s) = Some m \<and> q = Some m)" for q
    using p by (auto simp: toml_parse_def Let_def split: option.splits)
  moreover have "d_top C (lex_input s) = Some m \<longleftrightarrow> (\<exists>ts p w. lex_input s = ts @ [Item itemEOF p w] \<and> g_top C ts m)" for m
    by (auto simp: d_top_document)
  moreover have "\<exists>x. toml_parse C s = Some (Ok x)" using p(1) by (auto simp: toml_parse_def Let_def)
  ultimately show ?thesis by auto
qed

lemma parser_implements_grammar_witness:
  "toml_parse \<lparr>sc_ParseFloat = (\<lambda>_. None :: unit option), sc_Unquote = Some\<rparr> ''[a]b=true'' =
     Some (Ok (Some [(''a'', VTable [(''b'', VBool True)])], None))"
proof -
  let ?C = "\<lparr>sc_ParseFloat = (\<lambda>_. None :: unit option), sc_Unquote = Some\<rparr>"
  let ?ts = "[Item itemLeftBracket 0 ''['', Item itemKey 1 ''a'', Item itemRightBracket 2 '']'',
    Item itemKey 3 ''b'', Item itemEqual 4 ''='', Item itemBool 5 ''true'']"
  have l: "lex_input ''[a]b=true'' = ?ts @ [Item itemEOF 9 '''']" by code_simp
  have "d_top ?C (?ts @ [Item itemEOF 9 '''']) = Some [(''a'', VTable [(''b'', VBool True)])]"
    by (simp add: d_top_def d_entries.simps d_tables.simps put_all_Some map_put_def range_of_def)
  then have "\<exists>ts p w. lex_input ''[a]b=true'' = ts @ [Item itemEOF p w] \<and> g_top ?C ts [(''a'', VTable [(''b'', VBool True)])]"
    using l by (intro iffD1 [OF d_top_document]) (simp only:)
  then show ?thesis by (intro iffD2 [OF spec [OF conjunct2 [OF parser_implements_grammar]]]) blast
qed

end
