(* ===== verification/Http.thy ===== *)
theory Http
  imports Prelude
begin

text \<open>
  What the HTTP handlers of the program share: requests as far as the handlers look at them,
  responses, string splitting, and the interface of the bbolt database under the CDN server.
\<close>

section \<open>Requests and responses\<close>

text \<open>
  \<open>tls_peers\<close> are the keys of the peer certificates (\<open>None\<close>: not an Ed25519 key), \<open>None\<close>
  altogether for a request without TLS state; \<open>q_get\<close> is \<open>URL.Query().Get\<close>, empty when the
  parameter is missing.
\<close>

record http_request =
  http_method :: string
  url_path :: string
  tls_peers :: "bytes option list option"
  q_get :: "string \<Rightarrow> string"
  http_body :: bytes

text \<open>\<open>http.Error\<close> with its status and the constant part of its message, or a written body.\<close>

datatype http_response = HttpError nat string | HttpBody bytes

abbreviation "StatusBadRequest \<equiv> 400 :: nat"
abbreviation "StatusUnauthorized \<equiv> 401 :: nat"
abbreviation "StatusNotFound \<equiv> 404 :: nat"
abbreviation "StatusInternalServerError \<equiv> 500 :: nat"

section \<open>Strings\<close>

text \<open>\<open>strings.Split(s, c)\<close> for a one-character separator.\<close>

fun split_on :: "char \<Rightarrow> string \<Rightarrow> string list" where
  "split_on c [] = [[]]"
| "split_on c (x # xs) =
     (if x = c then [] # split_on c xs
      else (case split_on c xs of [] \<Rightarrow> [[x]] | p # ps \<Rightarrow> (x # p) # ps))"

definition has_prefix :: "'a list \<Rightarrow> 'a list \<Rightarrow> bool" where
  "has_prefix s p = (take (length p) s = p)"

lemma split_on_nonempty [simp]: "split_on c s \<noteq> []"
  by (induction s) (auto split: list.split)

lemma split_on_no_sep: "p \<in> set (split_on c s) \<Longrightarrow> c \<notin> set p"
  by (induction s arbitrary: p) (auto split: list.splits if_splits)

lemma split_on_two: "split_on c s = [a, b] \<Longrightarrow> s = a @ c # b"
proof (induction s arbitrary: a)
  case (Cons x xs)
  have "split_on c ys = [y] \<Longrightarrow> ys = y" for ys y
    by (induction ys arbitrary: y) (auto split: list.splits if_splits)
  with Cons show ?case by (auto split: list.splits if_splits)
qed simp

lemma has_prefix_append [simp]: "has_prefix (p @ s) p"
  by (simp add: has_prefix_def)

section \<open>The bbolt database\<close>

text \<open>
  The calls the CDN server makes, over an unknown type of database states. A call that may
  return an error gives \<open>None\<close> for it. \<open>bolt_scan bucket p\<close> is what a cursor placed by
  \<open>Seek(p)\<close> yields, call after call, while the loop around it deletes what it is given;
  \<open>bolt_all bucket\<close> is what \<open>First\<close> and \<open>Next\<close> yield.
\<close>

record 'db bolt =
  bolt_has :: "bytes \<Rightarrow> 'db \<Rightarrow> bool"
  bolt_create :: "bytes \<Rightarrow> 'db \<Rightarrow> 'db option"
  bolt_get :: "bytes \<Rightarrow> bytes \<Rightarrow> 'db \<Rightarrow> bytes option"
  bolt_put :: "bytes \<Rightarrow> bytes \<Rightarrow> bytes \<Rightarrow> 'db \<Rightarrow> 'db option"
  bolt_delete :: "bytes \<Rightarrow> bytes \<Rightarrow> 'db \<Rightarrow> 'db option"
  bolt_all :: "bytes \<Rightarrow> 'db \<Rightarrow> (bytes \<times> bytes) list"
  bolt_scan :: "bytes \<Rightarrow> bytes \<Rightarrow> 'db \<Rightarrow> bytes list"
  bolt_commit :: "'db \<Rightarrow> 'db option"

text \<open>
  The documented behaviour: a value put under a key of a bucket is what the key gives from
  then on, other keys and buckets keep their values, creating a bucket or committing keeps all
  of them, and deleting removes one key.
\<close>

definition bolt_laws :: "'db bolt \<Rightarrow> bool" where
  "bolt_laws B \<longleftrightarrow>
     (\<forall>b k v db db' b' k'. bolt_put B b k v db = Some db' \<longrightarrow>
        bolt_get B b' k' db' = (if b' = b \<and> k' = k then Some v else bolt_get B b' k' db)) \<and>
     (\<forall>b db db' b' k'. bolt_create B b db = Some db' \<longrightarrow> bolt_get B b' k' db' = bolt_get B b' k' db) \<and>
     (\<forall>b k db db' b' k'. bolt_delete B b k db = Some db' \<longrightarrow>
        bolt_get B b' k' db' = (if b' = b \<and> k' = k then None else bolt_get B b' k' db)) \<and>
     (\<forall>db db' b' k'. bolt_commit B db = Some db' \<longrightarrow> bolt_get B b' k' db' = bolt_get B b' k' db)"

lemma bolt_put_get:
  "bolt_laws B \<Longrightarrow> bolt_put B b k v db = Some db' \<Longrightarrow>
     bolt_get B b' k' db' = (if b' = b \<and> k' = k then Some v else bolt_get B b' k' db)"
  unfolding bolt_laws_def by (elim conjE) metis

lemma bolt_create_get:
  "bolt_laws B \<Longrightarrow> bolt_create B b db = Some db' \<Longrightarrow> bolt_get B b' k' db' = bolt_get B b' k' db"
  unfolding bolt_laws_def by blast

lemma bolt_delete_get:
  "bolt_laws B \<Longrightarrow> bolt_delete B b k db = Some db' \<Longrightarrow>
     bolt_get B b' k' db' = (if b' = b \<and> k' = k then None else bolt_get B b' k' db)"
  unfolding bolt_laws_def by blast

lemma bolt_commit_get:
  "bolt_laws B \<Longrightarrow> bolt_commit B db = Some db' \<Longrightarrow> bolt_get B b' k' db' = bolt_get B b' k' db"
  unfolding bolt_laws_def by blast

text \<open>A store of maps as an instance, with the keys of a bucket listed from a given list.\<close>

definition map_bolt :: "bytes list \<Rightarrow> (bytes \<times> bytes \<Rightarrow> bytes option) bolt" where
  "map_bolt ks = \<lparr>bolt_has = (\<lambda>b m. True), bolt_create = (\<lambda>b m. Some m), bolt_get = (\<lambda>b k m. m (b, k)),
     bolt_put = (\<lambda>b k v m. Some (m((b, k) \<mapsto> v))), bolt_delete = (\<lambda>b k m. Some (m((b, k) := None))),
     bolt_all = (\<lambda>b m. List.map_filter (\<lambda>k. map_option (Pair k) (m (b, k))) ks),
     bolt_scan = (\<lambda>b p m. filter (\<lambda>k. m (b, k) \<noteq> None \<and> has_prefix k p) ks),
     bolt_commit = Some\<rparr>"

lemma map_bolt_laws: "bolt_laws (map_bolt ks)"
  by (auto simp: bolt_laws_def map_bolt_def)

end
