(* ===== verification/Cdn.thy ===== *)
theory Cdn
  imports Http
begin

text \<open>
  The CDN server (src/cdn/cdn.go): who may create buckets and upload, where values are kept,
  and the deletion of expired ones. bbolt, encoding/gob, base32 and the time format are
  parameters; a handler runs its locked parts and its transaction as one step.
\<close>

section \<open>State and helpers\<close>

record 'db cdn_server =
  cdn_db :: 'db
  coordinatorKey :: bytes
  uploaders :: "string \<rightharpoonup> bytes"

text \<open>\<open>parseURL\<close>: the bucket of the request, its bbolt bucket and its key prefix.\<close>

definition parseURL :: "http_request \<Rightarrow> (string \<times> string \<times> string) option" where
  "parseURL req =
     (case split_on CHR ''/'' (q_get req ''bucket'') of
        [p0, p1] \<Rightarrow> if p0 \<noteq> [] \<and> p1 \<noteq> [] then Some (p0 @ ''/'' @ p1, p0, p1) else None
      | _ \<Rightarrow> None)"

definition cdn_NewBucket :: "string \<Rightarrow> bytes \<Rightarrow> 'db cdn_server \<Rightarrow> 'db cdn_server \<times> bool" where
  "cdn_NewBucket bucket uploader srv =
     (case uploaders srv bucket of
        Some _ \<Rightarrow> (srv, False)
      | None \<Rightarrow> (srv\<lparr>uploaders := (uploaders srv)(bucket \<mapsto> uploader)\<rparr>, True))"

text \<open>
  The beginning of \<open>newBucket\<close> and \<open>put\<close>: the key of the first peer certificate. Without TLS
  state the handler dereferences nil.
\<close>

definition peer_key :: "http_request \<Rightarrow> (http_response, bytes) outcome" where
  "peer_key req =
     (case tls_peers req of
        None \<Rightarrow> Panic
      | Some [] \<Rightarrow> Err (HttpError StatusBadRequest ''expecting peer tls certificate'')
      | Some (None # _) \<Rightarrow> Err (HttpError StatusUnauthorized ''expecting ed25519 certificate'')
      | Some (Some k # _) \<Rightarrow> Ok k)"

section \<open>Handlers\<close>

definition newBucket ::
  "(string \<Rightarrow> bytes option) \<Rightarrow> http_request \<Rightarrow> 'db cdn_server \<Rightarrow>
   'db cdn_server \<times> (http_response, http_response) outcome" where
  "newBucket base32 req srv =
     (case peer_key req of
        Panic \<Rightarrow> (srv, Panic) | Err e \<Rightarrow> (srv, Err e)
      | Ok peerKey \<Rightarrow>
          if peerKey \<noteq> coordinatorKey srv then (srv, Err (HttpError StatusUnauthorized ''unauthorized''))
          else (case parseURL req of
            None \<Rightarrow> (srv, Err (HttpError StatusBadRequest ''bad bucket name''))
          | Some (cdnBucket, _, _) \<Rightarrow>
              (case base32 (q_get req ''uploader'') of
                 None \<Rightarrow> (srv, Err (HttpError StatusBadRequest ''bad uploader key''))
               | Some keyBytes \<Rightarrow>
                   if length keyBytes \<noteq> 32
                   then (srv, Err (HttpError StatusBadRequest ''bad uploader key''))
                   else if uploaders srv cdnBucket \<noteq> None
                   then (srv, Err (HttpError StatusBadRequest ''bucket already exists''))
                   else (srv\<lparr>uploaders := (uploaders srv)(cdnBucket \<mapsto> keyBytes)\<rparr>,
                         Ok (HttpBody (str_bytes ''OK'' @ [10]))))))"

text \<open>The uploaded map, as the pairs its iteration yields.\<close>

fun put_vals ::
  "'db bolt \<Rightarrow> bytes \<Rightarrow> string \<Rightarrow> (string \<times> bytes) list \<Rightarrow> 'db \<Rightarrow> 'db option" where
  "put_vals B b prefix [] db = Some db"
| "put_vals B b prefix ((k, v) # kvs) db =
     (case bolt_put B b (str_bytes (prefix @ ''/'' @ k)) v db of
        None \<Rightarrow> None | Some db' \<Rightarrow> put_vals B b prefix kvs db')"

definition put_tx ::
  "'db bolt \<Rightarrow> bytes \<Rightarrow> string \<Rightarrow> string \<Rightarrow> string \<Rightarrow> (string \<times> bytes) list \<Rightarrow> 'db \<Rightarrow> 'db option" where
  "put_tx B expires cdnBucket boltBucket prefix vals db =
     Option.bind (bolt_create B (str_bytes boltBucket) db) (\<lambda>db1.
     Option.bind (bolt_put B (str_bytes ''Expires'') expires (str_bytes cdnBucket) db1) (\<lambda>db2.
     Option.bind (put_vals B (str_bytes boltBucket) prefix vals db2) (bolt_commit B)))"

definition defaultTTL :: int where "defaultTTL = 24 * 3600 * 10 ^ 9"

definition put ::
  "'db bolt \<Rightarrow> (bytes \<Rightarrow> (string \<times> bytes) list option) \<Rightarrow> (int \<Rightarrow> bytes) \<Rightarrow> int \<Rightarrow>
   http_request \<Rightarrow> 'db cdn_server \<Rightarrow> 'db cdn_server \<times> (http_response, http_response) outcome" where
  "put B gob rfc3339 now req srv =
     (case peer_key req of
        Panic \<Rightarrow> (srv, Panic) | Err e \<Rightarrow> (srv, Err e)
      | Ok peerKey \<Rightarrow>
          (case parseURL req of
             None \<Rightarrow> (srv, Err (HttpError StatusBadRequest ''bad bucket name''))
           | Some (cdnBucket, boltBucket, prefix) \<Rightarrow>
               (case uploaders srv cdnBucket of
                  None \<Rightarrow> (srv, Err (HttpError StatusBadRequest ''bucket not found''))
                | Some expectedKey \<Rightarrow>
                    if peerKey \<noteq> expectedKey
                    then (srv, Err (HttpError StatusUnauthorized ''unauthorized''))
                    else (case gob (http_body req) of
                      None \<Rightarrow> (srv, Err (HttpError StatusBadRequest ''gob decoding error''))
                    | Some vals \<Rightarrow>
                        (case put_tx B (rfc3339 (now + defaultTTL)) cdnBucket boltBucket prefix vals
                                (cdn_db srv) of
                           None \<Rightarrow> (srv, Err (HttpError StatusInternalServerError ''internal DB error''))
                         | Some db' \<Rightarrow>
                             (srv\<lparr>cdn_db := db'\<rparr>, Ok (HttpBody (str_bytes ''OK'' @ [10]))))))))"

definition get ::
  "'db bolt \<Rightarrow> http_request \<Rightarrow> 'db cdn_server \<Rightarrow> (http_response, http_response) outcome" where
  "get B req srv =
     (case parseURL req of
        None \<Rightarrow> Err (HttpError StatusBadRequest ''bad bucket name'')
      | Some (cdnBucket, boltBucket, prefix) \<Rightarrow>
          (let key = q_get req ''key'' in
           if key = [] then Err (HttpError StatusBadRequest ''unspecified key'')
           else (case bolt_get B (str_bytes boltBucket) (str_bytes (prefix @ ''/'' @ key)) (cdn_db srv) of
                   None \<Rightarrow> Err (HttpError StatusNotFound ''key not found'')
                 | Some val \<Rightarrow> Ok (HttpBody val))))"

definition cdn_ServeHTTP ::
  "'db bolt \<Rightarrow> (bytes \<Rightarrow> (string \<times> bytes) list option) \<Rightarrow> (string \<Rightarrow> bytes option) \<Rightarrow> (int \<Rightarrow> bytes) \<Rightarrow>
   int \<Rightarrow> http_request \<Rightarrow> 'db cdn_server \<Rightarrow> 'db cdn_server \<times> (http_response, http_response) outcome" where
  "cdn_ServeHTTP B gob base32 rfc3339 now req srv =
     (if has_prefix (url_path req) ''/get'' then (srv, get B req srv)
      else if has_prefix (url_path req) ''/put'' then put B gob rfc3339 now req srv
      else if has_prefix (url_path req) ''/newbucket'' then newBucket base32 req srv
      else (srv, Err (HttpError StatusNotFound ''not found'')))"

section \<open>Expiry\<close>

text \<open>
  The first loop groups the expired prefixes by bucket; a value without a slash makes the
  slice expression panic. \<open>order\<close> is the order in which Go iterates over the map.
\<close>

fun cut_slash :: "bytes \<Rightarrow> (bytes \<times> bytes) option" where
  "cut_slash [] = None"
| "cut_slash (b # bs) =
     (if b = 47 then Some ([], bs) else map_option (\<lambda>(x, y). (b # x, y)) (cut_slash bs))"

text \<open>\<open>bytes.Compare(a, b) <= 0\<close>.\<close>

fun bytes_leq :: "bytes \<Rightarrow> bytes \<Rightarrow> bool" where
  "bytes_leq [] _ = True"
| "bytes_leq (_ # _) [] = False"
| "bytes_leq (x # xs) (y # ys) = (if x = y then bytes_leq xs ys else x < y)"

fun group_expired ::
  "bytes \<Rightarrow> (bytes \<times> bytes) list \<Rightarrow> (bytes \<Rightarrow> bytes list) \<Rightarrow> (unit, bytes \<Rightarrow> bytes list) outcome" where
  "group_expired mx [] buckets = Ok buckets"
| "group_expired mx ((k, v) # kvs) buckets =
     (if \<not> bytes_leq k mx then Ok buckets
      else (case cut_slash v of
              None \<Rightarrow> Panic
            | Some (b, prefix) \<Rightarrow> group_expired mx kvs (buckets(b := buckets b @ [prefix]))))"

fun delete_keys :: "'db bolt \<Rightarrow> bytes \<Rightarrow> bytes list \<Rightarrow> 'db \<Rightarrow> (unit, 'db) outcome" where
  "delete_keys B b [] db = Ok db"
| "delete_keys B b (k # ks) db =
     (case bolt_delete B b k db of None \<Rightarrow> Err () | Some db' \<Rightarrow> delete_keys B b ks db')"

definition delete_prefix :: "'db bolt \<Rightarrow> bytes \<Rightarrow> bytes \<Rightarrow> 'db \<Rightarrow> (unit, 'db) outcome" where
  "delete_prefix B b prefix db =
     delete_keys B b (takeWhile (\<lambda>k. has_prefix k prefix) (bolt_scan B b prefix db)) db"

definition delete_bucket ::
  "'db bolt \<Rightarrow> (bytes \<Rightarrow> bytes list) \<Rightarrow> bytes \<Rightarrow> 'db \<Rightarrow> (unit, 'db) outcome" where
  "delete_bucket B buckets b db =
     (if \<not> bolt_has B b db then Ok db else fold_outcome (delete_prefix B b) (buckets b) db)"

definition deleteExpired ::
  "'db bolt \<Rightarrow> (int \<Rightarrow> bytes) \<Rightarrow> bytes list \<Rightarrow> int \<Rightarrow> 'db cdn_server \<Rightarrow> (unit, 'db cdn_server) outcome" where
  "deleteExpired B rfc3339 order now srv =
     bind_outcome (group_expired (rfc3339 now) (bolt_all B (str_bytes ''Expires'') (cdn_db srv)) (\<lambda>_. [])) (\<lambda>buckets.
     bind_outcome (fold_outcome (delete_bucket B buckets) order (cdn_db srv)) (\<lambda>db.
       case bolt_commit B db of None \<Rightarrow> Err () | Some db' \<Rightarrow> Ok (srv\<lparr>cdn_db := db'\<rparr>)))"

section \<open>Lemmas\<close>

lemma parseURL_parts:
  "parseURL req = Some (c, b, p) \<Longrightarrow>
     c = b @ ''/'' @ p \<and> CHR ''/'' \<notin> set b \<and> CHR ''/'' \<notin> set p \<and> b \<noteq> [] \<and> p \<noteq> []"
  using split_on_no_sep [of _ "CHR ''/''" "q_get req ''bucket''"]
  by (auto simp: parseURL_def split: list.splits if_splits)

lemma sep_unique:
  "x \<notin> set p \<Longrightarrow> x \<notin> set q \<Longrightarrow> p @ x # a = q @ x # b \<longleftrightarrow> p = q \<and> a = b"
  by (auto simp: append_eq_append_conv2 Cons_eq_append_conv append_eq_Cons_conv)

text \<open>The key of a value determines its bucket prefix and its name.\<close>

lemma stored_key_inj:
  "parseURL req = Some (c, b, p) \<Longrightarrow> parseURL req' = Some (c', b', p') \<Longrightarrow>
     str_bytes b = str_bytes b' \<and> str_bytes (p @ ''/'' @ k) = str_bytes (p' @ ''/'' @ k') \<longleftrightarrow> c = c' \<and> k = k'"
  using parseURL_parts [of req c b p] parseURL_parts [of req' c' b' p']
  by (auto simp: sep_unique str_bytes_inj simp del: str_bytes_append)

lemma put_vals_get:
  assumes "bolt_laws B" and "put_vals B b p kvs db = Some db'" and "distinct (map fst kvs)"
  shows "bolt_get B b' k' db' =
    (if b' = b \<and> (\<exists>k \<in> set (map fst kvs). k' = str_bytes (p @ ''/'' @ k))
     then map_of (map (\<lambda>(k, v). (str_bytes (p @ ''/'' @ k), v)) kvs) k'
     else bolt_get B b' k' db)"
  using assms(2,3)
proof (induction kvs arbitrary: db)
  case (Cons kv kvs)
  obtain k v where kv: "kv = (k, v)" by (metis surj_pair)
  then obtain db1 where db1: "bolt_put B b (str_bytes (p @ ''/'' @ k)) v db = Some db1"
    and rest: "put_vals B b p kvs db1 = Some db'"
    using Cons.prems by (auto split: option.splits)
  have "k \<notin> set (map fst kvs)" using Cons.prems kv by simp
  then show ?case
    using Cons.IH [OF rest] Cons.prems(2) bolt_put_get [OF assms(1) db1, of b' k'] kv
    by (auto simp del: str_bytes_append simp: str_bytes_inj)
qed simp

lemma map_of_keyed:
  "map_of (map (\<lambda>(k, v). (str_bytes (p @ CHR ''/'' # k), v)) kvs) (str_bytes (p @ CHR ''/'' # k)) = map_of kvs k"
  by (induction kvs) (auto simp del: str_bytes_append simp: str_bytes_inj)

lemma delete_keys_get:
  assumes "bolt_laws B" and "delete_keys B b ks db = Ok db'"
  shows "bolt_get B b' k db' = (if b' = b \<and> k \<in> set ks then None else bolt_get B b' k db)"
  using assms(2)
proof (induction ks arbitrary: db)
  case (Cons x ks)
  then obtain db1 where "bolt_delete B b x db = Some db1" "delete_keys B b ks db1 = Ok db'"
    by (auto split: option.splits)
  with Cons.IH show ?case by (auto simp: bolt_delete_get [OF assms(1)])
qed simp

lemma delete_prefix_get:
  assumes "bolt_laws B" and "delete_prefix B b p db = Ok db'"
    and "bolt_get B b' k db' \<noteq> bolt_get B b' k db"
  shows "b' = b \<and> has_prefix k p"
  using assms(2,3) delete_keys_get [OF assms(1)]
  by (auto simp: delete_prefix_def dest: set_takeWhileD split: if_splits)

lemma fold_outcome_change:
  assumes "\<And>x s s'. x \<in> set xs \<Longrightarrow> f x s = Ok s' \<Longrightarrow> g s' \<noteq> g s \<Longrightarrow> P x"
    and "fold_outcome f xs s = Ok s'" and "g s' \<noteq> g s"
  shows "\<exists>x\<in>set xs. P x"
  using assms
proof (induction xs arbitrary: s)
  case (Cons x xs)
  then obtain s1 where s1: "f x s = Ok s1" "fold_outcome f xs s1 = Ok s'"
    by (auto simp: bind_outcome_Ok)
  show ?case
  proof (cases "g s1 = g s")
    case True
    then show ?thesis using Cons s1 by (metis list.set_intros)
  next
    case False
    then show ?thesis using Cons.prems(1) s1 by auto
  qed
qed simp

lemma group_expired_sound:
  assumes "group_expired mx kvs bs = Ok buckets" and "p \<in> set (buckets b)"
  shows "p \<in> set (bs b) \<or> (\<exists>(ek, ev) \<in> set kvs. bytes_leq ek mx \<and> cut_slash ev = Some (b, p))"
  using assms
proof (induction mx kvs bs rule: group_expired.induct)
  case (2 mx k v kvs bs)
  then have le: "bytes_leq k mx \<or> buckets = bs" by (auto split: if_splits)
  show ?case
  proof (cases "bytes_leq k mx")
    case False
    with 2 show ?thesis by simp
  next
    case True
    with "2.prems" obtain b0 q where c: "cut_slash v = Some (b0, q)"
      and g: "group_expired mx kvs (bs(b0 := bs b0 @ [q])) = Ok buckets"
      by (auto split: option.splits)
    from "2.IH" [OF _ c refl g "2.prems"(2)] True c show ?thesis by (auto split: if_splits)
  qed
qed simp

section \<open>Properties\<close>

text \<open>A server at which the properties are evaluated: one bucket with an uploader.\<close>

definition demo_cdn :: "(bytes \<times> bytes \<Rightarrow> bytes option) cdn_server" where
  "demo_cdn = \<lparr>cdn_db = (\<lambda>_. None), coordinatorKey = [7], uploaders = [''addfriend/1'' \<mapsto> [8]]\<rparr>"

definition demo_req :: "string \<Rightarrow> http_request" where
  "demo_req bucket = \<lparr>http_method = ''POST'', url_path = ''/put'', tls_peers = Some [Some [8]],
     q_get = (\<lambda>x. if x = ''bucket'' then bucket else ''m''), http_body = []\<rparr>"

lemma demo_parse: "parseURL (demo_req ''addfriend/1'') = Some (''addfriend/1'', ''addfriend'', ''1'')"
  by (simp add: parseURL_def demo_req_def)

lemma demo_put:
  "put (map_bolt []) (\<lambda>_. Some [(''m'', [5])]) (\<lambda>_. [1]) 0 (demo_req ''addfriend/1'') demo_cdn =
     (demo_cdn\<lparr>cdn_db := (cdn_db demo_cdn)((str_bytes ''Expires'', [1]) \<mapsto> str_bytes ''addfriend/1'',
        (str_bytes ''addfriend'', str_bytes ''1/m'') \<mapsto> [5])\<rparr>, Ok (HttpBody (str_bytes ''OK'' @ [10])))"
proof -
  have "peer_key (demo_req ''addfriend/1'') = Ok [8]" by (simp add: peer_key_def demo_req_def)
  moreover have "uploaders demo_cdn ''addfriend/1'' = Some [8]" by (simp add: demo_cdn_def)
  ultimately show ?thesis
    by (simp add: put_def demo_parse put_tx_def map_bolt_def del: str_bytes_append)
qed

text \<open>
  C37: who may change what. A request changes stored values only when its TLS key is the one
  registered for the bucket it names; it registers a bucket only when its TLS key is the
  coordinator's; and a registered bucket keeps its uploader.
\<close>

theorem cdn_authority:
  assumes "cdn_ServeHTTP B gob base32 rfc3339 now req srv = (srv', out)"
  shows "(cdn_db srv' \<noteq> cdn_db srv \<longrightarrow> (\<exists>k c b p. peer_key req = Ok k \<and> parseURL req = Some (c, b, p) \<and>
            uploaders srv c = Some k)) \<and>
    (\<forall>c. uploaders srv' c \<noteq> uploaders srv c \<longrightarrow> uploaders srv c = None \<and>
            peer_key req = Ok (coordinatorKey srv) \<and> (\<exists>b p. parseURL req = Some (c, b, p))) \<and>
    coordinatorKey srv' = coordinatorKey srv"
  using assms
  by (auto simp: cdn_ServeHTTP_def put_def newBucket_def Let_def
      split: if_splits outcome.splits option.splits prod.splits)

theorem cdn_authority_witness:
  "\<exists>srv' out. cdn_ServeHTTP (map_bolt []) (\<lambda>_. Some [(''m'', [5])]) (\<lambda>_. None) (\<lambda>_. [1]) 0
       (demo_req ''addfriend/1'') demo_cdn = (srv', out) \<and>
     cdn_db srv' \<noteq> cdn_db demo_cdn \<and> coordinatorKey srv' = [7]"
proof -
  let ?r = "cdn_ServeHTTP (map_bolt []) (\<lambda>_. Some [(''m'', [5])]) (\<lambda>_. None) (\<lambda>_. [1]) 0
       (demo_req ''addfriend/1'') demo_cdn"
  obtain srv' out where r: "?r = (srv', out)" by (metis surj_pair)
  have "?r = put (map_bolt []) (\<lambda>_. Some [(''m'', [5])]) (\<lambda>_. [1]) 0 (demo_req ''addfriend/1'') demo_cdn"
    by (simp add: cdn_ServeHTTP_def has_prefix_def demo_req_def)
  then have "cdn_db srv' (str_bytes ''Expires'', [1]) \<noteq> cdn_db demo_cdn (str_bytes ''Expires'', [1])"
    using r by (auto simp: demo_put) (simp add: demo_cdn_def str_bytes_def)
  then have "cdn_db srv' \<noteq> cdn_db demo_cdn" by auto
  then show ?thesis using r cdn_authority [OF r] by (simp add: demo_cdn_def)
qed

text \<open>
  C38: an upload is what is downloaded. After a successful upload of distinct names to a bucket,
  a download from it returns the uploaded value, or what was there before for a name that was
  not uploaded, and downloads from every other bucket are unaffected.
\<close>

theorem cdn_put_get:
  assumes "bolt_laws B" and "put B gob rfc3339 now req srv = (srv', Ok resp)"
    and "gob (http_body req) = Some vals" "distinct (map fst vals)"
    and "parseURL req = Some (c, b, p)" and "parseURL req' = Some (c', b', p')"
    and "b' \<noteq> ''Expires''" and "q_get req' ''key'' \<noteq> []"
  shows "get B req' srv' =
    (case if c' = c then map_of vals (q_get req' ''key'') else None of
       Some v \<Rightarrow> Ok (HttpBody v) | None \<Rightarrow> get B req' srv)"
proof -
  let ?k = "q_get req' ''key''"
  let ?key = "str_bytes (p' @ ''/'' @ ?k)"
  obtain db1 db2 db3 db4 where tx: "bolt_create B (str_bytes b) (cdn_db srv) = Some db1"
    "bolt_put B (str_bytes ''Expires'') (rfc3339 (now + defaultTTL)) (str_bytes c) db1 = Some db2"
    "put_vals B (str_bytes b) p vals db2 = Some db3" "bolt_commit B db3 = Some db4"
    and srv': "srv' = srv\<lparr>cdn_db := db4\<rparr>"
    using assms(2,3,5)
    by (auto simp: put_def put_tx_def split: outcome.splits option.splits if_splits bind_splits)
  have eb: "str_bytes b' \<noteq> str_bytes ''Expires''" using assms(7) by (simp only: str_bytes_inj) simp
  have "bolt_get B (str_bytes b') ?key db4 = bolt_get B (str_bytes b') ?key db3"
    by (rule bolt_commit_get [OF assms(1) tx(4)])
  also have "\<dots> = (if c' = c \<and> ?k \<in> fst ` set vals then map_of vals ?k
      else bolt_get B (str_bytes b') ?key db2)"
  proof (cases "c' = c")
    case True
    then have "b' = b" "p' = p"
      using parseURL_parts [OF assms(5)] parseURL_parts [OF assms(6)] by (auto simp: sep_unique)
    then show ?thesis
      unfolding put_vals_get [OF assms(1) tx(3) assms(4)]
      by (auto simp: map_of_keyed True str_bytes_inj simp del: str_bytes_append)
  next
    case False
    then show ?thesis
      unfolding put_vals_get [OF assms(1) tx(3) assms(4)]
      using stored_key_inj [OF assms(6,5), of ?k] by (auto simp del: str_bytes_append)
  qed
  also have "bolt_get B (str_bytes b') ?key db2 = bolt_get B (str_bytes b') ?key (cdn_db srv)"
    using bolt_put_get [OF assms(1) tx(2)] bolt_create_get [OF assms(1) tx(1)] eb by simp
  finally have g: "bolt_get B (str_bytes b') ?key db4 = (if c' = c \<and> ?k \<in> fst ` set vals then map_of vals ?k
      else bolt_get B (str_bytes b') ?key (cdn_db srv))" .
  have n: "?k \<notin> fst ` set vals \<longleftrightarrow> map_of vals ?k = None" by (simp add: map_of_eq_None_iff)
  show ?thesis
    using g n assms(6,8) by (auto simp: get_def srv' Let_def split: option.splits)
qed

theorem cdn_put_get_witness:
  "get (map_bolt []) (demo_req ''addfriend/1'')
     (fst (put (map_bolt []) (\<lambda>_. Some [(''m'', [5])]) (\<lambda>_. [1]) 0 (demo_req ''addfriend/1'') demo_cdn))
   = Ok (HttpBody [5])"
proof -
  let ?p = "put (map_bolt []) (\<lambda>_. Some [(''m'', [5])]) (\<lambda>_. [1]) 0 (demo_req ''addfriend/1'') demo_cdn"
  have "?p = (fst ?p, Ok (HttpBody (str_bytes ''OK'' @ [10])))" by (simp add: demo_put)
  from cdn_put_get [OF map_bolt_laws this refl _ demo_parse demo_parse]
  show ?thesis by (simp add: demo_req_def)
qed

text \<open>
  What expiry may delete. A value that a run of the expiry loop changes belongs to a
  bucket for which there is an entry in Expires that is not after now, and its key begins with
  the prefix of that entry.
\<close>

theorem expiry_only_expired:
  assumes "bolt_laws B" and "deleteExpired B rfc3339 order now srv = Ok srv'"
    and "bolt_get B b k (cdn_db srv') \<noteq> bolt_get B b k (cdn_db srv)"
  shows "\<exists>ek ev p. (ek, ev) \<in> set (bolt_all B (str_bytes ''Expires'') (cdn_db srv)) \<and>
    bytes_leq ek (rfc3339 now) \<and> cut_slash ev = Some (b, p) \<and> has_prefix k p"
proof -
  obtain buckets db db' where g: "group_expired (rfc3339 now)
        (bolt_all B (str_bytes ''Expires'') (cdn_db srv)) (\<lambda>_. []) = Ok buckets"
    and f: "fold_outcome (delete_bucket B buckets) order (cdn_db srv) = Ok db"
    and c: "bolt_commit B db = Some db'" and s: "srv' = srv\<lparr>cdn_db := db'\<rparr>"
    using assms(2) by (auto simp: deleteExpired_def outcome_simps split: option.splits)
  have "bolt_get B b k db \<noteq> bolt_get B b k (cdn_db srv)"
    using assms(3) s bolt_commit_get [OF assms(1) c] by simp
  moreover have "b = x \<and> (\<exists>p\<in>set (buckets b). has_prefix k p)"
    if "delete_bucket B buckets x d = Ok d'" "bolt_get B b k d' \<noteq> bolt_get B b k d" for x d d'
  proof -
    have "fold_outcome (delete_prefix B x) (buckets x) d = Ok d'"
      using that by (auto simp: delete_bucket_def split: if_splits)
    from fold_outcome_change [where g = "bolt_get B b k", OF _ this that(2), of "\<lambda>p. b = x \<and> has_prefix k p"]
    show ?thesis using delete_prefix_get [OF assms(1)] by blast
  qed
  ultimately obtain p where "p \<in> set (buckets b)" "has_prefix k p"
    using fold_outcome_change [where g = "bolt_get B b k", OF _ f,
        of "\<lambda>x. b = x \<and> (\<exists>p\<in>set (buckets b). has_prefix k p)"] by blast
  then show ?thesis using group_expired_sound [OF g, of p b] by auto
qed

theorem expiry_only_expired_witness:
  "\<exists>ek ev p. (ek, ev) \<in> set [([1 :: byte], str_bytes ''addfriend/1'')] \<and>
    cut_slash ev = Some (str_bytes ''addfriend'', p) \<and> has_prefix (str_bytes ''1/m'') p"
proof -
  let ?ks = "[[1], str_bytes ''1/m'']"
  let ?srv = "demo_cdn\<lparr>cdn_db := [(str_bytes ''Expires'', [1]) \<mapsto> str_bytes ''addfriend/1'',
      (str_bytes ''addfriend'', str_bytes ''1/m'') \<mapsto> [5]]\<rparr>"
  have "deleteExpired (map_bolt ?ks) (\<lambda>_. [2]) [str_bytes ''addfriend''] 0 ?srv =
      Ok (?srv\<lparr>cdn_db := [(str_bytes ''Expires'', [1]) \<mapsto> str_bytes ''addfriend/1'']\<rparr>)"
    by (simp add: deleteExpired_def map_bolt_def str_bytes_def has_prefix_def delete_bucket_def
      delete_prefix_def List.map_filter_def fun_upd_twist)
  from expiry_only_expired [OF map_bolt_laws this, of "str_bytes ''addfriend''" "str_bytes ''1/m''"]
  show ?thesis by (simp add: map_bolt_def List.map_filter_def str_bytes_def split: if_splits)
qed

text \<open>
  The prefix is compared without the slash after it, so the expiry of round 1 also deletes
  what was uploaded for round 10, whose own entry expires later.
\<close>

theorem expiry_takes_other_rounds:
  "let ks = [str_bytes ''1'', str_bytes ''1/m'', str_bytes ''10/m'', str_bytes ''9''];
       db = [(str_bytes ''Expires'', str_bytes ''1'') \<mapsto> str_bytes ''addfriend/1'',
             (str_bytes ''Expires'', str_bytes ''9'') \<mapsto> str_bytes ''addfriend/10'',
             (str_bytes ''addfriend'', str_bytes ''10/m'') \<mapsto> [5]];
       srv = \<lparr>cdn_db = db, coordinatorKey = [7], uploaders = Map.empty\<rparr>
   in \<exists>srv'. deleteExpired (map_bolt ks) (\<lambda>_. str_bytes ''2'') [str_bytes ''addfriend''] 0 srv = Ok srv' \<and>
        bolt_get (map_bolt ks) (str_bytes ''addfriend'') (str_bytes ''10/m'') (cdn_db srv') = None"
  by (simp add: deleteExpired_def map_bolt_def str_bytes_def has_prefix_def delete_bucket_def
      delete_prefix_def List.map_filter_def)

end
