(* ===== verification/Config.thy ===== *)
theory Config
  imports Instances
begin

text \<open>
  Signed configurations (src/config/config.go, hybrid_signature.go): the hybrid signature, the
  chain of configurations and its verification, the inner configurations and their versioned
  forms. encoding/json, base32, SHA-512/256, Ed25519 and ML-DSA are the parameters collected in
  \<open>cfg_env\<close>; times are integers.
\<close>

section \<open>Hybrid signatures\<close>

definition HybridSignatureEdSize :: nat where "HybridSignatureEdSize = 64"
definition HybridSignaturePQSize :: nat where "HybridSignaturePQSize = pqsig_SignatureSize"
definition HybridSignatureSize :: nat where
  "HybridSignatureSize = HybridSignatureEdSize + HybridSignaturePQSize"

record HybridSignature =
  hs_Ed :: bytes
  hs_PQ :: bytes

datatype cfg_error =
    ErrHybridSignatureSize nat | BadBase64 | BadJSON
  | MissingSignature string | WrongSignatureLength string nat | DecodeSignature string
  | ClassicalSignature string | BadGuardianPQKey string pq_error | PostQuantumSignature string
  | BadPrevConfigHash nat | ChainError nat cfg_error
  | InvalidVersion int | UnsupportedVersion int | MinClientVersionTooHigh int
  | InvalidGuardianKey nat | InvalidGuardianPQKey nat | InvalidGuardianUsername nat
  | EmptyService | NoInnerConfig
  | EmptyCoordinatorAddress | InvalidCoordinatorKey | InvalidMixKey nat | EmptyMixAddress nat
  | EmptyCDNAddress | InvalidCDNKey | InvalidPKGKey nat | EmptyPKGAddress nat
  | UnknownVersion int | VersionOneRefused | UnregisteredService string

text \<open>Both halves are arrays, so the encoding has a fixed width.\<close>

definition HybridSignature_Bytes :: "HybridSignature \<Rightarrow> bytes" where
  "HybridSignature_Bytes s =
     fixed HybridSignatureEdSize (hs_Ed s) @ fixed HybridSignaturePQSize (hs_PQ s)"

definition HybridSignature_UnmarshalBytes :: "bytes \<Rightarrow> (cfg_error, HybridSignature) outcome" where
  "HybridSignature_UnmarshalBytes b =
     (if length b \<noteq> HybridSignatureSize then Err (ErrHybridSignatureSize (length b))
      else Ok \<lparr>hs_Ed = fixed HybridSignatureEdSize (take HybridSignatureEdSize b),
               hs_PQ = fixed HybridSignaturePQSize (drop HybridSignatureEdSize b)\<rparr>)"

definition HybridSignature_MarshalJSON ::
  "(bytes \<Rightarrow> string) \<Rightarrow> (string \<Rightarrow> bytes) \<Rightarrow> HybridSignature \<Rightarrow> bytes" where
  "HybridSignature_MarshalJSON base64 json s = json (base64 (HybridSignature_Bytes s))"

definition HybridSignature_UnmarshalJSON ::
  "(string \<Rightarrow> bytes option) \<Rightarrow> (bytes \<Rightarrow> string option) \<Rightarrow> bytes \<Rightarrow>
   (cfg_error, HybridSignature) outcome" where
  "HybridSignature_UnmarshalJSON unbase64 unjson d =
     (case unjson d of None \<Rightarrow> Err BadJSON
      | Some enc \<Rightarrow> (case unbase64 enc of None \<Rightarrow> Err BadBase64
                    | Some raw \<Rightarrow> HybridSignature_UnmarshalBytes raw))"

definition hs_wf :: "HybridSignature \<Rightarrow> bool" where
  "hs_wf s \<longleftrightarrow> length (hs_Ed s) = HybridSignatureEdSize \<and> length (hs_PQ s) = HybridSignaturePQSize"

interpretation hs: codec HybridSignature_Bytes HybridSignature_UnmarshalBytes hs_wf
  by unfold_locales (simp add: HybridSignature_Bytes_def HybridSignature_UnmarshalBytes_def hs_wf_def
      HybridSignatureSize_def)

section \<open>Configurations\<close>

record keyAddr =
  ka_Key :: bytes
  ka_Address :: string

record AddFriendConfig =
  af_Version :: int
  af_Coordinator :: keyAddr
  af_PKGServers :: "keyAddr list"
  af_MixServers :: "keyAddr list"
  af_CDNServer :: keyAddr
  af_Registrar :: keyAddr

record DialingConfig =
  dc_Version :: int
  dc_Coordinator :: keyAddr
  dc_MixServers :: "keyAddr list"
  dc_CDNServer :: keyAddr

datatype InnerConfig = InnerAddFriend AddFriendConfig | InnerDialing DialingConfig

record Guardian =
  g_Username :: string
  g_Key :: bytes
  g_PQKey :: bytes

record SignedConfig =
  sc_Version :: int
  sc_Service :: string
  sc_Created :: int
  sc_Expires :: int
  sc_PrevConfigHash :: string
  sc_Inner :: "InnerConfig option"
  sc_Guardians :: "Guardian list"
  sc_Signatures :: "string \<rightharpoonup> bytes"
  sc_MinClientVersion :: int

definition SignedConfigVersion :: int where "SignedConfigVersion = 2"

text \<open>
  \<open>ce_encode\<close> is the JSON encoder on the clone without signatures, \<open>None\<close> where it fails;
  \<open>ce_ed_verify\<close> is \<open>ed25519.Verify\<close> for keys of 32 bytes.
\<close>

record ('vk, 'gk) cfg_env =
  ce_encode :: "SignedConfig \<Rightarrow> bytes option"
  ce_sha512_256 :: "bytes \<Rightarrow> bytes"
  ce_base32 :: "bytes \<Rightarrow> string"
  ce_ed_verify :: "bytes \<Rightarrow> bytes \<Rightarrow> bytes \<Rightarrow> bool"
  ce_dsa :: "('vk, 'gk) mldsa"

definition SigningMessage :: "('vk, 'gk) cfg_env \<Rightarrow> SignedConfig \<Rightarrow> (cfg_error, bytes) outcome" where
  "SigningMessage E c =
     (case ce_encode E (c\<lparr>sc_Signatures := Map.empty\<rparr>) of
        None \<Rightarrow> Panic | Some enc \<Rightarrow> Ok (str_bytes ''SignedConfig'' @ enc))"

definition config_Hash :: "('vk, 'gk) cfg_env \<Rightarrow> SignedConfig \<Rightarrow> (cfg_error, string) outcome" where
  "config_Hash E c =
     bind_outcome (SigningMessage E c) (\<lambda>msg. Ok (ce_base32 E (fixed 32 (ce_sha512_256 E msg))))"

text \<open>\<open>ed25519.Verify\<close> panics on a key of another length.\<close>

definition verifyHybridGuardianSig ::
  "('vk, 'gk) cfg_env \<Rightarrow> SignedConfig \<Rightarrow> Guardian \<Rightarrow> bytes \<Rightarrow> string \<Rightarrow> (cfg_error, unit) outcome" where
  "verifyHybridGuardianSig E c g msg keystr =
     (case sc_Signatures c keystr of
        None \<Rightarrow> Err (MissingSignature keystr)
      | Some sig \<Rightarrow>
          if length sig \<noteq> HybridSignatureSize then Err (WrongSignatureLength keystr (length sig))
          else (case HybridSignature_UnmarshalBytes sig of
            Err _ \<Rightarrow> Err (DecodeSignature keystr) | Panic \<Rightarrow> Panic
          | Ok hs \<Rightarrow>
              if length (g_Key g) \<noteq> 32 then Panic
              else if \<not> ce_ed_verify E (g_Key g) msg (hs_Ed hs) then Err (ClassicalSignature keystr)
              else (case pqsig_UnpackPublicKey (ce_dsa E) (g_PQKey g) of
                Err e \<Rightarrow> Err (BadGuardianPQKey keystr e) | Panic \<Rightarrow> Panic
              | Ok pqPub \<Rightarrow>
                  if \<not> pqsig_Verify (ce_dsa E) (Some pqPub) msg (hs_PQ hs)
                  then Err (PostQuantumSignature keystr) else Ok ())))"

fun verify_guardians ::
  "('vk, 'gk) cfg_env \<Rightarrow> SignedConfig \<Rightarrow> bytes \<Rightarrow> Guardian list \<Rightarrow> (cfg_error, unit) outcome" where
  "verify_guardians E c msg [] = Ok ()"
| "verify_guardians E c msg (g # gs) =
     bind_outcome (verifyHybridGuardianSig E c g msg (ce_base32 E (g_Key g)))
       (\<lambda>_. verify_guardians E c msg gs)"

definition config_Verify :: "('vk, 'gk) cfg_env \<Rightarrow> SignedConfig \<Rightarrow> (cfg_error, unit) outcome" where
  "config_Verify E c =
     bind_outcome (SigningMessage E c) (\<lambda>msg. verify_guardians E c msg (sc_Guardians c))"

text \<open>
  One turn of the loop of \<open>VerifyConfigChain\<close>: the guardians of the previous configuration,
  then those of the current one whose key string has not been verified.
\<close>

definition verify_link ::
  "('vk, 'gk) cfg_env \<Rightarrow> nat \<Rightarrow> SignedConfig \<Rightarrow> SignedConfig \<Rightarrow> (cfg_error, unit) outcome" where
  "verify_link E i cur prev =
     bind_outcome (config_Hash E prev) (\<lambda>prevHash.
     if sc_PrevConfigHash cur \<noteq> prevHash then Err (BadPrevConfigHash i)
     else
       bind_outcome (SigningMessage E cur) (\<lambda>msg.
       let verified = set (map (\<lambda>g. ce_base32 E (g_Key g)) (sc_Guardians prev)) in
       case bind_outcome (verify_guardians E cur msg (sc_Guardians prev)) (\<lambda>_.
              verify_guardians E cur msg
                (filter (\<lambda>g. ce_base32 E (g_Key g) \<notin> verified) (sc_Guardians cur))) of
         Err e \<Rightarrow> Err (ChainError i e) | r \<Rightarrow> r))"

fun verify_links :: "('vk, 'gk) cfg_env \<Rightarrow> nat \<Rightarrow> SignedConfig list \<Rightarrow> (cfg_error, unit) outcome" where
  "verify_links E i (cur # prev # rest) =
     bind_outcome (verify_link E i cur prev) (\<lambda>_. verify_links E (Suc i) (prev # rest))"
| "verify_links E i _ = Ok ()"

definition VerifyConfigChain ::
  "('vk, 'gk) cfg_env \<Rightarrow> SignedConfig list \<Rightarrow> (cfg_error, unit) outcome" where
  "VerifyConfigChain E configs = (if length configs < 2 then Panic else verify_links E 0 configs)"

section \<open>Validation\<close>

text \<open>The checks of a list, with the index of the first element that fails one.\<close>

fun check_list :: "(nat \<Rightarrow> 'a \<Rightarrow> 'e option) \<Rightarrow> nat \<Rightarrow> 'a list \<Rightarrow> ('e, unit) outcome" where
  "check_list f i [] = Ok ()"
| "check_list f i (x # xs) = (case f i x of Some e \<Rightarrow> Err e | None \<Rightarrow> check_list f (Suc i) xs)"

definition check_mix :: "nat \<Rightarrow> keyAddr \<Rightarrow> cfg_error option" where
  "check_mix i m =
     (if length (ka_Key m) \<noteq> 32 then Some (InvalidMixKey i)
      else if ka_Address m = [] then Some (EmptyMixAddress i) else None)"

definition check_pkg :: "nat \<Rightarrow> keyAddr \<Rightarrow> cfg_error option" where
  "check_pkg i m =
     (if length (ka_Key m) \<noteq> 32 then Some (InvalidPKGKey i)
      else if ka_Address m = [] then Some (EmptyPKGAddress i) else None)"

definition AddFriendConfig_Validate :: "AddFriendConfig \<Rightarrow> (cfg_error, unit) outcome" where
  "AddFriendConfig_Validate c =
     (if af_Version c \<le> 0 then Err (InvalidVersion (af_Version c))
      else if ka_Address (af_Coordinator c) = [] then Err EmptyCoordinatorAddress
      else if length (ka_Key (af_Coordinator c)) \<noteq> 32 then Err InvalidCoordinatorKey
      else bind_outcome (check_list check_mix 0 (af_MixServers c)) (\<lambda>_.
        if ka_Address (af_CDNServer c) = [] then Err EmptyCDNAddress
        else if length (ka_Key (af_CDNServer c)) \<noteq> 32 then Err InvalidCDNKey
        else check_list check_pkg 0 (af_PKGServers c)))"

definition DialingConfig_Validate :: "DialingConfig \<Rightarrow> (cfg_error, unit) outcome" where
  "DialingConfig_Validate c =
     (if dc_Version c \<le> 0 then Err (InvalidVersion (dc_Version c))
      else if ka_Address (dc_Coordinator c) = [] then Err EmptyCoordinatorAddress
      else if length (ka_Key (dc_Coordinator c)) \<noteq> 32 then Err InvalidCoordinatorKey
      else bind_outcome (check_list check_mix 0 (dc_MixServers c)) (\<lambda>_.
        if ka_Address (dc_CDNServer c) \<noteq> [] \<and> length (ka_Key (dc_CDNServer c)) \<noteq> 32
        then Err InvalidCDNKey else Ok ()))"

fun InnerConfig_Validate :: "InnerConfig \<Rightarrow> (cfg_error, unit) outcome" where
  "InnerConfig_Validate (InnerAddFriend c) = AddFriendConfig_Validate c"
| "InnerConfig_Validate (InnerDialing c) = DialingConfig_Validate c"

definition check_guardian :: "nat \<Rightarrow> Guardian \<Rightarrow> cfg_error option" where
  "check_guardian i g =
     (if length (g_Key g) \<noteq> 32 then Some (InvalidGuardianKey i)
      else if length (g_PQKey g) \<noteq> pqsig_PublicKeySize then Some (InvalidGuardianPQKey i)
      else if g_Username g = [] then Some (InvalidGuardianUsername i) else None)"

definition config_Validate :: "SignedConfig \<Rightarrow> (cfg_error, unit) outcome" where
  "config_Validate c =
     (if sc_Version c \<le> 0 then Err (InvalidVersion (sc_Version c))
      else if sc_Version c \<noteq> SignedConfigVersion then Err (UnsupportedVersion (sc_Version c))
      else if sc_MinClientVersion c > SignedConfigVersion
      then Err (MinClientVersionTooHigh (sc_MinClientVersion c))
      else bind_outcome (check_list check_guardian 0 (sc_Guardians c)) (\<lambda>_.
        if sc_Service c = [] then Err EmptyService
        else (case sc_Inner c of None \<Rightarrow> Err NoInnerConfig | Some i \<Rightarrow> InnerConfig_Validate i)))"

section \<open>Lemmas\<close>

lemmas hs_sizes = HybridSignatureSize_def HybridSignatureEdSize_def HybridSignaturePQSize_def
  pqsig_SignatureSize_def

lemma guardian_sig_iff:
  "verifyHybridGuardianSig E c g msg keystr = Ok () \<longleftrightarrow>
     (\<exists>sig. sc_Signatures c keystr = Some sig \<and> length sig = 3373 \<and> length (g_Key g) = 32 \<and>
        ce_ed_verify E (g_Key g) msg (take 64 sig) \<and> length (g_PQKey g) = 1952 \<and>
        dsa_Verify (ce_dsa E) (dsa_UnpackPub (ce_dsa E) (g_PQKey g)) msg (drop 64 sig))"
  by (auto simp: verifyHybridGuardianSig_def HybridSignature_UnmarshalBytes_def hs_sizes
      pqsig_UnpackPublicKey_def pqsig_PublicKeySize_def pqsig_Verify_def
      split: option.splits if_splits)

lemma verify_guardians_iff:
  "verify_guardians E c msg gs = Ok () \<longleftrightarrow>
     (\<forall>g\<in>set gs. verifyHybridGuardianSig E c g msg (ce_base32 E (g_Key g)) = Ok ())"
  by (induction gs) (auto simp: outcome_simps)

lemma verify_link_iff:
  "verify_link E i cur prev = Ok () \<longleftrightarrow>
     config_Hash E prev = Ok (sc_PrevConfigHash cur) \<and>
     (\<exists>msg. SigningMessage E cur = Ok msg \<and>
        (\<forall>g\<in>set (sc_Guardians prev). verifyHybridGuardianSig E cur g msg (ce_base32 E (g_Key g)) = Ok ()) \<and>
        (\<forall>g\<in>set (sc_Guardians cur).
           ce_base32 E (g_Key g) \<notin> (\<lambda>h. ce_base32 E (g_Key h)) ` set (sc_Guardians prev) \<longrightarrow>
           verifyHybridGuardianSig E cur g msg (ce_base32 E (g_Key g)) = Ok ()))"
proof -
  have ok: "(case m of Err e \<Rightarrow> Err (ChainError i e) | r \<Rightarrow> r) = Ok () \<longleftrightarrow> m = Ok ()"
    for m :: "(cfg_error, unit) outcome" by (cases m) auto
  show ?thesis
    unfolding verify_link_def Let_def
    by (simp add: bind_outcome_Ok ok verify_guardians_iff if_distrib [of "\<lambda>x. x = Ok ()"]) blast
qed

lemma verify_link_index: "verify_link E i cur prev = Ok () \<Longrightarrow> verify_link E j cur prev = Ok ()"
  by (simp add: verify_link_iff)

lemma verify_links_iff:
  "verify_links E i cs = Ok () \<longleftrightarrow>
     (\<forall>j. Suc j < length cs \<longrightarrow> verify_link E 0 (cs ! j) (cs ! Suc j) = Ok ())"
proof (induction E i cs rule: verify_links.induct)
  case (1 E i cur prev rest)
  have "(\<forall>j. Suc j < length (cur # prev # rest) \<longrightarrow>
            verify_link E 0 ((cur # prev # rest) ! j) ((cur # prev # rest) ! Suc j) = Ok ()) \<longleftrightarrow>
        verify_link E 0 cur prev = Ok () \<and> (\<forall>j. Suc j < length (prev # rest) \<longrightarrow>
            verify_link E 0 ((prev # rest) ! j) ((prev # rest) ! Suc j) = Ok ())"
    by (auto simp: nth_Cons split: nat.splits)
  then show ?case
    using 1 verify_link_index [of E i cur prev 0] verify_link_index [of E 0 cur prev i]
    by (auto simp: outcome_simps)
qed simp_all

lemma check_list_ok: "check_list f i xs = Ok () \<longleftrightarrow> (\<forall>j < length xs. f (i + j) (xs ! j) = None)"
proof (induction xs arbitrary: i)
  case (Cons x xs)
  show ?case
    by (simp add: Cons split: option.split)
      (auto simp: nth_Cons less_Suc_eq_0_disj split: nat.splits)
qed simp

section \<open>An instance\<close>

text \<open>
  The properties are evaluated at an environment whose Ed25519 accepts one constant and whose
  ML-DSA signature is the key with the message, and at configurations with one guardian.
\<close>

definition demo_env :: "(SignedConfig \<Rightarrow> bytes option) \<Rightarrow> (bytes \<Rightarrow> bytes) \<Rightarrow> (bytes, bytes) cfg_env" where
  "demo_env enc sha = \<lparr>ce_encode = enc, ce_sha512_256 = sha, ce_base32 = bytes_str,
     ce_ed_verify = (\<lambda>_ _ s. s = replicate 64 1), ce_dsa = toy_dsa\<rparr>"

definition demo_guardian :: "byte \<Rightarrow> Guardian" where
  "demo_guardian pq = \<lparr>g_Username = ''g'', g_Key = replicate 32 7, g_PQKey = replicate 1952 pq\<rparr>"

definition demo_sig :: "byte \<Rightarrow> bytes \<Rightarrow> bytes" where
  "demo_sig pq msg = replicate 64 1 @ fixed 3309 (replicate 32 pq @ msg)"

definition demo_inner :: InnerConfig where
  "demo_inner = InnerDialing \<lparr>dc_Version = 1, dc_Coordinator = \<lparr>ka_Key = replicate 32 1, ka_Address = ''c''\<rparr>,
     dc_MixServers = [], dc_CDNServer = \<lparr>ka_Key = [], ka_Address = []\<rparr>\<rparr>"

definition demo_config :: "int \<Rightarrow> string \<Rightarrow> byte \<Rightarrow> (string \<rightharpoonup> bytes) \<Rightarrow> SignedConfig" where
  "demo_config created prev pq sigs = \<lparr>sc_Version = 2, sc_Service = ''Dialing'', sc_Created = created,
     sc_Expires = 100, sc_PrevConfigHash = prev, sc_Inner = Some demo_inner,
     sc_Guardians = [demo_guardian pq], sc_Signatures = sigs, sc_MinClientVersion = 2\<rparr>"

lemma demo_valid: "config_Validate (demo_config t prev pq sigs) = Ok ()"
  by (simp add: config_Validate_def demo_config_def SignedConfigVersion_def check_guardian_def
      demo_guardian_def pqsig_PublicKeySize_def demo_inner_def DialingConfig_Validate_def)

lemma demo_guardian_sig:
  "sc_Signatures c k = Some (demo_sig pq msg) \<Longrightarrow>
     verifyHybridGuardianSig (demo_env enc sha) c (demo_guardian pq') msg k = Ok () \<longleftrightarrow> pq = pq'"
  by (auto simp: guardian_sig_iff demo_env_def demo_guardian_def demo_sig_def toy_dsa_def)
    (auto simp: fixed_def)

lemma demo_link:
  assumes "enc ((demo_config t prev pq sigs)\<lparr>sc_Signatures := Map.empty\<rparr>) = Some m"
    and "sigs (bytes_str (replicate 32 7)) = Some (demo_sig pq' (str_bytes ''SignedConfig'' @ m))"
    and "config_Hash (demo_env enc sha) (demo_config t' prev' pq' sigs') = Ok prev"
  shows "verify_link (demo_env enc sha) i (demo_config t prev pq sigs) (demo_config t' prev' pq' sigs') = Ok ()"
proof -
  let ?E = "demo_env enc sha" and ?c = "demo_config t prev pq sigs"
  let ?m = "str_bytes ''SignedConfig'' @ m"
  have k: "ce_base32 ?E (g_Key (demo_guardian q)) = bytes_str (replicate 32 7)" for q
    by (simp add: demo_env_def demo_guardian_def)
  have "SigningMessage ?E ?c = Ok ?m" using assms(1) by (simp add: SigningMessage_def demo_env_def)
  moreover have "verifyHybridGuardianSig ?E ?c (demo_guardian pq') ?m (bytes_str (replicate 32 7)) = Ok ()"
    using assms(2) by (subst demo_guardian_sig) (auto simp: demo_config_def)
  moreover have "sc_PrevConfigHash ?c = prev" "sc_Guardians ?c = [demo_guardian pq]"
    "sc_Guardians (demo_config t' prev' pq' sigs') = [demo_guardian pq']" by (simp_all add: demo_config_def)
  ultimately show ?thesis
    unfolding verify_link_iff using assms(3) k by auto
qed

section \<open>Properties\<close>

text \<open>
  C26: no silent downgrade. A guardian's signature is accepted exactly when it is present under
  the guardian's key, has the length of both halves together, and both the Ed25519 half and the
  ML-DSA-65 half verify under the guardian's two keys of the right sizes.
\<close>

theorem both_halves_required:
  "verifyHybridGuardianSig E c g msg keystr = Ok () \<longleftrightarrow>
     (\<exists>sig. sc_Signatures c keystr = Some sig \<and> length sig = 3373 \<and> length (g_Key g) = 32 \<and>
        ce_ed_verify E (g_Key g) msg (take 64 sig) \<and> length (g_PQKey g) = 1952 \<and>
        dsa_Verify (ce_dsa E) (dsa_UnpackPub (ce_dsa E) (g_PQKey g)) msg (drop 64 sig))"
  by (rule guardian_sig_iff)

text \<open>
  C29: what a verified chain shows. Each configuration names the hash of the one it replaces,
  is signed in both halves by every guardian of that one, and by every guardian of its own whose
  key the previous one does not list.
\<close>

theorem chain_sound:
  assumes "VerifyConfigChain E cs = Ok ()" and "Suc i < length cs"
  shows "config_Hash E (cs ! Suc i) = Ok (sc_PrevConfigHash (cs ! i)) \<and>
    (\<exists>msg. SigningMessage E (cs ! i) = Ok msg \<and>
      (\<forall>g\<in>set (sc_Guardians (cs ! Suc i)).
         verifyHybridGuardianSig E (cs ! i) g msg (ce_base32 E (g_Key g)) = Ok ()) \<and>
      (\<forall>g\<in>set (sc_Guardians (cs ! i)).
         ce_base32 E (g_Key g) \<notin> (\<lambda>h. ce_base32 E (g_Key h)) ` set (sc_Guardians (cs ! Suc i)) \<longrightarrow>
         verifyHybridGuardianSig E (cs ! i) g msg (ce_base32 E (g_Key g)) = Ok ()))"
proof -
  have "verify_link E 0 (cs ! i) (cs ! Suc i) = Ok ()"
    using assms by (auto simp: VerifyConfigChain_def verify_links_iff split: if_splits)
  then show ?thesis unfolding verify_link_iff .
qed

definition demo_chain :: "SignedConfig list" where
  "demo_chain = [demo_config 2 (bytes_str (replicate 32 0)) 2
       [bytes_str (replicate 32 7) \<mapsto> demo_sig 1 (str_bytes ''SignedConfig'')],
     demo_config 1 '''' 1 Map.empty]"

lemma demo_chain_ok: "VerifyConfigChain (demo_env (\<lambda>_. Some []) (\<lambda>_. [])) demo_chain = Ok ()"
proof -
  let ?E = "demo_env (\<lambda>_. Some []) (\<lambda>_. [])"
  have "config_Hash ?E (demo_config 1 '''' 1 Map.empty) = Ok (bytes_str (replicate 32 0))"
    by (simp add: config_Hash_def SigningMessage_def demo_env_def fixed_def)
  then have "verify_link ?E 0 (demo_chain ! 0) (demo_chain ! 1) = Ok ()"
    unfolding demo_chain_def by (simp, intro demo_link) auto
  then show ?thesis by (simp add: VerifyConfigChain_def demo_chain_def)
qed

theorem chain_sound_witness:
  "config_Hash (demo_env (\<lambda>_. Some []) (\<lambda>_. [])) (demo_chain ! 1) = Ok (sc_PrevConfigHash (demo_chain ! 0))"
  using chain_sound [OF demo_chain_ok, of 0] by (simp add: demo_chain_def)

text \<open>
  A chain can verify although its newest configuration does not. A guardian of the new
  configuration whose Ed25519 key the previous one lists is not checked again, so a changed
  ML-DSA key needs no signature; the check of the configuration alone then fails.
\<close>

theorem chain_skips_changed_pq_key:
  "\<exists>(E :: (bytes, bytes) cfg_env) cur prev. config_Validate cur = Ok () \<and> config_Validate prev = Ok () \<and>
     VerifyConfigChain E [cur, prev] = Ok () \<and> config_Verify E cur \<noteq> Ok ()"
proof -
  let ?E = "demo_env (\<lambda>_. Some []) (\<lambda>_. [])"
  let ?sigs = "[bytes_str (replicate 32 7) \<mapsto> demo_sig 1 (str_bytes ''SignedConfig'')]"
  let ?cur = "demo_config 2 (bytes_str (replicate 32 0)) 2 ?sigs"
  have "verifyHybridGuardianSig ?E ?cur (demo_guardian 2) (str_bytes ''SignedConfig'')
      (bytes_str (replicate 32 7)) \<noteq> Ok ()"
    by (subst demo_guardian_sig [of _ _ 1]) (simp_all add: demo_config_def)
  then have "config_Verify ?E ?cur \<noteq> Ok ()"
    by (auto simp: config_Verify_def SigningMessage_def demo_env_def demo_config_def demo_guardian_def
        bind_outcome_Ok)
  then show ?thesis
    using demo_chain_ok demo_valid unfolding demo_chain_def by blast
qed

end
