(* ===== verification/ConfigCodec.thy ===== *)
theory ConfigCodec
  imports Config
begin

text \<open>
  The versioned JSON forms of configurations (src/config/config.go): conversion of the inner
  configurations to and from their forms, and the dispatch on the version number. How
  encoding/json writes and reads each form, and the version alone, are the parameters collected
  in \<open>cfg_json\<close>.
\<close>

section \<open>Forms\<close>

record addFriendV1 =
  a1_Version :: int
  a1_Coordinator :: keyAddr
  a1_PKGServers :: "keyAddr list"
  a1_MixServers :: "keyAddr list"
  a1_CDNServer :: keyAddr
  a1_RegistrarHost :: string

record addFriendV2 =
  a2_Version :: int
  a2_Coordinator :: keyAddr
  a2_PKGServers :: "keyAddr list"
  a2_MixServers :: "keyAddr list"
  a2_CDNServer :: keyAddr
  a2_Registrar :: keyAddr

record dialingV1 =
  d1_Version :: int
  d1_Coordinator :: keyAddr
  d1_MixServers :: "keyAddr list"
  d1_CDNServer :: keyAddr

record signedConfigV2 =
  s2_Version :: int
  s2_Created :: int
  s2_Expires :: int
  s2_PrevConfigHash :: string
  s2_Service :: string
  s2_Inner :: bytes
  s2_Guardians :: "Guardian list"
  s2_Signatures :: "string \<rightharpoonup> bytes"
  s2_MinClientVersion :: int

record cfg_json =
  cj_version :: "bytes \<Rightarrow> int option"
  cj_enc_a1 :: "addFriendV1 \<Rightarrow> bytes"
  cj_dec_a1 :: "bytes \<Rightarrow> addFriendV1 option"
  cj_enc_a2 :: "addFriendV2 \<Rightarrow> bytes"
  cj_dec_a2 :: "bytes \<Rightarrow> addFriendV2 option"
  cj_enc_d1 :: "dialingV1 \<Rightarrow> bytes"
  cj_dec_d1 :: "bytes \<Rightarrow> dialingV1 option"
  cj_enc_s2 :: "signedConfigV2 \<Rightarrow> bytes"
  cj_dec_s2 :: "bytes \<Rightarrow> signedConfigV2 option"

text \<open>What is documented of encoding/json: a form reads back as written, with its version.\<close>

definition json_laws :: "cfg_json \<Rightarrow> bool" where
  "json_laws J \<longleftrightarrow>
     (\<forall>x. cj_dec_a1 J (cj_enc_a1 J x) = Some x \<and> cj_version J (cj_enc_a1 J x) = Some (a1_Version x)) \<and>
     (\<forall>x. cj_dec_a2 J (cj_enc_a2 J x) = Some x \<and> cj_version J (cj_enc_a2 J x) = Some (a2_Version x)) \<and>
     (\<forall>x. cj_dec_d1 J (cj_enc_d1 J x) = Some x \<and> cj_version J (cj_enc_d1 J x) = Some (d1_Version x)) \<and>
     (\<forall>x. finite (dom (s2_Signatures x)) \<longrightarrow>
        cj_dec_s2 J (cj_enc_s2 J x) = Some x \<and> cj_version J (cj_enc_s2 J x) = Some (s2_Version x))"

section \<open>Add-friend configurations\<close>

definition AddFriendConfigVersion :: int where "AddFriendConfigVersion = 2"
definition DialingConfigVersion :: int where "DialingConfigVersion = 1"

definition af_UseLatestVersion :: "AddFriendConfig \<Rightarrow> AddFriendConfig" where
  "af_UseLatestVersion c = c\<lparr>af_Version := AddFriendConfigVersion\<rparr>"

definition af_v1 :: "AddFriendConfig \<Rightarrow> addFriendV1" where
  "af_v1 c = \<lparr>a1_Version = 1, a1_Coordinator = af_Coordinator c,
     a1_PKGServers = map (\<lambda>srv. \<lparr>ka_Key = ka_Key srv, ka_Address = ka_Address srv\<rparr>) (af_PKGServers c),
     a1_MixServers = map (\<lambda>srv. \<lparr>ka_Key = ka_Key srv, ka_Address = ka_Address srv\<rparr>) (af_MixServers c),
     a1_CDNServer = af_CDNServer c, a1_RegistrarHost = ka_Address (af_Registrar c)\<rparr>"

definition af_v2 :: "AddFriendConfig \<Rightarrow> addFriendV2" where
  "af_v2 c = \<lparr>a2_Version = 2, a2_Coordinator = af_Coordinator c,
     a2_PKGServers = map (\<lambda>srv. \<lparr>ka_Key = ka_Key srv, ka_Address = ka_Address srv\<rparr>) (af_PKGServers c),
     a2_MixServers = map (\<lambda>srv. \<lparr>ka_Key = ka_Key srv, ka_Address = ka_Address srv\<rparr>) (af_MixServers c),
     a2_CDNServer = af_CDNServer c, a2_Registrar = af_Registrar c\<rparr>"

text \<open>The receiver \<open>c\<close> keeps the registrar key that it has.\<close>

definition af_fromV1 :: "AddFriendConfig \<Rightarrow> addFriendV1 \<Rightarrow> AddFriendConfig" where
  "af_fromV1 c c1 = \<lparr>af_Version = 1, af_Coordinator = a1_Coordinator c1,
     af_PKGServers = map (\<lambda>srv. \<lparr>ka_Key = ka_Key srv, ka_Address = ka_Address srv\<rparr>) (a1_PKGServers c1),
     af_MixServers = map (\<lambda>srv. \<lparr>ka_Key = ka_Key srv, ka_Address = ka_Address srv\<rparr>) (a1_MixServers c1),
     af_CDNServer = a1_CDNServer c1,
     af_Registrar = (af_Registrar c)\<lparr>ka_Address := a1_RegistrarHost c1\<rparr>\<rparr>"

definition af_fromV2 :: "addFriendV2 \<Rightarrow> AddFriendConfig" where
  "af_fromV2 c2 = \<lparr>af_Version = 2, af_Coordinator = a2_Coordinator c2,
     af_PKGServers = map (\<lambda>srv. \<lparr>ka_Key = ka_Key srv, ka_Address = ka_Address srv\<rparr>) (a2_PKGServers c2),
     af_MixServers = map (\<lambda>srv. \<lparr>ka_Key = ka_Key srv, ka_Address = ka_Address srv\<rparr>) (a2_MixServers c2),
     af_CDNServer = a2_CDNServer c2, af_Registrar = a2_Registrar c2\<rparr>"

definition af_MarshalJSON :: "cfg_json \<Rightarrow> AddFriendConfig \<Rightarrow> (cfg_error, bytes) outcome" where
  "af_MarshalJSON J c =
     (if af_Version c = 1 then Ok (cj_enc_a1 J (af_v1 c))
      else if af_Version c = 2 then Ok (cj_enc_a2 J (af_v2 c))
      else Err (UnknownVersion (af_Version c)))"

definition af_UnmarshalJSON ::
  "cfg_json \<Rightarrow> AddFriendConfig \<Rightarrow> bytes \<Rightarrow> (cfg_error, AddFriendConfig) outcome" where
  "af_UnmarshalJSON J c d =
     (case cj_version J d of
        None \<Rightarrow> Err BadJSON
      | Some v \<Rightarrow>
          if v = 1 then (case cj_dec_a1 J d of None \<Rightarrow> Err BadJSON | Some c1 \<Rightarrow> Ok (af_fromV1 c c1))
          else if v = 2 then (case cj_dec_a2 J d of None \<Rightarrow> Err BadJSON | Some c2 \<Rightarrow> Ok (af_fromV2 c2))
          else Err (UnknownVersion v))"

section \<open>Dialing configurations\<close>

definition dc_UseLatestVersion :: "DialingConfig \<Rightarrow> DialingConfig" where
  "dc_UseLatestVersion c = c\<lparr>dc_Version := DialingConfigVersion\<rparr>"

definition dc_v1 :: "DialingConfig \<Rightarrow> dialingV1" where
  "dc_v1 c = \<lparr>d1_Version = 1, d1_Coordinator = dc_Coordinator c,
     d1_MixServers = map (\<lambda>srv. \<lparr>ka_Key = ka_Key srv, ka_Address = ka_Address srv\<rparr>) (dc_MixServers c),
     d1_CDNServer = dc_CDNServer c\<rparr>"

definition dc_fromV1 :: "dialingV1 \<Rightarrow> DialingConfig" where
  "dc_fromV1 c1 = \<lparr>dc_Version = 1, dc_Coordinator = d1_Coordinator c1,
     dc_MixServers = map (\<lambda>srv. \<lparr>ka_Key = ka_Key srv, ka_Address = ka_Address srv\<rparr>) (d1_MixServers c1),
     dc_CDNServer = d1_CDNServer c1\<rparr>"

definition dc_MarshalJSON :: "cfg_json \<Rightarrow> DialingConfig \<Rightarrow> (cfg_error, bytes) outcome" where
  "dc_MarshalJSON J c =
     (if dc_Version c = 1 then Ok (cj_enc_d1 J (dc_v1 c)) else Err (UnknownVersion (dc_Version c)))"

definition dc_UnmarshalJSON :: "cfg_json \<Rightarrow> bytes \<Rightarrow> (cfg_error, DialingConfig) outcome" where
  "dc_UnmarshalJSON J d =
     (case cj_version J d of
        None \<Rightarrow> Err BadJSON
      | Some v \<Rightarrow>
          if v = 1 then (case cj_dec_d1 J d of None \<Rightarrow> Err BadJSON | Some c1 \<Rightarrow> Ok (dc_fromV1 c1))
          else Err (UnknownVersion v))"

section \<open>Signed configurations\<close>

fun inner_MarshalJSON :: "cfg_json \<Rightarrow> InnerConfig option \<Rightarrow> (cfg_error, bytes) outcome" where
  "inner_MarshalJSON J None = Ok (str_bytes ''null'')"
| "inner_MarshalJSON J (Some (InnerAddFriend c)) = af_MarshalJSON J c"
| "inner_MarshalJSON J (Some (InnerDialing c)) = dc_MarshalJSON J c"

text \<open>A fresh value of the registered type; \<open>init\<close> registers these two services.\<close>

definition zero_keyAddr :: keyAddr where "zero_keyAddr = \<lparr>ka_Key = [], ka_Address = []\<rparr>"

definition zero_AddFriendConfig :: AddFriendConfig where
  "zero_AddFriendConfig = \<lparr>af_Version = 0, af_Coordinator = zero_keyAddr, af_PKGServers = [],
     af_MixServers = [], af_CDNServer = zero_keyAddr, af_Registrar = zero_keyAddr\<rparr>"

definition decodeInner :: "cfg_json \<Rightarrow> string \<Rightarrow> bytes \<Rightarrow> (cfg_error, InnerConfig) outcome" where
  "decodeInner J service raw =
     (if service = ''AddFriend''
      then bind_outcome (af_UnmarshalJSON J zero_AddFriendConfig raw) (\<lambda>c. Ok (InnerAddFriend c))
      else if service = ''Dialing''
      then bind_outcome (dc_UnmarshalJSON J raw) (\<lambda>c. Ok (InnerDialing c))
      else Err (UnregisteredService service))"

definition config_MarshalJSON :: "cfg_json \<Rightarrow> SignedConfig \<Rightarrow> (cfg_error, bytes) outcome" where
  "config_MarshalJSON J c =
     (if sc_Version c = 2 then
        bind_outcome (inner_MarshalJSON J (sc_Inner c)) (\<lambda>innerJSON.
        Ok (cj_enc_s2 J \<lparr>s2_Version = 2, s2_Created = sc_Created c, s2_Expires = sc_Expires c,
          s2_PrevConfigHash = sc_PrevConfigHash c, s2_Service = sc_Service c, s2_Inner = innerJSON,
          s2_Guardians = sc_Guardians c, s2_Signatures = sc_Signatures c,
          s2_MinClientVersion = sc_MinClientVersion c\<rparr>))
      else if sc_Version c = 1 then Err VersionOneRefused else Err (UnknownVersion (sc_Version c)))"

definition config_UnmarshalJSON :: "cfg_json \<Rightarrow> bytes \<Rightarrow> (cfg_error, SignedConfig) outcome" where
  "config_UnmarshalJSON J d =
     (case cj_version J d of
        None \<Rightarrow> Err BadJSON
      | Some v \<Rightarrow>
          if v = 2 then
            (case cj_dec_s2 J d of
               None \<Rightarrow> Err BadJSON
             | Some c2 \<Rightarrow>
                 bind_outcome (decodeInner J (s2_Service c2) (s2_Inner c2)) (\<lambda>inner.
                 Ok \<lparr>sc_Version = 2, sc_Service = s2_Service c2, sc_Created = s2_Created c2,
                   sc_Expires = s2_Expires c2, sc_PrevConfigHash = s2_PrevConfigHash c2,
                   sc_Inner = Some inner, sc_Guardians = s2_Guardians c2,
                   sc_Signatures = s2_Signatures c2, sc_MinClientVersion = s2_MinClientVersion c2\<rparr>))
          else if v = 1 then Err VersionOneRefused else Err (UnknownVersion v))"

section \<open>Round trips\<close>

text \<open>A configuration in the latest forms whose inner part is that of its service.\<close>

fun latest_inner :: "string \<Rightarrow> InnerConfig option \<Rightarrow> bool" where
  "latest_inner service (Some (InnerAddFriend c)) = (service = ''AddFriend'' \<and> af_Version c = 2)"
| "latest_inner service (Some (InnerDialing c)) = (service = ''Dialing'' \<and> dc_Version c = 1)"
| "latest_inner service None = False"

definition latest_form :: "SignedConfig \<Rightarrow> bool" where
  "latest_form c \<longleftrightarrow> sc_Version c = SignedConfigVersion \<and> latest_inner (sc_Service c) (sc_Inner c) \<and>
     finite (dom (sc_Signatures c))"

lemma copy_keyAddr: "map (\<lambda>srv. \<lparr>ka_Key = ka_Key srv, ka_Address = ka_Address srv\<rparr>) xs = xs"
  by (induction xs) simp_all

lemmas codec_defs = af_v1_def af_v2_def af_fromV1_def af_fromV2_def dc_v1_def dc_fromV1_def copy_keyAddr

lemma inner_roundtrip:
  assumes "json_laws J" and "latest_inner s i"
  shows "\<exists>d. inner_MarshalJSON J i = Ok d \<and> decodeInner J s d = Ok (the i)"
  using assms
  by (cases "(s, i)" rule: latest_inner.cases)
    (auto simp: af_MarshalJSON_def dc_MarshalJSON_def decodeInner_def af_UnmarshalJSON_def
      dc_UnmarshalJSON_def json_laws_def codec_defs)

text \<open>A concrete format with the laws, the version first.\<close>

abbreviation "put_ka \<equiv> put_via (\<lambda>k. (ka_Key k, ka_Address k)) (put_pair put_field put_str)"
abbreviation "get_ka \<equiv> get_via (\<lambda>(k, a). \<lparr>ka_Key = k, ka_Address = a\<rparr>) (get_pair get_field get_str)"

abbreviation "put_af \<equiv> put_pair put_int (put_pair put_ka (put_pair (put_list put_ka)
  (put_pair (put_list put_ka) (put_pair put_ka put_ka))))"
abbreviation "get_af \<equiv> get_pair get_int (get_pair get_ka (get_pair (get_list get_ka)
  (get_pair (get_list get_ka) (get_pair get_ka get_ka))))"

definition toy_json :: cfg_json where
  "toy_json = \<lparr>cj_version = (\<lambda>d. Some (fst (get_int d))),
     cj_enc_a1 = put_via (\<lambda>x. (a1_Version x, a1_Coordinator x, a1_PKGServers x, a1_MixServers x,
        a1_CDNServer x, \<lparr>ka_Key = [], ka_Address = a1_RegistrarHost x\<rparr>)) put_af,
     cj_dec_a1 = (\<lambda>d. Some (fst (get_via (\<lambda>(v, c, p, m, n, r). \<lparr>a1_Version = v, a1_Coordinator = c,
        a1_PKGServers = p, a1_MixServers = m, a1_CDNServer = n, a1_RegistrarHost = ka_Address r\<rparr>) get_af d))),
     cj_enc_a2 = put_via (\<lambda>x. (a2_Version x, a2_Coordinator x, a2_PKGServers x, a2_MixServers x,
        a2_CDNServer x, a2_Registrar x)) put_af,
     cj_dec_a2 = (\<lambda>d. Some (fst (get_via (\<lambda>(v, c, p, m, n, r). \<lparr>a2_Version = v, a2_Coordinator = c,
        a2_PKGServers = p, a2_MixServers = m, a2_CDNServer = n, a2_Registrar = r\<rparr>) get_af d))),
     cj_enc_d1 = put_via (\<lambda>x. (d1_Version x, d1_Coordinator x, d1_MixServers x, d1_CDNServer x))
        (put_pair put_int (put_pair put_ka (put_pair (put_list put_ka) put_ka))),
     cj_dec_d1 = (\<lambda>d. Some (fst (get_via (\<lambda>(v, c, m, n). \<lparr>d1_Version = v, d1_Coordinator = c,
        d1_MixServers = m, d1_CDNServer = n\<rparr>)
        (get_pair get_int (get_pair get_ka (get_pair (get_list get_ka) get_ka))) d))),
     cj_enc_s2 = (\<lambda>x. put_pair put_int (put_pair put_int (put_pair put_int (put_pair put_str (put_pair put_str
        (put_pair put_field (put_pair (put_list (put_via (\<lambda>g. (g_Username g, g_Key g, g_PQKey g))
          (put_pair put_str (put_pair put_field put_field))))
        (put_pair (put_list (put_pair put_str put_field)) put_int)))))))
        (s2_Version x, s2_Created x, s2_Expires x, s2_PrevConfigHash x, s2_Service x, s2_Inner x,
         s2_Guardians x, map_pairs (s2_Signatures x), s2_MinClientVersion x)),
     cj_dec_s2 = (\<lambda>d. Some (fst (get_via (\<lambda>(v, c, e, p, s, i, g, m, n). \<lparr>s2_Version = v, s2_Created = c,
        s2_Expires = e, s2_PrevConfigHash = p, s2_Service = s, s2_Inner = i, s2_Guardians = g,
        s2_Signatures = map_of m, s2_MinClientVersion = n\<rparr>)
        (get_pair get_int (get_pair get_int (get_pair get_int (get_pair get_str (get_pair get_str
        (get_pair get_field (get_pair (get_list (get_via (\<lambda>(u, k, q). \<lparr>g_Username = u, g_Key = k, g_PQKey = q\<rparr>)
          (get_pair get_str (get_pair get_field get_field))))
        (get_pair (get_list (get_pair get_str get_field)) get_int)))))))) d)))\<rparr>"

lemma parses_ka: "parses put_ka get_ka"
  by (intro parses_intros) simp

lemma parses_af: "parses put_af get_af"
  by (intro parses_pair parses_int parses_list parses_ka)

lemma get_int_put_pair: "get_int (put_pair put_int q x) = (fst x, q (snd x))"
  by (simp add: put_pair_def)

lemma toy_json_laws: "json_laws toy_json"
  unfolding json_laws_def
proof (intro conjI allI impI)
  fix x
  show "cj_dec_a1 toy_json (cj_enc_a1 toy_json x) = Some x"
    by (simp add: toy_json_def put_via_def get_via_def parsesD_alone [OF parses_af])
  show "cj_dec_a2 toy_json (cj_enc_a2 toy_json y) = Some y" for y
    by (simp add: toy_json_def put_via_def get_via_def parsesD_alone [OF parses_af])
  have "parses (put_pair put_int (put_pair put_ka (put_pair (put_list put_ka) put_ka)))
      (get_pair get_int (get_pair get_ka (get_pair (get_list get_ka) get_ka)))"
    by (intro parses_pair parses_int parses_list parses_ka)
  then show "cj_dec_d1 toy_json (cj_enc_d1 toy_json z) = Some z" for z
    by (simp add: toy_json_def put_via_def [of "\<lambda>x. (d1_Version x, _ x)"] get_via_def
        [of "\<lambda>(v, c, m, n). _ v c m n"] parsesD_alone)
  show "cj_version toy_json (cj_enc_a1 toy_json x) = Some (a1_Version x)"
    "cj_version toy_json (cj_enc_a2 toy_json y) = Some (a2_Version y)"
    "cj_version toy_json (cj_enc_d1 toy_json z) = Some (d1_Version z)"
    "cj_version toy_json (cj_enc_s2 toy_json s) = Some (s2_Version s)" for y z s
    by (simp_all add: toy_json_def put_via_def get_int_put_pair)
  fix s :: signedConfigV2 assume f: "finite (dom (s2_Signatures s))"
  have "parses (put_pair put_int (put_pair put_int (put_pair put_int (put_pair put_str (put_pair put_str
        (put_pair put_field (put_pair (put_list (put_via (\<lambda>g. (g_Username g, g_Key g, g_PQKey g))
          (put_pair put_str (put_pair put_field put_field))))
        (put_pair (put_list (put_pair put_str put_field)) put_int))))))))
     (get_pair get_int (get_pair get_int (get_pair get_int (get_pair get_str (get_pair get_str
        (get_pair get_field (get_pair (get_list (get_via (\<lambda>(u, k, q). \<lparr>g_Username = u, g_Key = k, g_PQKey = q\<rparr>)
          (get_pair get_str (get_pair get_field get_field))))
        (get_pair (get_list (get_pair get_str get_field)) get_int))))))))"
    by (intro parses_intros) simp
  from parsesD_alone [OF this] show "cj_dec_s2 toy_json (cj_enc_s2 toy_json s) = Some s"
    by (simp add: toy_json_def get_via_def map_of_map_pairs f)
qed

text \<open>
  A configuration in the latest forms survives its JSON: decoding what MarshalJSON produced
  gives the same configuration, signatures included.
\<close>

theorem config_json_roundtrip:
  assumes "json_laws J" and "latest_form c"
  shows "\<exists>d. config_MarshalJSON J c = Ok d \<and> config_UnmarshalJSON J d = Ok c"
proof -
  obtain d where d: "inner_MarshalJSON J (sc_Inner c) = Ok d"
    "decodeInner J (sc_Service c) d = Ok (the (sc_Inner c))"
    using inner_roundtrip [OF assms(1)] assms(2) by (auto simp: latest_form_def)
  moreover have "sc_Inner c \<noteq> None" using assms(2) by (cases "sc_Inner c") (auto simp: latest_form_def)
  ultimately show ?thesis
    using assms
    by (auto simp: config_MarshalJSON_def config_UnmarshalJSON_def latest_form_def SignedConfigVersion_def
        json_laws_def)
qed

theorem config_json_roundtrip_witness:
  "\<exists>d. config_UnmarshalJSON toy_json d = Ok (demo_config 1 '''' 1 [''k'' \<mapsto> [5]])"
proof -
  have "latest_form (demo_config 1 '''' 1 [''k'' \<mapsto> [5]])"
    by (simp add: latest_form_def demo_config_def SignedConfigVersion_def demo_inner_def)
  from config_json_roundtrip [OF toy_json_laws this] show ?thesis by blast
qed

text \<open>
  An add-friend configuration of version 1 does not carry the registrar's key: what it is
  decoded to has the address and, in a fresh receiver, an empty key; everything else is kept.
\<close>

theorem addfriend_v1_loses_registrar_key:
  assumes "json_laws J" and "af_Version c = 1"
  shows "\<exists>d. af_MarshalJSON J c = Ok d \<and> af_UnmarshalJSON J zero_AddFriendConfig d =
    Ok (c\<lparr>af_Registrar := \<lparr>ka_Key = [], ka_Address = ka_Address (af_Registrar c)\<rparr>\<rparr>)"
  using assms
  by (auto simp: af_MarshalJSON_def af_UnmarshalJSON_def json_laws_def codec_defs
      zero_AddFriendConfig_def zero_keyAddr_def)

theorem addfriend_v1_loses_registrar_key_witness:
  "\<exists>d c. af_UnmarshalJSON toy_json zero_AddFriendConfig d = Ok c \<and>
     af_Registrar c = \<lparr>ka_Key = [], ka_Address = ''r''\<rparr>"
  using addfriend_v1_loses_registrar_key [OF toy_json_laws, of "zero_AddFriendConfig\<lparr>af_Version := 1,
      af_Registrar := \<lparr>ka_Key = [9], ka_Address = ''r''\<rparr>\<rparr>"]
  by fastforce

end
