(* ===== verification/ConfigServer.thy ===== *)
theory ConfigServer
  imports ConfigCodec Http
begin

text \<open>
  The configuration server and client (src/config/server.go, client.go, persist.go): the chain
  of configurations the server keeps per service, how a new one replaces the current one, the
  walk that serves a chain, and what a client checks of the chain it fetched. A handler runs
  under the server's mutex as one step; the request body and the response are already decoded,
  the codec is ConfigCodec.
\<close>

section \<open>The server\<close>

record config_server =
  allConfigs :: "string \<rightharpoonup> SignedConfig"
  currentConfig :: "string \<rightharpoonup> string"

datatype handler_error =
    BodyError | InvalidConfig cfg_error | UnknownService | PrevHashMismatch | NotCreatedAfter
  | ChainRejected cfg_error | PersistFailed | NoService | ServiceNotFound | NoHave | NoWant | WantNotFound

text \<open>
  \<open>persist\<close> is whether writing the state file succeeds; the maps change before it is written.
  Looking up the current hash among all configurations gives nil where it is absent.
\<close>

definition newConfigHandler ::
  "('vk, 'gk) cfg_env \<Rightarrow> bool \<Rightarrow> SignedConfig option \<Rightarrow> config_server \<Rightarrow>
   config_server \<times> (handler_error, unit) outcome" where
  "newConfigHandler E persist body srv =
     (case body of
        None \<Rightarrow> (srv, Err BodyError)
      | Some nextConfig \<Rightarrow>
          (case config_Validate nextConfig of
             Err e \<Rightarrow> (srv, Err (InvalidConfig e)) | Panic \<Rightarrow> (srv, Panic)
           | Ok _ \<Rightarrow>
               (let service = sc_Service nextConfig in
                case currentConfig srv service of
                  None \<Rightarrow> (srv, Err UnknownService)
                | Some prevHash \<Rightarrow>
                    if sc_PrevConfigHash nextConfig \<noteq> prevHash then (srv, Err PrevHashMismatch)
                    else (case allConfigs srv prevHash of
                      None \<Rightarrow> (srv, Panic)
                    | Some prevConfig \<Rightarrow>
                        if \<not> sc_Created nextConfig > sc_Created prevConfig then (srv, Err NotCreatedAfter)
                        else (case VerifyConfigChain E [nextConfig, prevConfig] of
                          Err e \<Rightarrow> (srv, Err (ChainRejected e)) | Panic \<Rightarrow> (srv, Panic)
                        | Ok _ \<Rightarrow>
                            (case config_Hash E nextConfig of
                               Ok nextHash \<Rightarrow>
                                 (srv\<lparr>currentConfig := (currentConfig srv)(service \<mapsto> nextHash),
                                      allConfigs := (allConfigs srv)(nextHash \<mapsto> nextConfig)\<rparr>,
                                  if persist then Ok () else Err PersistFailed)
                             | _ \<Rightarrow> (srv, Panic)))))))"

definition SetCurrentConfig ::
  "('vk, 'gk) cfg_env \<Rightarrow> bool \<Rightarrow> SignedConfig \<Rightarrow> config_server \<Rightarrow>
   config_server \<times> (handler_error, unit) outcome" where
  "SetCurrentConfig E persist config srv =
     (case config_Validate config of
        Err e \<Rightarrow> (srv, Err (InvalidConfig e)) | Panic \<Rightarrow> (srv, Panic)
      | Ok _ \<Rightarrow>
          (case config_Hash E config of
             Ok hash \<Rightarrow>
               (srv\<lparr>allConfigs := (allConfigs srv)(hash \<mapsto> config),
                    currentConfig := (currentConfig srv)(sc_Service config \<mapsto> hash)\<rparr>,
                if persist then Ok () else Err PersistFailed)
           | _ \<Rightarrow> (srv, Panic)))"

text \<open>A missing service gives the empty hash, which may be the key of no configuration.\<close>

definition server_CurrentConfig :: "string \<Rightarrow> config_server \<Rightarrow> SignedConfig option \<times> string" where
  "server_CurrentConfig service srv =
     (let hash = (case currentConfig srv service of None \<Rightarrow> [] | Some h \<Rightarrow> h)
      in (allConfigs srv hash, hash))"

definition getCurrentHandler ::
  "http_request \<Rightarrow> config_server \<Rightarrow> (handler_error, SignedConfig option) outcome" where
  "getCurrentHandler req srv =
     (let service = q_get req ''service'' in
      if service = [] then Err NoService
      else (case currentConfig srv service of
              None \<Rightarrow> Err ServiceNotFound | Some hash \<Rightarrow> Ok (allConfigs srv hash)))"

text \<open>
  The walk back along the previous hashes. A hash that is not stored panics; nothing in the loop
  itself bounds it, so not returning is \<open>None\<close>.
\<close>

partial_function (option) chain_loop ::
  "(string \<rightharpoonup> SignedConfig) \<Rightarrow> string \<Rightarrow> string \<Rightarrow> SignedConfig list \<Rightarrow>
   (handler_error, SignedConfig list) outcome option" where
  "chain_loop all have_hash prevHash configs =
     (if prevHash = have_hash \<or> prevHash = [] then Some (Ok configs)
      else (case all prevHash of
              None \<Rightarrow> Some Panic
            | Some prevConfig \<Rightarrow>
                chain_loop all have_hash (sc_PrevConfigHash prevConfig) (configs @ [prevConfig])))"

definition getChainHandler ::
  "http_request \<Rightarrow> config_server \<Rightarrow> (handler_error, SignedConfig list) outcome option" where
  "getChainHandler req srv =
     (let have_hash = q_get req ''have''; want = q_get req ''want'' in
      if have_hash = [] then Some (Err NoHave)
      else if want = [] then Some (Err NoWant)
      else (case allConfigs srv want of
              None \<Rightarrow> Some (Err WantNotFound)
            | Some config \<Rightarrow> chain_loop (allConfigs srv) have_hash (sc_PrevConfigHash config) [config]))"

text \<open>
  The dispatch on the path, as prefixes, in this order. \<open>body\<close> is the decoded body; \<open>None\<close> as the
  result is a walk that does not return.
\<close>

datatype config_reply =
  ChainReply "SignedConfig list" | CurrentReply "SignedConfig option" | NewReply | Banner | Rejected handler_error | RouteNotFound

definition config_response :: "('a \<Rightarrow> config_reply) \<Rightarrow> (handler_error, 'a) outcome \<Rightarrow> (unit, config_reply) outcome" where
  "config_response f r = (case r of Ok a \<Rightarrow> Ok (f a) | Err e \<Rightarrow> Ok (Rejected e) | Panic \<Rightarrow> Panic)"

definition config_ServeHTTP ::
  "('vk, 'gk) cfg_env \<Rightarrow> bool \<Rightarrow> SignedConfig option \<Rightarrow> http_request \<Rightarrow> config_server \<Rightarrow>
   (config_server \<times> (unit, config_reply) outcome) option" where
  "config_ServeHTTP E persist body req srv =
     (if has_prefix (url_path req) ''/getchain''
      then map_option (\<lambda>r. (srv, config_response ChainReply r)) (getChainHandler req srv)
      else if has_prefix (url_path req) ''/current'' then Some (srv, config_response CurrentReply (getCurrentHandler req srv))
      else if has_prefix (url_path req) ''/new''
      then (case newConfigHandler E persist body srv of (srv', r) \<Rightarrow> Some (srv', config_response (\<lambda>_. NewReply) r))
      else if url_path req = ''/'' then Some (srv, Ok Banner)
      else Some (srv, Ok RouteNotFound))"

text \<open>Only a path that begins with \<open>/new\<close> changes the server.\<close>

lemma config_ServeHTTP_reads:
  "\<not> has_prefix (url_path req) ''/new'' \<Longrightarrow> config_ServeHTTP E persist body req srv = Some (srv', r) \<Longrightarrow> srv' = srv"
  by (auto simp: config_ServeHTTP_def split: if_splits)

section \<open>The client\<close>

datatype client_error =
    HttpFailed | StatusNotOK nat | UnmarshalFailed | Invalid cfg_error | WrongService | Expired
  | VerifyFailed cfg_error | NoConfigs | WrongHash | NotAfterHave

text \<open>
  \<open>resp\<close> is the decoded response: a transport error, a status, or what the body decodes to,
  where a JSON null is a nil pointer.
\<close>

datatype 'a http_result = TransportError | Status nat | Undecodable | Decoded 'a

definition client_CurrentConfig ::
  "('vk, 'gk) cfg_env \<Rightarrow> int \<Rightarrow> SignedConfig option http_result \<Rightarrow> string \<Rightarrow>
   (client_error, SignedConfig) outcome" where
  "client_CurrentConfig E now resp service =
     (case resp of
        TransportError \<Rightarrow> Err HttpFailed | Status s \<Rightarrow> Err (StatusNotOK s) | Undecodable \<Rightarrow> Err UnmarshalFailed
      | Decoded None \<Rightarrow> Panic
      | Decoded (Some config) \<Rightarrow>
          (case config_Validate config of
             Err e \<Rightarrow> Err (Invalid e) | Panic \<Rightarrow> Panic
           | Ok _ \<Rightarrow>
               if sc_Service config \<noteq> service then Err WrongService
               else if now > sc_Expires config then Err Expired
               else (case config_Verify E config of
                       Err e \<Rightarrow> Err (VerifyFailed e) | Panic \<Rightarrow> Panic | Ok _ \<Rightarrow> Ok config)))"

text \<open>A chain with nil in it: the links before it are checked, then hashing it panics.\<close>

definition verify_decoded ::
  "('vk, 'gk) cfg_env \<Rightarrow> SignedConfig option list \<Rightarrow> (cfg_error, SignedConfig list) outcome" where
  "verify_decoded E configs =
     (case those configs of
        Some cs \<Rightarrow> bind_outcome (VerifyConfigChain E cs) (\<lambda>_. Ok cs)
      | None \<Rightarrow> bind_outcome (verify_links E 0 (map the (takeWhile (\<lambda>c. c \<noteq> None) configs))) (\<lambda>_. Panic))"

definition FetchAndVerifyChain ::
  "('vk, 'gk) cfg_env \<Rightarrow> int \<Rightarrow> SignedConfig option list http_result \<Rightarrow> SignedConfig \<Rightarrow> string \<Rightarrow>
   (client_error, SignedConfig list) outcome" where
  "FetchAndVerifyChain E now resp have_config want =
     (case config_Hash E have_config of Err e \<Rightarrow> Panic | Panic \<Rightarrow> Panic | Ok haveHash \<Rightarrow>
     (case resp of
        TransportError \<Rightarrow> Err HttpFailed | Status s \<Rightarrow> Err (StatusNotOK s) | Undecodable \<Rightarrow> Err UnmarshalFailed
      | Decoded [] \<Rightarrow> Err NoConfigs
      | Decoded (None # _) \<Rightarrow> Panic
      | Decoded (Some newConfig # older) \<Rightarrow>
          (case config_Validate newConfig of
             Err e \<Rightarrow> Err (Invalid e) | Panic \<Rightarrow> Panic
           | Ok _ \<Rightarrow>
               (case config_Hash E newConfig of
                  Ok newHash \<Rightarrow>
                    if newHash \<noteq> want then Err WrongHash
                    else if sc_Service newConfig \<noteq> sc_Service have_config then Err WrongService
                    else if \<not> sc_Created newConfig > sc_Created have_config then Err NotAfterHave
                    else if now > sc_Expires newConfig then Err Expired
                    else (case verify_decoded E ((Some newConfig # older) @ [Some have_config]) of
                            Err e \<Rightarrow> Err (VerifyFailed e) | Panic \<Rightarrow> Panic | Ok configs \<Rightarrow> Ok configs)
                | _ \<Rightarrow> Panic))))"

section \<open>The state file\<close>

text \<open>
  \<open>enc\<close> and \<open>dec\<close> are the JSON of the persisted state. Reading the first byte of an empty
  file panics.
\<close>

definition cfg_persistVersion :: byte where "cfg_persistVersion = 1"

datatype load_error = ReadStateFailed | UnknownStateVersion byte | BadState | CurrentNotFound string

definition writeState :: "(config_server \<Rightarrow> bytes) \<Rightarrow> config_server \<Rightarrow> bytes" where
  "writeState enc srv = cfg_persistVersion # enc srv"

text \<open>\<open>order\<close> are the services in the order the map iteration yields them.\<close>

definition LoadServer ::
  "(bytes \<Rightarrow> config_server option) \<Rightarrow> string list \<Rightarrow> bytes option \<Rightarrow> (load_error, config_server) outcome" where
  "LoadServer dec order contents =
     (case contents of
        None \<Rightarrow> Err ReadStateFailed
      | Some [] \<Rightarrow> Panic
      | Some (v # rest) \<Rightarrow>
          if v \<noteq> cfg_persistVersion then Err (UnknownStateVersion v)
          else (case dec rest of
            None \<Rightarrow> Err BadState
          | Some state \<Rightarrow>
              (case find (\<lambda>s. case currentConfig state s of None \<Rightarrow> False | Some h \<Rightarrow> allConfigs state h = None) order of
                 Some s \<Rightarrow> Err (CurrentNotFound s) | None \<Rightarrow> Ok state)))"

definition CreateServer :: config_server where
  "CreateServer = \<lparr>allConfigs = Map.empty, currentConfig = Map.empty\<rparr>"

section \<open>The chain invariant\<close>

text \<open>What a configuration was when it was accepted: linked to a stored older one, or a root.\<close>

definition linked :: "('vk, 'gk) cfg_env \<Rightarrow> (string \<rightharpoonup> SignedConfig) \<Rightarrow> SignedConfig \<Rightarrow> bool" where
  "linked E all c \<longleftrightarrow> sc_PrevConfigHash c = [] \<or>
     (\<exists>p. all (sc_PrevConfigHash c) = Some p \<and> sc_Created p < sc_Created c \<and>
        sc_Service p = sc_Service c \<and> verify_link E 0 c p = Ok ())"

definition server_inv ::
  "('vk, 'gk) cfg_env \<Rightarrow> SignedConfig set \<Rightarrow> config_server \<Rightarrow> bool" where
  "server_inv E C srv \<longleftrightarrow> finite (dom (allConfigs srv)) \<and>
     (\<forall>h c. allConfigs srv h = Some c \<longrightarrow>
        c \<in> C \<and> config_Hash E c = Ok h \<and> config_Validate c = Ok () \<and> linked E (allConfigs srv) c) \<and>
     (\<forall>s h. currentConfig srv s = Some h \<longrightarrow> (\<exists>c. allConfigs srv h = Some c \<and> sc_Service c = s))"

text \<open>
  Among the configurations \<open>C\<close> that ever occur, those that differ in more than signatures have
  different hashes.
\<close>

definition no_collision :: "('vk, 'gk) cfg_env \<Rightarrow> SignedConfig set \<Rightarrow> bool" where
  "no_collision E C \<longleftrightarrow> (\<forall>c\<in>C. \<forall>d\<in>C. \<forall>h. config_Hash E c = Ok h \<longrightarrow> config_Hash E d = Ok h \<longrightarrow>
     c\<lparr>sc_Signatures := Map.empty\<rparr> = d\<lparr>sc_Signatures := Map.empty\<rparr>)"

lemma no_collision_fields:
  assumes "no_collision E C" and "c \<in> C" and "config_Hash E c = Ok h" and "d \<in> C" and "config_Hash E d = Ok h"
  shows "sc_Created c = sc_Created d" "sc_Service c = sc_Service d" "sc_Guardians c = sc_Guardians d"
    "sc_PrevConfigHash c = sc_PrevConfigHash d"
proof -
  have e: "c\<lparr>sc_Signatures := Map.empty\<rparr> = d\<lparr>sc_Signatures := Map.empty\<rparr>"
    using assms unfolding no_collision_def by blast
  show "sc_Created c = sc_Created d" using arg_cong [OF e, of sc_Created] by simp
  show "sc_Service c = sc_Service d" using arg_cong [OF e, of sc_Service] by simp
  show "sc_Guardians c = sc_Guardians d" using arg_cong [OF e, of sc_Guardians] by simp
  show "sc_PrevConfigHash c = sc_PrevConfigHash d" using arg_cong [OF e, of sc_PrevConfigHash] by simp
qed

text \<open>Storing a configuration under its hash keeps every other link.\<close>

lemma linked_store:
  assumes "no_collision E C" and "n \<in> C" and "config_Hash E n = Ok h"
    and "\<And>c. all h = Some c \<Longrightarrow> c \<in> C \<and> config_Hash E c = Ok h" and "linked E all c"
  shows "linked E (all(h \<mapsto> n)) c"
proof (cases "sc_PrevConfigHash c = h \<and> sc_PrevConfigHash c \<noteq> []")
  case True
  then obtain p where p: "all h = Some p" "sc_Created p < sc_Created c" "sc_Service p = sc_Service c"
    "verify_link E 0 c p = Ok ()" using assms(5) by (auto simp: linked_def)
  have pC: "p \<in> C" "config_Hash E p = Ok h" using assms(4) [OF p(1)] by auto
  note f = no_collision_fields [OF assms(1) pC assms(2,3)]
  have "verify_link E 0 c n = Ok ()"
    using p(4) assms(3) pC(2) unfolding verify_link_iff by (simp add: f(3))
  then show ?thesis using True p(2,3) f(1,2) by (auto simp: linked_def)
next
  case False
  then show ?thesis using assms(5) by (auto simp: linked_def)
qed

lemma store_inv:
  assumes "server_inv E C srv" and "no_collision E C" and "n \<in> C" and "config_Hash E n = Ok h"
    and "config_Validate n = Ok ()" and "linked E (allConfigs srv) n"
  shows "server_inv E C (srv\<lparr>currentConfig := (currentConfig srv)(sc_Service n \<mapsto> h),
           allConfigs := (allConfigs srv)(h \<mapsto> n)\<rparr>)"
proof -
  have h: "\<And>c. allConfigs srv h = Some c \<Longrightarrow> c \<in> C \<and> config_Hash E c = Ok h"
    using assms(1) by (simp add: server_inv_def)
  have s: "\<And>c. allConfigs srv h = Some c \<Longrightarrow> sc_Service c = sc_Service n"
    using no_collision_fields(2) [OF assms(2) _ _ assms(3,4)] h by blast
  have l: "linked E ((allConfigs srv)(h \<mapsto> n)) c" if "linked E (allConfigs srv) c" for c
    using linked_store [OF assms(2,3,4) h that] .
  have cur: "sv = sc_Service n" if "currentConfig srv sv = Some h" for sv
    using assms(1) that s by (fastforce simp: server_inv_def)
  show ?thesis
    using assms(1,3,4,5) l [OF assms(6)] l cur unfolding server_inv_def by auto
qed

lemma newConfigHandler_inv:
  assumes "server_inv E C srv" and "no_collision E C" and "set_option body \<subseteq> C"
  shows "server_inv E C (fst (newConfigHandler E persist body srv))"
proof (cases "fst (newConfigHandler E persist body srv) = srv")
  case False
  then obtain n h p where n: "config_Validate n = Ok ()"
    "currentConfig srv (sc_Service n) = Some (sc_PrevConfigHash n)"
    "allConfigs srv (sc_PrevConfigHash n) = Some p" "sc_Created n > sc_Created p"
    "VerifyConfigChain E [n, p] = Ok ()" "config_Hash E n = Ok h"
    "fst (newConfigHandler E persist body srv) = srv\<lparr>currentConfig := (currentConfig srv)(sc_Service n \<mapsto> h),
           allConfigs := (allConfigs srv)(h \<mapsto> n)\<rparr>" "n \<in> C"
    using assms(3) by (auto simp: newConfigHandler_def Let_def split: option.splits outcome.splits if_splits)
  have "sc_Service p = sc_Service n" using assms(1) n(2,3) by (fastforce simp: server_inv_def)
  moreover have "verify_link E 0 n p = Ok ()" using n(5) by (auto simp: VerifyConfigChain_def bind_outcome_Ok)
  ultimately have "linked E (allConfigs srv) n" using n(3,4) by (auto simp: linked_def)
  then show ?thesis using store_inv [OF assms(1,2) n(8,6,1)] n(7) by simp
qed (use assms in simp)

lemma SetCurrentConfig_inv:
  assumes "server_inv E C srv" and "no_collision E C" and "c \<in> C" and "sc_PrevConfigHash c = []"
  shows "server_inv E C (fst (SetCurrentConfig E persist c srv))"
proof -
  have swap: "srv\<lparr>allConfigs := a, currentConfig := b\<rparr> = srv\<lparr>currentConfig := b, allConfigs := a\<rparr>"
    for a b by simp
  show ?thesis
    using assms store_inv [OF assms(1,2), of c]
    by (auto simp: SetCurrentConfig_def linked_def swap simp del: config_server.simps split: outcome.splits)
qed

text \<open>
  The servers the program can produce: a new one, an operator's root configuration set, a
  configuration posted, with configurations from \<open>C\<close>. Whether the state file could be written does not matter.
\<close>

inductive config_reach ::
  "('vk, 'gk) cfg_env \<Rightarrow> SignedConfig set \<Rightarrow> config_server \<Rightarrow> bool" for E C where
  created: "config_reach E C CreateServer"
| root: "config_reach E C srv \<Longrightarrow> c \<in> C \<Longrightarrow> sc_PrevConfigHash c = [] \<Longrightarrow>
    config_reach E C (fst (SetCurrentConfig E persist c srv))"
| posted: "config_reach E C srv \<Longrightarrow> set_option body \<subseteq> C \<Longrightarrow>
    config_reach E C (fst (newConfigHandler E persist body srv))"

lemma reach_inv: "config_reach E C srv \<Longrightarrow> no_collision E C \<Longrightarrow> server_inv E C srv"
proof (induction rule: config_reach.induct)
  case created
  then show ?case by (simp add: server_inv_def CreateServer_def)
qed (simp_all add: SetCurrentConfig_inv newConfigHandler_inv)

section \<open>The walk\<close>









section \<open>Properties\<close>

text \<open>A server with a root and one posted configuration, at which the properties are evaluated.\<close>

definition srv_env :: "(bytes, bytes) cfg_env" where
  "srv_env = demo_env (\<lambda>c. Some [word_of_int (sc_Created c)]) (drop 12)"

definition hash_of :: "byte \<Rightarrow> string" where
  "hash_of t = bytes_str (t # replicate 31 0)"

definition cfg_root :: SignedConfig where "cfg_root = demo_config 1 '''' 1 Map.empty"

definition cfg_next :: SignedConfig where
  "cfg_next = demo_config 2 (hash_of 1) 1
     [bytes_str (replicate 32 7) \<mapsto> demo_sig 1 (str_bytes ''SignedConfig'' @ [2])]"

definition demo_server :: config_server where
  "demo_server = \<lparr>allConfigs = [hash_of 1 \<mapsto> cfg_root, hash_of 2 \<mapsto> cfg_next],
     currentConfig = [''Dialing'' \<mapsto> hash_of 2]\<rparr>"

lemma srv_env_hash: "config_Hash srv_env c = Ok (hash_of (word_of_int (sc_Created c)))"
  by (simp add: config_Hash_def SigningMessage_def srv_env_def demo_env_def hash_of_def fixed_def str_bytes_def)

lemma hash_of_distinct: "hash_of 1 \<noteq> hash_of 2" "hash_of t \<noteq> []"
  by (simp_all add: hash_of_def bytes_str_def)

lemma demo_no_collision: "no_collision srv_env {cfg_root, cfg_next}"
  using hash_of_distinct
  by (auto simp: no_collision_def srv_env_hash cfg_root_def cfg_next_def demo_config_def)

lemma demo_server_link: "VerifyConfigChain srv_env [cfg_next, cfg_root] = Ok ()"
proof -
  have "verify_link srv_env 0 cfg_next cfg_root = Ok ()"
    unfolding cfg_next_def cfg_root_def srv_env_def
    by (rule demo_link [where m = "[2]"]) (use srv_env_hash [of "demo_config 1 '''' 1 Map.empty"] in
        \<open>simp_all add: srv_env_def demo_config_def\<close>)
  then show ?thesis by (simp add: VerifyConfigChain_def)
qed

lemma demo_server_reach: "config_reach srv_env {cfg_root, cfg_next} demo_server"
proof -
  let ?s = "\<lparr>allConfigs = [hash_of 1 \<mapsto> cfg_root], currentConfig = [''Dialing'' \<mapsto> hash_of 1]\<rparr>"
  have v: "config_Validate cfg_root = Ok ()" "config_Validate cfg_next = Ok ()"
    by (simp_all add: cfg_root_def cfg_next_def demo_valid)
  have f: "sc_Created cfg_root = 1" "sc_Created cfg_next = 2" "sc_Service cfg_root = ''Dialing''"
    "sc_Service cfg_next = ''Dialing''" "sc_PrevConfigHash cfg_next = hash_of 1" "sc_PrevConfigHash cfg_root = []"
    by (simp_all add: cfg_root_def cfg_next_def demo_config_def)
  have "fst (SetCurrentConfig srv_env True cfg_root CreateServer) = ?s"
    by (simp add: SetCurrentConfig_def v srv_env_hash f CreateServer_def)
  then have "config_reach srv_env {cfg_root, cfg_next} ?s"
    using config_reach.root [OF config_reach.created, of cfg_root "{cfg_root, cfg_next}" srv_env True] f by simp
  from config_reach.posted [OF this, of "Some cfg_next" True]
  show ?thesis
    using hash_of_distinct
    by (simp add: newConfigHandler_def v f srv_env_hash demo_server_link demo_server_def)
qed








text \<open>
  A server starts from the state it wrote: whatever order the services are looked at in, the
  written state of a server the program can produce is loaded unchanged.
\<close>

theorem config_state_roundtrip:
  assumes "config_reach E C srv" and "no_collision E C" and "dec (enc srv) = Some srv"
  shows "LoadServer dec order (Some (writeState enc srv)) = Ok srv"
proof -
  have "server_inv E C srv" by (rule reach_inv [OF assms(1,2)])
  then have "find (\<lambda>s. case currentConfig srv s of None \<Rightarrow> False | Some h \<Rightarrow> allConfigs srv h = None) order = None"
    by (fastforce simp: find_None_iff server_inv_def split: option.splits)
  then show ?thesis using assms(3) by (simp add: LoadServer_def writeState_def)
qed

theorem config_state_roundtrip_witness:
  "LoadServer (\<lambda>d. if d = [9] then Some demo_server else None) [''Dialing'']
     (Some (writeState (\<lambda>_. [9]) demo_server)) = Ok demo_server"
  using config_state_roundtrip [OF demo_server_reach demo_no_collision] by simp

text \<open>
  A client can be made to panic by the server it asks. Only the first configuration of the
  fetched chain is validated; a guardian key of another length in the second one, with any
  signature of the right length under it, reaches \<open>ed25519.Verify\<close>.
\<close>

theorem fetched_chain_can_panic:
  "\<exists>(E :: (bytes, bytes) cfg_env) new bad have_config want. config_Validate new = Ok () \<and>
     config_Validate have_config = Ok () \<and>
     FetchAndVerifyChain E 0 (Decoded [Some new, Some bad]) have_config want = Panic"
proof -
  let ?bad = "(demo_config 1 '''' 1 Map.empty)
      \<lparr>sc_Guardians := [\<lparr>g_Username = ''x'', g_Key = [1], g_PQKey = []\<rparr>]\<rparr>"
  let ?new = "demo_config 2 (hash_of 1) 1 [bytes_str [1] \<mapsto> replicate 3373 0]"
  let ?have = "demo_config 0 '''' 1 Map.empty"
  have "verifyHybridGuardianSig srv_env ?new \<lparr>g_Username = ''x'', g_Key = [1], g_PQKey = []\<rparr> m (bytes_str [1])
      = Panic" for m
    by (simp add: verifyHybridGuardianSig_def demo_config_def HybridSignature_UnmarshalBytes_def hs_sizes)
  then have "verify_link srv_env 0 ?new ?bad = Panic"
    by (simp add: verify_link_def srv_env_hash)
      (simp add: demo_config_def SigningMessage_def srv_env_def demo_env_def)
  then have "FetchAndVerifyChain srv_env 0 (Decoded [Some ?new, Some ?bad]) ?have (hash_of 2) = Panic"
    using demo_valid [of 2] 
    by (simp add: FetchAndVerifyChain_def srv_env_hash verify_decoded_def VerifyConfigChain_def)
      (simp add: demo_config_def)
  then show ?thesis using demo_valid by blast
qed

end
