(* ===== verification/PkgServer.thy ===== *)
theory PkgServer
  imports Bloom Http
begin

text \<open>
  The private key generator (src/pkg): usernames and identities, the records in its database,
  registration, status and extraction, and the two phases of a round. The IBE and BLS schemes,
  Ed25519, box, SHA-512/256 and the Unicode lower case are the parameters collected in
  \<open>pkg_env\<close>, badger those in \<open>kv\<close>. Requests are given decoded, messages of errors and log
  lines are left out; a handler runs its locked parts and its transaction as one step.
\<close>

section \<open>Errors\<close>

datatype ErrorCode =
    ErrBadRequestJSON | ErrDatabaseError | ErrInvalidUsername | ErrInvalidLoginKey | ErrNotRegistered
  | ErrAlreadyRegistered | ErrRoundNotFound | ErrInvalidUserLongTermKey | ErrInvalidSignature
  | ErrInvalidToken | ErrExpiredToken | ErrUnauthorized | ErrBadCommitment | ErrUnknown

fun httpCode :: "ErrorCode \<Rightarrow> nat" where
  "httpCode ErrDatabaseError = StatusInternalServerError"
| "httpCode ErrUnknown = StatusInternalServerError"
| "httpCode ErrUnauthorized = StatusUnauthorized"
| "httpCode _ = StatusBadRequest"

definition isInternalError :: "ErrorCode \<Rightarrow> bool" where
  "isInternalError e = (e \<in> {ErrDatabaseError, ErrBadCommitment, ErrUnknown})"

section \<open>Usernames\<close>

definition ValidateUsername :: "(string \<Rightarrow> string) \<Rightarrow> string \<Rightarrow> bool" where
  "ValidateUsername to_lower u =
     (if length u < 3 then False
      else if length u > 64 then False
      else if CHR ''@'' \<notin> set u then False
      else u = to_lower u)"

definition ValidUsernameToIdentity :: "string \<Rightarrow> bytes" where
  "ValidUsernameToIdentity u = fixed 64 (str_bytes u)"

definition UsernameToIdentity :: "(string \<Rightarrow> string) \<Rightarrow> string \<Rightarrow> bytes option" where
  "UsernameToIdentity to_lower u =
     (if ValidateUsername to_lower u then Some (ValidUsernameToIdentity u) else None)"

definition IdentityToUsername :: "bytes \<Rightarrow> string" where
  "IdentityToUsername i = bytes_str (takeWhile (\<lambda>b. b \<noteq> 0) i)"

section \<open>Records\<close>

definition dbUserPrefix :: bytes where "dbUserPrefix = str_bytes ''user:''"
definition registrationSuffix :: bytes where "registrationSuffix = str_bytes '':registration''"
definition lastExtractionSuffix :: bytes where "lastExtractionSuffix = str_bytes '':lastextract''"
definition userLogSuffix :: bytes where "userLogSuffix = str_bytes '':log''"

definition dbUserKey :: "bytes \<Rightarrow> bytes \<Rightarrow> bytes" where
  "dbUserKey i suffix = (dbUserPrefix @ i) @ suffix"

definition userStateBinaryVersion :: byte where "userStateBinaryVersion = 1"

text \<open>The user state is its login key.\<close>

definition userState_Marshal :: "bytes \<Rightarrow> bytes" where
  "userState_Marshal loginKey = userStateBinaryVersion # fixed 32 loginKey"

definition userState_Unmarshal :: "bytes \<Rightarrow> (unit, bytes) outcome" where
  "userState_Unmarshal d =
     (if length d < 33 then Err ()
      else if d ! 0 \<noteq> userStateBinaryVersion then Err ()
      else Ok (fixed 32 (drop 1 d)))"

record lastExtraction =
  le_Round :: u32
  le_UnixTime :: "64 word"

definition lastExtractionBinaryVersion :: byte where "lastExtractionBinaryVersion = 1"

definition lastExtraction_size :: nat where "lastExtraction_size = 1 + 4 + 8"

definition lastExtraction_Marshal :: "lastExtraction \<Rightarrow> bytes" where
  "lastExtraction_Marshal e = lastExtractionBinaryVersion # be32 (le_Round e) @ be64 (le_UnixTime e)"

definition lastExtraction_Unmarshal :: "bytes \<Rightarrow> (unit, lastExtraction) outcome" where
  "lastExtraction_Unmarshal d =
     (if length d \<noteq> lastExtraction_size then Err ()
      else if d ! 0 \<noteq> lastExtractionBinaryVersion then Err ()
      else Ok \<lparr>le_Round = get_be32 (take 4 (drop 1 d)), le_UnixTime = get_be64 (drop 5 d)\<rparr>)"

interpretation us: codec userState_Marshal userState_Unmarshal "\<lambda>k. length k = 32"
  by unfold_locales (simp add: userState_Marshal_def userState_Unmarshal_def)

interpretation le: codec lastExtraction_Marshal lastExtraction_Unmarshal "\<lambda>_. True"
  by unfold_locales (simp add: lastExtraction_Marshal_def lastExtraction_Unmarshal_def lastExtraction_size_def)

datatype UserEventType = EventRegistered

record UserEvent =
  ev_Time :: int
  ev_Type :: UserEventType
  ev_LoginKey :: bytes

definition userEventLogBinaryVersion :: byte where "userEventLogBinaryVersion = 1"

record json_log =
  jl_enc :: "UserEvent list \<Rightarrow> bytes"
  jl_dec :: "bytes \<Rightarrow> UserEvent list option"

definition UserEventLog_Marshal :: "json_log \<Rightarrow> UserEvent list \<Rightarrow> bytes" where
  "UserEventLog_Marshal J es = userEventLogBinaryVersion # jl_enc J es"

definition UserEventLog_Unmarshal :: "json_log \<Rightarrow> bytes \<Rightarrow> (unit, UserEvent list) outcome" where
  "UserEventLog_Unmarshal J d =
     (if length d < 3 then Err ()
      else if d ! 0 \<noteq> userEventLogBinaryVersion then Err ()
      else (case jl_dec J (drop 1 d) of None \<Rightarrow> Err () | Some es \<Rightarrow> Ok es))"

section \<open>The database\<close>

text \<open>
  badger, over an unknown type of states: reading gives \<open>None\<close> for an error and \<open>Some None\<close>
  for ErrKeyNotFound; \<open>kv_keys\<close> is what an iterator from a prefix yields while valid for it.
\<close>

record 'db kv =
  kv_get :: "bytes \<Rightarrow> 'db \<Rightarrow> bytes option option"
  kv_set :: "bytes \<Rightarrow> bytes \<Rightarrow> 'db \<Rightarrow> 'db option"
  kv_commit :: "'db \<Rightarrow> 'db option"
  kv_keys :: "bytes \<Rightarrow> 'db \<Rightarrow> bytes list option"

text \<open>Documented behaviour, relative to the contents \<open>view\<close> of a state.\<close>

definition kv_laws :: "'db kv \<Rightarrow> ('db \<Rightarrow> bytes \<rightharpoonup> bytes) \<Rightarrow> bool" where
  "kv_laws K view \<longleftrightarrow>
     (\<forall>k db r. kv_get K k db = Some r \<longrightarrow> r = view db k) \<and>
     (\<forall>k v db db'. kv_set K k v db = Some db' \<longrightarrow> view db' = (view db)(k \<mapsto> v)) \<and>
     (\<forall>db db'. kv_commit K db = Some db' \<longrightarrow> view db' = view db) \<and>
     (\<forall>p db ks. kv_keys K p db = Some ks \<longrightarrow> set ks = {k \<in> dom (view db). has_prefix k p})"

lemma kv_lawsD:
  assumes "kv_laws K view"
  shows "kv_get K k db = Some r \<Longrightarrow> r = view db k"
    "kv_set K k v db = Some db' \<Longrightarrow> view db' = (view db)(k \<mapsto> v)"
    "kv_commit K db = Some db' \<Longrightarrow> view db' = view db"
    "kv_keys K p db = Some ks \<Longrightarrow> set ks = {k \<in> dom (view db). has_prefix k p}"
  using assms unfolding kv_laws_def by blast+

section \<open>The server\<close>

record ('mpk, 'msk, 'bpk, 'bsk) roundState =
  masterPublicKey :: 'mpk
  masterPrivateKey :: 'msk
  blsPublicKey :: 'bpk
  blsPrivateKey :: 'bsk
  revealSignature :: "bytes option"

record ('db, 'mpk, 'msk, 'bpk, 'bsk) pkg_server =
  pkg_db :: 'db
  pkg_rounds :: "u32 \<rightharpoonup> ('mpk, 'msk, 'bpk, 'bsk) roundState"
  pkg_privateKey :: bytes
  pkg_publicKey :: bytes
  pkg_coordinatorKey :: bytes
  pkg_registrarKey :: bytes

record ('mpk, 'msk, 'bpk, 'bsk) pkg_env =
  pe_to_lower :: "string \<Rightarrow> string"
  pe_sha512_256 :: "bytes \<Rightarrow> bytes"
  pe_ed_sign :: "bytes \<Rightarrow> bytes \<Rightarrow> bytes"
  pe_ed_verify :: "bytes \<Rightarrow> bytes \<Rightarrow> bytes \<Rightarrow> bool"
  pe_mpk_bytes :: "'mpk \<Rightarrow> bytes"
  pe_bpk_bytes :: "'bpk \<Rightarrow> bytes"
  pe_ibe_extract :: "'msk \<Rightarrow> bytes \<Rightarrow> bytes"
  pe_box :: "bytes \<Rightarrow> bytes \<Rightarrow> bytes \<Rightarrow> bytes"
  pe_bls_sign :: "'bsk \<Rightarrow> bytes \<Rightarrow> bytes"
  pe_log :: json_log

text \<open>\<open>ed25519.Verify\<close> panics on a key that does not have 32 bytes.\<close>

definition pkg_ed_verify ::
  "('mpk, 'msk, 'bpk, 'bsk) pkg_env \<Rightarrow> bytes \<Rightarrow> bytes \<Rightarrow> bytes \<Rightarrow> ('e, bool) outcome" where
  "pkg_ed_verify E key msg sig =
     (if length key \<noteq> 32 then Panic else Ok (pe_ed_verify E key msg sig))"

definition authorized :: "bytes \<Rightarrow> http_request \<Rightarrow> (ErrorCode, unit) outcome" where
  "authorized key req =
     (case tls_peers req of
        None \<Rightarrow> Panic
      | Some [] \<Rightarrow> Err ErrUnauthorized
      | Some (None # _) \<Rightarrow> Err ErrUnauthorized
      | Some (Some peerKey # _) \<Rightarrow> if peerKey \<noteq> key then Err ErrUnauthorized else Ok ())"

section \<open>Registration\<close>

record registerArgs =
  ra_Username :: string
  ra_LoginKey :: bytes
  ra_RegistrationToken :: string

definition appendLog ::
  "'db kv \<Rightarrow> json_log \<Rightarrow> bytes \<Rightarrow> UserEvent \<Rightarrow> 'db \<Rightarrow> (ErrorCode, 'db) outcome" where
  "appendLog K J i event db =
     (let logKey = dbUserKey i userLogSuffix in
      bind_outcome
        (case kv_get K logKey db of
           None \<Rightarrow> Err ErrDatabaseError
         | Some None \<Rightarrow> Ok []
         | Some (Some d) \<Rightarrow> (case jl_dec J d of None \<Rightarrow> Err ErrDatabaseError | Some es \<Rightarrow> Ok es))
        (\<lambda>currLog.
           case kv_set K logKey (UserEventLog_Marshal J (currLog @ [event])) db of
             None \<Rightarrow> Err ErrDatabaseError | Some db' \<Rightarrow> Ok db'))"

definition pkg_register ::
  "('mpk, 'msk, 'bpk, 'bsk) pkg_env \<Rightarrow> 'db kv \<Rightarrow> (string \<Rightarrow> string \<Rightarrow> ErrorCode option) \<Rightarrow> int \<Rightarrow>
   registerArgs \<Rightarrow> ('db, 'mpk, 'msk, 'bpk, 'bsk) pkg_server \<Rightarrow>
   ('db, 'mpk, 'msk, 'bpk, 'bsk) pkg_server \<times> (ErrorCode, unit) outcome" where
  "pkg_register E K regTokenHandler now args srv =
     (case UsernameToIdentity (pe_to_lower E) (ra_Username args) of
        None \<Rightarrow> (srv, Err ErrInvalidUsername)
      | Some i \<Rightarrow>
          if length (ra_LoginKey args) \<noteq> 32 then (srv, Err ErrInvalidLoginKey)
          else (case regTokenHandler (ra_Username args) (ra_RegistrationToken args) of
            Some e \<Rightarrow> (srv, Err e)
          | None \<Rightarrow>
              (let key = dbUserKey i registrationSuffix; db = pkg_db srv in
               case kv_get K key db of
                 None \<Rightarrow> (srv, Err ErrDatabaseError)
               | Some (Some _) \<Rightarrow> (srv, Err ErrAlreadyRegistered)
               | Some None \<Rightarrow>
                   (case kv_set K key (userState_Marshal (ra_LoginKey args)) db of
                      None \<Rightarrow> (srv, Err ErrDatabaseError)
                    | Some db1 \<Rightarrow>
                        (case appendLog K (pe_log E) i \<lparr>ev_Time = now, ev_Type = EventRegistered,
                                ev_LoginKey = ra_LoginKey args\<rparr> db1 of
                           Err e \<Rightarrow> (srv, Err e) | Panic \<Rightarrow> (srv, Panic)
                         | Ok db2 \<Rightarrow>
                             (case kv_commit K db2 of
                                None \<Rightarrow> (srv, Err ErrDatabaseError)
                              | Some db3 \<Rightarrow> (srv\<lparr>pkg_db := db3\<rparr>, Ok ())))))))"

definition getUser ::
  "('mpk, 'msk, 'bpk, 'bsk) pkg_env \<Rightarrow> 'db kv \<Rightarrow> string \<Rightarrow> 'db \<Rightarrow> (ErrorCode, bytes \<times> bytes) outcome" where
  "getUser E K username db =
     (case UsernameToIdentity (pe_to_lower E) username of
        None \<Rightarrow> Err ErrInvalidUsername
      | Some i \<Rightarrow>
          (case kv_get K (dbUserKey i registrationSuffix) db of
             None \<Rightarrow> Err ErrDatabaseError
           | Some None \<Rightarrow> Err ErrNotRegistered
           | Some (Some d) \<Rightarrow>
               (case userState_Unmarshal d of Ok loginKey \<Rightarrow> Ok (loginKey, i) | _ \<Rightarrow> Err ErrDatabaseError)))"

definition GetUserLog :: "'db kv \<Rightarrow> json_log \<Rightarrow> bytes \<Rightarrow> 'db \<Rightarrow> (unit, UserEvent list) outcome" where
  "GetUserLog K J i db =
     (case kv_get K (dbUserKey i userLogSuffix) db of
        Some (Some d) \<Rightarrow> UserEventLog_Unmarshal J d | _ \<Rightarrow> Err ())"

section \<open>Status\<close>

record statusArgs =
  sa_Username :: string
  sa_Message :: bytes
  sa_ServerSigningKey :: bytes
  sa_Signature :: bytes

definition statusArgs_msg :: "statusArgs \<Rightarrow> bytes" where
  "statusArgs_msg a = str_bytes ''StatusArgs'' @ sa_ServerSigningKey a @
     ValidUsernameToIdentity (sa_Username a) @ fixed 32 (sa_Message a)"

definition checkStatus ::
  "('mpk, 'msk, 'bpk, 'bsk) pkg_env \<Rightarrow> 'db kv \<Rightarrow> statusArgs \<Rightarrow> 'db \<Rightarrow> (ErrorCode, unit) outcome" where
  "checkStatus E K args db =
     bind_outcome (getUser E K (sa_Username args) db) (\<lambda>(loginKey, _).
     bind_outcome (pkg_ed_verify E loginKey (statusArgs_msg args) (sa_Signature args)) (\<lambda>ok.
       if ok then Ok () else Err ErrInvalidSignature))"

definition statusHandler ::
  "('mpk, 'msk, 'bpk, 'bsk) pkg_env \<Rightarrow> 'db kv \<Rightarrow> statusArgs option \<Rightarrow>
   ('db, 'mpk, 'msk, 'bpk, 'bsk) pkg_server \<Rightarrow> (ErrorCode, unit) outcome" where
  "statusHandler E K body srv =
     (case body of None \<Rightarrow> Err ErrBadRequestJSON
      | Some args \<Rightarrow> checkStatus E K (args\<lparr>sa_ServerSigningKey := pkg_publicKey srv\<rparr>) (pkg_db srv))"

section \<open>Extraction\<close>

record extractArgs =
  xa_Round :: u32
  xa_Username :: string
  xa_ReturnKey :: "bytes option"
  xa_UserLongTermKey :: bytes
  xa_ServerSigningKey :: bytes
  xa_Signature :: bytes

text \<open>Without a return key the slice of a nil array pointer panics.\<close>

definition extractArgs_msg :: "extractArgs \<Rightarrow> ('e, bytes) outcome" where
  "extractArgs_msg a =
     (case xa_ReturnKey a of
        None \<Rightarrow> Panic
      | Some rk \<Rightarrow> Ok (str_bytes ''ExtractArgs'' @ xa_ServerSigningKey a @ be32 (xa_Round a) @
          ValidUsernameToIdentity (xa_Username a) @ fixed 32 rk @ xa_UserLongTermKey a))"

record extractReply =
  xr_Round :: u32
  xr_Username :: string
  xr_EncryptedPrivateKey :: bytes
  xr_Signature :: bytes
  xr_IdentitySig :: bytes

definition extractReply_msg :: "extractReply \<Rightarrow> bytes" where
  "extractReply_msg r = str_bytes ''ExtractReply'' @ be32 (xr_Round r) @
     ValidUsernameToIdentity (xr_Username r) @ xr_EncryptedPrivateKey r"

definition extractReply_Sign ::
  "('mpk, 'msk, 'bpk, 'bsk) pkg_env \<Rightarrow> bytes \<Rightarrow> extractReply \<Rightarrow> extractReply" where
  "extractReply_Sign E key r = r\<lparr>xr_Signature := pe_ed_sign E key (extractReply_msg r)\<rparr>"

definition Attestation_Marshal ::
  "('mpk, 'msk, 'bpk, 'bsk) pkg_env \<Rightarrow> 'bpk \<Rightarrow> bytes \<Rightarrow> bytes \<Rightarrow> bytes" where
  "Attestation_Marshal E attestKey userIdentity userLongTermKey =
     pe_bpk_bytes E attestKey @ fixed 64 userIdentity @ userLongTermKey"

text \<open>The user of the request, if the signature verifies under the login key.\<close>

definition extract_auth ::
  "('mpk, 'msk, 'bpk, 'bsk) pkg_env \<Rightarrow> 'db kv \<Rightarrow> extractArgs \<Rightarrow> 'db \<Rightarrow> (ErrorCode, bytes) outcome" where
  "extract_auth E K args db =
     bind_outcome (getUser E K (xa_Username args) db) (\<lambda>(loginKey, i).
     bind_outcome (extractArgs_msg args) (\<lambda>msg.
     bind_outcome (pkg_ed_verify E loginKey msg (xa_Signature args)) (\<lambda>ok.
       if ok then Ok i else Err ErrInvalidSignature)))"

text \<open>\<open>box_key\<close> is the fresh box key pair, \<open>pe_box msg their_key my_private\<close> the sealed message.\<close>

definition pkg_extract ::
  "('mpk, 'msk, 'bpk, 'bsk) pkg_env \<Rightarrow> 'db kv \<Rightarrow> int \<Rightarrow> bytes \<times> bytes \<Rightarrow> extractArgs \<Rightarrow>
   ('db, 'mpk, 'msk, 'bpk, 'bsk) pkg_server \<Rightarrow>
   ('db, 'mpk, 'msk, 'bpk, 'bsk) pkg_server \<times> (ErrorCode, extractReply) outcome" where
  "pkg_extract E K now box_key args srv =
     (case pkg_rounds srv (xa_Round args) of
        None \<Rightarrow> (srv, Err ErrRoundNotFound)
      | Some st \<Rightarrow>
          if length (xa_UserLongTermKey args) \<noteq> 32 then (srv, Err ErrInvalidUserLongTermKey)
          else (case extract_auth E K args (pkg_db srv) of
            Err e \<Rightarrow> (srv, Err e) | Panic \<Rightarrow> (srv, Panic)
          | Ok i \<Rightarrow>
              (case Option.bind (kv_set K (dbUserKey i lastExtractionSuffix)
                       (lastExtraction_Marshal \<lparr>le_Round = xa_Round args, le_UnixTime = word_of_int now\<rparr>)
                       (pkg_db srv)) (kv_commit K) of
                 None \<Rightarrow> (srv, Err ErrDatabaseError)
               | Some db' \<Rightarrow>
                   (let idKeyBytes = pe_ibe_extract E (masterPrivateKey st) i;
                        ctxt = fst box_key @ pe_box E idKeyBytes (fixed 32 (the (xa_ReturnKey args))) (snd box_key);
                        idSig = pe_bls_sign E (blsPrivateKey st)
                          (Attestation_Marshal E (blsPublicKey st) i (xa_UserLongTermKey args));
                        reply = \<lparr>xr_Round = xa_Round args, xr_Username = xa_Username args,
                          xr_EncryptedPrivateKey = ctxt, xr_Signature = [], xr_IdentitySig = idSig\<rparr>
                    in (srv\<lparr>pkg_db := db'\<rparr>, Ok (extractReply_Sign E (pkg_privateKey srv) reply))))))"

definition extractHandler ::
  "('mpk, 'msk, 'bpk, 'bsk) pkg_env \<Rightarrow> 'db kv \<Rightarrow> int \<Rightarrow> bytes \<times> bytes \<Rightarrow> extractArgs option \<Rightarrow>
   ('db, 'mpk, 'msk, 'bpk, 'bsk) pkg_server \<Rightarrow>
   ('db, 'mpk, 'msk, 'bpk, 'bsk) pkg_server \<times> (ErrorCode, extractReply) outcome" where
  "extractHandler E K now box_key body srv =
     (case body of None \<Rightarrow> (srv, Err ErrBadRequestJSON)
      | Some args \<Rightarrow> pkg_extract E K now box_key (args\<lparr>xa_ServerSigningKey := pkg_publicKey srv\<rparr>) srv)"

section \<open>The registrar's filter\<close>

definition has_suffix :: "bytes \<Rightarrow> bytes \<Rightarrow> bool" where
  "has_suffix s p = (length p \<le> length s \<and> drop (length s - length p) s = p)"

definition trim_prefix :: "bytes \<Rightarrow> bytes \<Rightarrow> bytes" where
  "trim_prefix s p = (if has_prefix s p then drop (length p) s else s)"

definition trim_suffix :: "bytes \<Rightarrow> bytes \<Rightarrow> bytes" where
  "trim_suffix s p = (if has_suffix s p then take (length s - length p) s else s)"

definition RegisteredUsernames :: "'db kv \<Rightarrow> 'db \<Rightarrow> bytes list option" where
  "RegisteredUsernames K db =
     (case kv_keys K dbUserPrefix db of
        None \<Rightarrow> None
      | Some ks \<Rightarrow>
          Some (map (\<lambda>key. fixed 64 (trim_suffix (trim_prefix key dbUserPrefix) registrationSuffix))
                 (filter (\<lambda>key. has_suffix key registrationSuffix) ks)))"

text \<open>\<open>optimal\<close> is \<open>bloom.Optimal\<close> at the false positive rate of the handler.\<close>

definition userFilterHandler ::
  "'db kv \<Rightarrow> siphash \<Rightarrow> (nat \<Rightarrow> int \<times> int) \<Rightarrow> (bytes \<Rightarrow> bytes) \<Rightarrow> http_request \<Rightarrow>
   ('db, 'mpk, 'msk, 'bpk, 'bsk) pkg_server \<Rightarrow> (ErrorCode, bytes) outcome" where
  "userFilterHandler K sip optimal jenc req srv =
     bind_outcome (authorized (pkg_registrarKey srv) req) (\<lambda>_.
     case RegisteredUsernames K (pkg_db srv) of
       None \<Rightarrow> Err ErrUnknown
     | Some usernames \<Rightarrow>
         (let (m, k) = optimal (length usernames + 1000) in
          case bind_outcome (bloom_New m k) (fold_outcome (bloom_Set sip) usernames) of
            Ok f \<Rightarrow> Ok (bloom_MarshalJSON jenc f) | _ \<Rightarrow> Panic))"

section \<open>Keys of the database\<close>

lemma length_dbUserPrefix [simp]: "length dbUserPrefix = 5"
  by (simp add: dbUserPrefix_def)

lemma length_identity: "UsernameToIdentity lc u = Some i \<Longrightarrow> length i = 64"
  by (auto simp: UsernameToIdentity_def ValidUsernameToIdentity_def split: if_splits)

lemma dbUserKey_inj:
  "length i = 64 \<Longrightarrow> length j = 64 \<Longrightarrow> dbUserKey i s = dbUserKey j t \<longleftrightarrow> i = j \<and> s = t"
  by (simp add: dbUserKey_def)

lemma suffixes_distinct:
  "registrationSuffix \<noteq> userLogSuffix" "registrationSuffix \<noteq> lastExtractionSuffix"
  by (simp_all add: registrationSuffix_def userLogSuffix_def lastExtractionSuffix_def)

lemma dbUserKey_shape:
  "length i = 64 \<Longrightarrow> has_prefix (dbUserKey i s) dbUserPrefix"
  "length i = 64 \<Longrightarrow> has_suffix (dbUserKey i s) s"
  "length i = 64 \<Longrightarrow> trim_suffix (trim_prefix (dbUserKey i s) dbUserPrefix) s = i"
  by (simp_all add: dbUserKey_def has_prefix_def has_suffix_def trim_prefix_def trim_suffix_def)

section \<open>What handlers do to the database\<close>

lemma appendLog_view:
  assumes "kv_laws K view" and "appendLog K J i ev db = Ok db'"
  shows "\<exists>v. view db' = (view db)(dbUserKey i userLogSuffix \<mapsto> v)"
  using assms(2) kv_lawsD(2) [OF assms(1)]
  by (auto simp: appendLog_def Let_def bind_outcome_Ok split: option.splits)

lemma register_view:
  assumes "kv_laws K view" and "pkg_register E K h now args srv = (srv', r)"
  shows "pkg_db srv' = pkg_db srv \<or> (\<exists>i v. UsernameToIdentity (pe_to_lower E) (ra_Username args) = Some i \<and>
    length (ra_LoginKey args) = 32 \<and> view (pkg_db srv) (dbUserKey i registrationSuffix) = None \<and>
    view (pkg_db srv') = (view (pkg_db srv))(dbUserKey i registrationSuffix \<mapsto> userState_Marshal (ra_LoginKey args),
      dbUserKey i userLogSuffix \<mapsto> v))"
proof (cases "r = Ok ()")
  case True
  then obtain i db1 db2 db3 where
    p: "UsernameToIdentity (pe_to_lower E) (ra_Username args) = Some i" "length (ra_LoginKey args) = 32"
    "kv_get K (dbUserKey i registrationSuffix) (pkg_db srv) = Some None"
    "kv_set K (dbUserKey i registrationSuffix) (userState_Marshal (ra_LoginKey args)) (pkg_db srv) = Some db1"
    "appendLog K (pe_log E) i \<lparr>ev_Time = now, ev_Type = EventRegistered, ev_LoginKey = ra_LoginKey args\<rparr> db1 = Ok db2"
    "kv_commit K db2 = Some db3" "srv' = srv\<lparr>pkg_db := db3\<rparr>"
    using assms(2) by (auto simp: pkg_register_def Let_def split: option.splits if_splits outcome.splits)
  obtain v where "view db2 = (view db1)(dbUserKey i userLogSuffix \<mapsto> v)"
    using appendLog_view [OF assms(1) p(5)] by blast
  moreover have "view (pkg_db srv) (dbUserKey i registrationSuffix) = None"
    using kv_lawsD(1) [OF assms(1) p(3)] by simp
  ultimately show ?thesis
    using p kv_lawsD(2) [OF assms(1) p(4)] kv_lawsD(3) [OF assms(1) p(6)] by auto
next
  case False
  then have "srv' = srv"
    using assms(2) by (auto simp: pkg_register_def Let_def split: option.splits if_splits outcome.splits)
  then show ?thesis by simp
qed

lemma extract_view:
  assumes "kv_laws K view" and "pkg_extract E K now bk args srv = (srv', r)"
  shows "pkg_db srv' = pkg_db srv \<or> (\<exists>i v. length i = 64 \<and>
    view (pkg_db srv') = (view (pkg_db srv))(dbUserKey i lastExtractionSuffix \<mapsto> v))"
proof (cases "\<exists>i. extract_auth E K args (pkg_db srv) = Ok i")
  case True
  then obtain i where i: "extract_auth E K args (pkg_db srv) = Ok i" by blast
  then have len: "length i = 64"
    by (auto simp: extract_auth_def bind_outcome_Ok getUser_def length_identity
        split: option.splits outcome.splits if_splits)
  let ?v = "lastExtraction_Marshal \<lparr>le_Round = xa_Round args, le_UnixTime = word_of_int now\<rparr>"
  show ?thesis
  proof (cases "Option.bind (kv_set K (dbUserKey i lastExtractionSuffix) ?v (pkg_db srv)) (kv_commit K)")
    case None
    then have "srv' = srv"
      using assms(2) i by (simp add: pkg_extract_def split: option.splits if_splits)
    then show ?thesis by simp
  next
    case (Some db2)
    then obtain db1 where p: "kv_set K (dbUserKey i lastExtractionSuffix) ?v (pkg_db srv) = Some db1"
      "kv_commit K db1 = Some db2" by (auto simp: bind_eq_Some_conv)
    have "srv' = srv \<or> pkg_db srv' = db2"
      using assms(2) i Some by (auto simp: pkg_extract_def Let_def split: option.splits if_splits)
    moreover have "view db2 = (view (pkg_db srv))(dbUserKey i lastExtractionSuffix \<mapsto> ?v)"
      using kv_lawsD(2) [OF assms(1) p(1)] kv_lawsD(3) [OF assms(1) p(2)] by simp
    ultimately show ?thesis using len by blast
  qed
next
  case False
  then have "srv' = srv"
    using assms(2) by (cases "extract_auth E K args (pkg_db srv)")
      (auto simp: pkg_extract_def split: option.splits if_splits)
  then show ?thesis by simp
qed

text \<open>The requests that write, in any order and number.\<close>

inductive pkg_run ::
  "('mpk, 'msk, 'bpk, 'bsk) pkg_env \<Rightarrow> 'db kv \<Rightarrow> ('db, 'mpk, 'msk, 'bpk, 'bsk) pkg_server \<Rightarrow>
   ('db, 'mpk, 'msk, 'bpk, 'bsk) pkg_server \<Rightarrow> bool" for E K where
  start_run: "pkg_run E K srv srv"
| reg: "pkg_run E K srv srv1 \<Longrightarrow> pkg_register E K h now args srv1 = (srv2, r) \<Longrightarrow> pkg_run E K srv srv2"
| ext: "pkg_run E K srv srv1 \<Longrightarrow> extractHandler E K now bk body srv1 = (srv2, r) \<Longrightarrow> pkg_run E K srv srv2"

lemma run_keeps_login:
  assumes "kv_laws K view" and "length i = 64" and "pkg_run E K srv srv'"
    and "view (pkg_db srv) (dbUserKey i registrationSuffix) = Some d"
  shows "view (pkg_db srv') (dbUserKey i registrationSuffix) = Some d"
  using assms(3,4)
proof (induction rule: pkg_run.induct)
  case (reg srv srv1 h now args srv2 r)
  then show ?case
    using register_view [OF assms(1) reg.hyps(2)] dbUserKey_inj [OF assms(2) length_identity] suffixes_distinct
    by auto
next
  case (ext srv srv1 now bk body srv2 r)
  have "pkg_db srv2 = pkg_db srv1 \<or> (\<exists>j v. length j = 64 \<and>
      view (pkg_db srv2) = (view (pkg_db srv1))(dbUserKey j lastExtractionSuffix \<mapsto> v))"
  proof (cases body)
    case (Some args)
    then show ?thesis
      using ext.hyps(2) extract_view [OF assms(1)] unfolding extractHandler_def Some option.case by blast
  qed (use ext.hyps(2) in \<open>simp add: extractHandler_def\<close>)
  then show ?case
    using ext dbUserKey_inj [OF assms(2)] suffixes_distinct by auto
qed simp

section \<open>An instance\<close>

text \<open>A list of pairs as the database, and a server with one registered user.\<close>

definition list_kv :: "(bytes \<times> bytes) list kv" where
  "list_kv = \<lparr>kv_get = (\<lambda>k db. Some (map_of db k)), kv_set = (\<lambda>k v db. Some ((k, v) # db)),
     kv_commit = Some, kv_keys = (\<lambda>p db. Some (filter (\<lambda>k. has_prefix k p) (map fst db)))\<rparr>"

lemma list_kv_laws: "kv_laws list_kv map_of"
  by (auto simp: kv_laws_def list_kv_def dom_map_of_conv_image_fst)

definition demo_pkg_env :: "(bytes, bytes, bytes, bytes) pkg_env" where
  "demo_pkg_env = \<lparr>pe_to_lower = (\<lambda>s. s), pe_sha512_256 = (\<lambda>b. b), pe_ed_sign = (\<lambda>k m. k @ m),
     pe_ed_verify = (\<lambda>k m s. s = k @ m), pe_mpk_bytes = (\<lambda>k. k), pe_bpk_bytes = (\<lambda>k. k),
     pe_ibe_extract = (\<lambda>k i. k @ i), pe_box = (\<lambda>m k p. m), pe_bls_sign = (\<lambda>k m. k @ m),
     pe_log = \<lparr>jl_enc = (\<lambda>es. [0, 0]), jl_dec = (\<lambda>_. None)\<rparr>\<rparr>"

type_synonym demo_pkg = "((bytes \<times> bytes) list, bytes, bytes, bytes, bytes) pkg_server"

definition demo_pkg :: "byte \<Rightarrow> (bytes \<times> bytes) list \<Rightarrow> demo_pkg" where
  "demo_pkg key db = \<lparr>pkg_db = db, pkg_rounds = [3 \<mapsto> \<lparr>masterPublicKey = [1], masterPrivateKey = [2],
     blsPublicKey = [3], blsPrivateKey = [4], revealSignature = None\<rparr>],
     pkg_privateKey = replicate 32 key, pkg_publicKey = replicate 32 key,
     pkg_coordinatorKey = [7], pkg_registrarKey = [8]\<rparr>"

definition demo_user :: registerArgs where
  "demo_user = \<lparr>ra_Username = ''a@b'', ra_LoginKey = replicate 32 5, ra_RegistrationToken = ''''\<rparr>"

definition demo_id :: bytes where "demo_id = ValidUsernameToIdentity ''a@b''"

definition demo_db :: "(bytes \<times> bytes) list" where
  "demo_db = [(dbUserKey demo_id userLogSuffix, [1, 0, 0]),
     (dbUserKey demo_id registrationSuffix, userState_Marshal (replicate 32 5))]"

lemma demo_identity: "UsernameToIdentity (\<lambda>s. s) ''a@b'' = Some demo_id" "length demo_id = 64"
  by (simp_all add: UsernameToIdentity_def ValidateUsername_def demo_id_def ValidUsernameToIdentity_def)

lemma demo_register:
  "pkg_register demo_pkg_env list_kv (\<lambda>_ _. None) 0 demo_user (demo_pkg 9 []) = (demo_pkg 9 demo_db, Ok ())"
  using dbUserKey_inj [OF demo_identity(2,2)] suffixes_distinct
  by (simp add: pkg_register_def demo_user_def demo_pkg_env_def demo_identity list_kv_def demo_pkg_def
      appendLog_def demo_db_def UserEventLog_Marshal_def userEventLogBinaryVersion_def)

lemma demo_getUser: "getUser demo_pkg_env list_kv ''a@b'' demo_db = Ok (replicate 32 5, demo_id)"
  using dbUserKey_inj [OF demo_identity(2,2)] suffixes_distinct us.dec_enc [of "replicate 32 5"]
  by (simp add: getUser_def demo_pkg_env_def demo_identity list_kv_def demo_db_def)

definition demo_extract :: extractArgs where
  "demo_extract = \<lparr>xa_Round = 3, xa_Username = ''a@b'', xa_ReturnKey = Some (replicate 32 6),
     xa_UserLongTermKey = replicate 32 2, xa_ServerSigningKey = [],
     xa_Signature = replicate 32 5 @ str_bytes ''ExtractArgs'' @ replicate 32 9 @ be32 3 @ demo_id @
       replicate 32 6 @ replicate 32 2\<rparr>"

lemma demo_extract_ok:
  "\<exists>srv' reply. extractHandler demo_pkg_env list_kv 0 ([1], [1]) (Some demo_extract) (demo_pkg 9 demo_db)
     = (srv', Ok reply)"
proof -
  have "extract_auth demo_pkg_env list_kv (demo_extract\<lparr>xa_ServerSigningKey := replicate 32 9\<rparr>) demo_db = Ok demo_id"
    using demo_getUser
    by (simp add: extract_auth_def demo_extract_def extractArgs_msg_def pkg_ed_verify_def demo_id_def [symmetric])
      (simp add: demo_pkg_env_def)
  then show ?thesis
    by (simp add: extractHandler_def pkg_extract_def demo_pkg_def Let_def)
      (simp add: demo_extract_def list_kv_def)
qed

text \<open>What a successful registration leaves in the database.\<close>

lemma register_stores:
  assumes "kv_laws K view" and "pkg_register E K h now args srv = (srv1, Ok ())"
    and i: "UsernameToIdentity (pe_to_lower E) (ra_Username args) = Some i" "length (ra_LoginKey args) = 32"
  shows "view (pkg_db srv1) (dbUserKey i registrationSuffix) = Some (userState_Marshal (ra_LoginKey args))"
proof -
  obtain db1 db2 db3 where
    p: "kv_set K (dbUserKey i registrationSuffix) (userState_Marshal (ra_LoginKey args)) (pkg_db srv) = Some db1"
    "appendLog K (pe_log E) i \<lparr>ev_Time = now, ev_Type = EventRegistered, ev_LoginKey = ra_LoginKey args\<rparr> db1 = Ok db2"
    "kv_commit K db2 = Some db3" "srv1 = srv\<lparr>pkg_db := db3\<rparr>"
    using assms(2) i by (auto simp: pkg_register_def Let_def split: option.splits if_splits outcome.splits)
  then show ?thesis
    using kv_lawsD(2) [OF assms(1) p(1)] kv_lawsD(3) [OF assms(1) p(3)] appendLog_view [OF assms(1) p(2)]
      dbUserKey_inj [OF length_identity [OF i(1)] length_identity [OF i(1)]] suffixes_distinct by auto
qed

section \<open>Properties\<close>

text \<open>
  C19: a username keeps the login key it was registered with. After a registration succeeded, no
  sequence of registrations and extractions changes the key that requests for the username are
  verified against, and another registration of it is refused or fails without an effect.
\<close>

theorem registration_is_final:
  assumes "kv_laws K view"
    and "pkg_register E K h now args srv = (srv1, Ok ())"
    and "pkg_run E K srv1 srv2"
  shows "(\<forall>key i. getUser E K (ra_Username args) (pkg_db srv2) = Ok (key, i) \<longrightarrow> key = ra_LoginKey args) \<and>
    getUser E K (ra_Username args) (pkg_db srv2) \<noteq> Err ErrNotRegistered \<and>
    (\<forall>h' now' args'. ra_Username args' = ra_Username args \<longrightarrow>
       (\<exists>e. pkg_register E K h' now' args' srv2 = (srv2, Err e)))"
proof -
  obtain i where i: "UsernameToIdentity (pe_to_lower E) (ra_Username args) = Some i"
    "length (ra_LoginKey args) = 32"
    using assms(2) by (auto simp: pkg_register_def split: option.splits if_splits)
  from run_keeps_login [OF assms(1) length_identity [OF i(1)] assms(3) register_stores [OF assms(1,2) i]]
  have v: "view (pkg_db srv2) (dbUserKey i registrationSuffix) = Some (userState_Marshal (ra_LoginKey args))" .
  have g: "kv_get K (dbUserKey i registrationSuffix) (pkg_db srv2) = None \<or>
      kv_get K (dbUserKey i registrationSuffix) (pkg_db srv2) = Some (Some (userState_Marshal (ra_LoginKey args)))"
    using kv_lawsD(1) [OF assms(1)] v by (cases "kv_get K (dbUserKey i registrationSuffix) (pkg_db srv2)") auto
  have u: "userState_Unmarshal (userState_Marshal (ra_LoginKey args)) = Ok (ra_LoginKey args)"
    by (rule us.dec_enc [OF i(2)])
  have "\<exists>e. pkg_register E K h' now' args' srv2 = (srv2, Err e)" if "ra_Username args' = ra_Username args"
    for h' now' args'
    using g i that by (auto simp: pkg_register_def Let_def split: option.splits)
  then show ?thesis using g i u by (auto simp: getUser_def)
qed

theorem registration_is_final_witness:
  "\<exists>e. pkg_register demo_pkg_env list_kv (\<lambda>_ _. None) 7 (demo_user\<lparr>ra_LoginKey := replicate 32 6\<rparr>)
     (demo_pkg 9 demo_db) = (demo_pkg 9 demo_db, Err e)"
  using registration_is_final [OF list_kv_laws demo_register pkg_run.start_run] by simp

text \<open>
  C20: an extraction is authentic. A reply is only produced for a round the server has, for a
  registered user whose login key verifies the signature over this server's key, the round, the
  identity, the return key and the long-term key; it carries the round and name of the request
  and the server's signature.
\<close>

theorem extract_authentic:
  assumes "extractHandler E K now bk (Some args) srv = (srv', Ok reply)"
  shows "\<exists>st loginKey i rk. pkg_rounds srv (xa_Round args) = Some st \<and>
    getUser E K (xa_Username args) (pkg_db srv) = Ok (loginKey, i) \<and> xa_ReturnKey args = Some rk \<and>
    length (xa_UserLongTermKey args) = 32 \<and>
    pe_ed_verify E loginKey (str_bytes ''ExtractArgs'' @ pkg_publicKey srv @ be32 (xa_Round args) @
      i @ fixed 32 rk @ xa_UserLongTermKey args) (xa_Signature args) \<and>
    xr_Round reply = xa_Round args \<and> xr_Username reply = xa_Username args \<and>
    xr_Signature reply = pe_ed_sign E (pkg_privateKey srv) (extractReply_msg reply) \<and>
    xr_IdentitySig reply = pe_bls_sign E (blsPrivateKey st)
      (pe_bpk_bytes E (blsPublicKey st) @ i @ xa_UserLongTermKey args)"
proof -
  let ?a = "args\<lparr>xa_ServerSigningKey := pkg_publicKey srv\<rparr>"
  have x: "pkg_extract E K now bk ?a srv = (srv', Ok reply)" using assms by (simp add: extractHandler_def)
  then obtain st where st: "pkg_rounds srv (xa_Round args) = Some st" "length (xa_UserLongTermKey args) = 32"
    by (auto simp: pkg_extract_def split: option.splits if_splits)
  obtain i where a: "extract_auth E K ?a (pkg_db srv) = Ok i"
    using x st by (auto simp: pkg_extract_def split: outcome.splits)
  then obtain loginKey rk where u: "getUser E K (xa_Username args) (pkg_db srv) = Ok (loginKey, i)"
    and rk: "xa_ReturnKey args = Some rk"
    and v: "pe_ed_verify E loginKey (str_bytes ''ExtractArgs'' @ pkg_publicKey srv @ be32 (xa_Round args) @
      ValidUsernameToIdentity (xa_Username args) @ fixed 32 rk @ xa_UserLongTermKey args) (xa_Signature args)"
    by (auto simp: extract_auth_def bind_outcome_Ok extractArgs_msg_def pkg_ed_verify_def
        split: option.splits if_splits)
  have i: "i = ValidUsernameToIdentity (xa_Username args)" "length i = 64"
    using u by (auto simp: getUser_def UsernameToIdentity_def ValidUsernameToIdentity_def
        split: option.splits if_splits outcome.splits)
  have "xr_Round reply = xa_Round args \<and> xr_Username reply = xa_Username args \<and>
      xr_Signature reply = pe_ed_sign E (pkg_privateKey srv) (extractReply_msg reply) \<and>
      xr_IdentitySig reply = pe_bls_sign E (blsPrivateKey st)
        (pe_bpk_bytes E (blsPublicKey st) @ i @ xa_UserLongTermKey args)"
    using x st a i(2)
    by (auto simp: pkg_extract_def Let_def extractReply_Sign_def extractReply_msg_def Attestation_Marshal_def
        split: option.splits)
  then show ?thesis using st u rk v i(1) by blast
qed

theorem extract_authentic_witness:
  "\<exists>srv' reply. extractHandler demo_pkg_env list_kv 0 ([1], [1]) (Some demo_extract) (demo_pkg 9 demo_db)
     = (srv', Ok reply) \<and> xr_Username reply = ''a@b''"
proof -
  obtain srv' reply where "extractHandler demo_pkg_env list_kv 0 ([1], [1]) (Some demo_extract)
      (demo_pkg 9 demo_db) = (srv', Ok reply)" using demo_extract_ok by blast
  then show ?thesis using extract_authentic by (fastforce simp: demo_extract_def)
qed

text \<open>
  The name of an identity. A valid username without a zero byte is read back from its
  identity; so two such usernames never share one.
\<close>

theorem identity_roundtrip:
  assumes "UsernameToIdentity lc u = Some i" and "(0 :: byte) \<notin> set (str_bytes u)"
  shows "IdentityToUsername i = u"
proof -
  have "i = str_bytes u @ replicate (64 - length u) 0"
    using assms(1) by (auto simp: UsernameToIdentity_def ValidUsernameToIdentity_def ValidateUsername_def
        fixed_def split: if_splits)
  moreover have "takeWhile (\<lambda>b. b \<noteq> 0) (str_bytes u @ replicate (64 - length u) 0) = str_bytes u @ takeWhile (\<lambda>b. b \<noteq> 0) (replicate (64 - length u) 0)"
    by (rule takeWhile_append2) (use assms(2) in auto)
  moreover have "takeWhile (\<lambda>b. b \<noteq> 0) (replicate n 0) = ([] :: bytes)" for n by (cases n) simp_all
  ultimately show ?thesis by (simp add: IdentityToUsername_def)
qed

theorem identity_roundtrip_witness: "IdentityToUsername demo_id = ''a@b''"
  by (rule identity_roundtrip [OF demo_identity(1)]) (simp add: str_bytes_def)

text \<open>
  Validation lets a zero byte through, so two different valid usernames can have the same
  identity: whoever registers first has both.
\<close>

theorem identities_can_collide:
  "\<exists>u v. u \<noteq> v \<and> ValidateUsername id u \<and> ValidateUsername id v \<and>
     UsernameToIdentity id u = UsernameToIdentity id v"
proof (intro exI conjI)
  show "''a@b'' \<noteq> ''a@b'' @ [CHR 0x00]" by simp
  show "ValidateUsername id ''a@b''" "ValidateUsername id (''a@b'' @ [CHR 0x00])"
    by (simp_all add: ValidateUsername_def)
  then show "UsernameToIdentity id ''a@b'' = UsernameToIdentity id (''a@b'' @ [CHR 0x00])"
    by (simp add: UsernameToIdentity_def ValidUsernameToIdentity_def fixed_def str_bytes_def numeral_eq_Suc)
qed

text \<open>
  The registrar's filter covers every registered user. The filter decoded from the reply
  contains the identity of every registration in the database.
\<close>

theorem registrar_filter_complete:
  assumes "kv_laws K view" and "userFilterHandler K sip optimal jenc req srv = Ok d"
    and "\<And>b. jdec (jenc b) = Some b"
    and "\<And>n. 0 < fst (optimal n) \<and> fst (optimal n) \<le> 2 ^ 32 - 8 \<and> 0 \<le> snd (optimal n) \<and> snd (optimal n) < 2 ^ 32"
    and "length i = 64" and "view (pkg_db srv) (dbUserKey i registrationSuffix) = Some st"
  shows "\<exists>g. bloom_UnmarshalJSON jdec d = Ok g \<and> bloom_Test sip i g = Ok True"
proof -
  obtain names where n: "RegisteredUsernames K (pkg_db srv) = Some names"
    using assms(2) by (auto simp: userFilterHandler_def bind_outcome_Ok split: option.splits)
  let ?m = "fst (optimal (length names + 1000))" and ?k = "snd (optimal (length names + 1000))"
  obtain f f' where f: "bloom_New ?m ?k = Ok f" "fold_outcome (bloom_Set sip) names f = Ok f'"
    "d = bloom_MarshalJSON jenc f'"
    using assms(2) n by (auto simp: userFilterHandler_def bind_outcome_Ok case_prod_beta split: outcome.splits)
  have w: "sized_wf ?k f" using bloom_New_wf [OF f(1)] assms(4) by blast
  have "i \<in> set names"
  proof -
    obtain ks where ks: "kv_keys K dbUserPrefix (pkg_db srv) = Some ks"
      "names = map (\<lambda>key. fixed 64 (trim_suffix (trim_prefix key dbUserPrefix) registrationSuffix))
         (filter (\<lambda>key. has_suffix key registrationSuffix) ks)"
      using n by (auto simp: RegisteredUsernames_def split: option.splits)
    have "dbUserKey i registrationSuffix \<in> set ks"
      using kv_lawsD(4) [OF assms(1) ks(1)] dbUserKey_shape(1) [OF assms(5)] assms(6) by auto
    then show ?thesis
      using dbUserKey_shape(2,3) [OF assms(5)] assms(5) unfolding ks(2) by (force simp: image_iff)
  qed
  moreover obtain f'' where "fold_outcome (bloom_Set sip) names f = Ok f''" "sized_wf ?k f''"
    "\<forall>x\<in>set names. bloom_Test sip x f'' = Ok True"
    using bf.no_false_negatives [OF w] by blast
  ultimately have "sized_wf ?k f'" "bloom_Test sip i f' = Ok True" using f(2) by auto
  then show ?thesis
    using bloom_roundtrip [of f'] assms(3,4) f(3)
    by (auto simp: bloom_UnmarshalJSON_def bloom_MarshalJSON_def sized_wf_def)
qed

theorem registrar_filter_complete_witness:
  "\<exists>d g. userFilterHandler list_kv (\<lambda>a b x. (a, 5)) (\<lambda>_. (16, 2)) (\<lambda>b. b)
       \<lparr>http_method = ''GET'', url_path = '''', tls_peers = Some [Some [8]], q_get = (\<lambda>_. ''''), http_body = []\<rparr>
       (demo_pkg 9 demo_db) = Ok d \<and>
     bloom_UnmarshalJSON Some d = Ok g \<and> bloom_Test (\<lambda>a b x. (a, 5)) demo_id g = Ok True"
proof -
  let ?sip = "\<lambda>(a :: u64) (b :: u64) (x :: bytes). (a, 5 :: u64)"
  let ?req = "\<lparr>http_method = ''GET'', url_path = '''', tls_peers = Some [Some [8]], q_get = (\<lambda>_. ''''), http_body = []\<rparr>"
  obtain names where n: "RegisteredUsernames list_kv demo_db = Some names"
    by (simp add: RegisteredUsernames_def list_kv_def)
  obtain f where f: "bloom_New 16 2 = Ok f" by (simp add: bloom_New_def signed_divide_int_def)
  obtain f' where "fold_outcome (bloom_Set ?sip) names f = Ok f'"
    using bf.no_false_negatives [OF bloom_New_wf [OF f], of ?sip names] by auto
  then have u: "userFilterHandler list_kv ?sip (\<lambda>_. (16, 2)) (\<lambda>b. b) ?req (demo_pkg 9 demo_db)
      = Ok (bloom_MarshalJSON (\<lambda>b. b) f')"
    using n f by (simp add: userFilterHandler_def authorized_def demo_pkg_def)
  have v: "map_of (pkg_db (demo_pkg 9 demo_db)) (dbUserKey demo_id registrationSuffix) =
      Some (userState_Marshal (replicate 32 5))"
    using dbUserKey_inj [OF demo_identity(2,2)] suffixes_distinct by (simp add: demo_pkg_def demo_db_def)
  obtain g where "bloom_UnmarshalJSON Some (bloom_MarshalJSON (\<lambda>b. b) f') = Ok g"
    "bloom_Test ?sip demo_id g = Ok True"
    using registrar_filter_complete [OF list_kv_laws u, of Some, OF _ _ demo_identity(2) v] by auto
  with u show ?thesis by blast
qed

end
