(* ===== verification/PkgRound.thy ===== *)
theory PkgRound
  imports PkgServer
begin

text \<open>
  A round of the private key generators (src/pkg/server.go): each server commits to fresh
  keys, then reveals them and signs the commitments of all, and the coordinator checks the
  result. A map is a finite partial map; the servers the coordinator talks to are the state its
  requests thread through.
\<close>

section \<open>Commit\<close>

definition commitTo :: "('mpk, 'msk, 'bpk, 'bsk) pkg_env \<Rightarrow> 'mpk \<Rightarrow> 'bpk \<Rightarrow> bytes" where
  "commitTo E ibeKey blsKey = fixed 32 (pe_sha512_256 E (pe_mpk_bytes E ibeKey @ pe_bpk_bytes E blsKey))"

text \<open>
  \<open>fresh\<close> are the keys that \<open>ibe.Setup\<close> and \<open>bls.GenerateKey\<close> give. The subtraction wraps, so
  for round 0 every round but the largest is deleted.
\<close>

definition commitHandler ::
  "('mpk, 'msk, 'bpk, 'bsk) pkg_env \<Rightarrow> 'mpk \<times> 'msk \<times> 'bpk \<times> 'bsk \<Rightarrow> http_request \<Rightarrow> u32 option \<Rightarrow>
   ('db, 'mpk, 'msk, 'bpk, 'bsk) pkg_server \<Rightarrow>
   ('db, 'mpk, 'msk, 'bpk, 'bsk) pkg_server \<times> (ErrorCode, bytes) outcome" where
  "commitHandler E fresh req body srv =
     (case authorized (pkg_coordinatorKey srv) req of
        Err e \<Rightarrow> (srv, Err e) | Panic \<Rightarrow> (srv, Panic)
      | Ok _ \<Rightarrow>
          (case body of
             None \<Rightarrow> (srv, Err ErrBadRequestJSON)
           | Some round \<Rightarrow>
               (let (ibePub, ibePriv, blsPub, blsPriv) = fresh;
                    st = (case pkg_rounds srv round of
                            Some st \<Rightarrow> st
                          | None \<Rightarrow> \<lparr>masterPublicKey = ibePub, masterPrivateKey = ibePriv,
                              blsPublicKey = blsPub, blsPrivateKey = blsPriv, revealSignature = None\<rparr>);
                    rounds = (pkg_rounds srv)(round \<mapsto> st)
                in (srv\<lparr>pkg_rounds := rounds |` {r. \<not> r < round - 1}\<rparr>,
                    Ok (commitTo E (masterPublicKey st) (blsPublicKey st))))))"

section \<open>Reveal\<close>

definition hex_digit :: "nat \<Rightarrow> char" where
  "hex_digit n = ''0123456789abcdef'' ! n"

definition hex_encode :: "bytes \<Rightarrow> string" where
  "hex_encode b = concat (map (\<lambda>x. [hex_digit (unat x div 16), hex_digit (unat x mod 16)]) b)"

record ('mpk, 'bpk) RevealReply =
  rr_MasterPublicKey :: 'mpk
  rr_BLSPublicKey :: 'bpk
  rr_Signature :: bytes

text \<open>The loop over the sorted keys: the checks of the handler, and the bytes it writes.\<close>

fun write_commitments ::
  "(string \<rightharpoonup> bytes) \<Rightarrow> nat \<Rightarrow> string list \<Rightarrow> bytes \<Rightarrow> (ErrorCode, bytes) outcome" where
  "write_commitments cs len [] buf = Ok buf"
| "write_commitments cs len (hexkey # hexkeys) buf =
     (if length hexkey \<noteq> 64 then Err ErrBadCommitment
      else (let commitment = (case cs hexkey of None \<Rightarrow> [] | Some c \<Rightarrow> c) in
            if length commitment \<noteq> len then Err ErrBadCommitment
            else write_commitments cs len hexkeys (buf @ str_bytes hexkey @ commitment)))"

definition commitments_header :: "u32 \<Rightarrow> bytes" where
  "commitments_header round = str_bytes ''Commitments'' @ be32 round"

definition revealHandler ::
  "('mpk, 'msk, 'bpk, 'bsk) pkg_env \<Rightarrow> http_request \<Rightarrow> (u32 \<times> (string \<rightharpoonup> bytes)) option \<Rightarrow>
   ('db, 'mpk, 'msk, 'bpk, 'bsk) pkg_server \<Rightarrow>
   ('db, 'mpk, 'msk, 'bpk, 'bsk) pkg_server \<times> (ErrorCode, ('mpk, 'bpk) RevealReply) outcome" where
  "revealHandler E req body srv =
     (case authorized (pkg_coordinatorKey srv) req of
        Err e \<Rightarrow> (srv, Err e) | Panic \<Rightarrow> (srv, Panic)
      | Ok _ \<Rightarrow>
          (case body of
             None \<Rightarrow> (srv, Err ErrBadRequestJSON)
           | Some (round, commitments) \<Rightarrow>
               (case pkg_rounds srv round of
                  None \<Rightarrow> (srv, Err ErrRoundNotFound)
                | Some st \<Rightarrow>
                    (let reply = (\<lambda>sig. \<lparr>rr_MasterPublicKey = masterPublicKey st,
                           rr_BLSPublicKey = blsPublicKey st, rr_Signature = sig\<rparr>)
                     in case revealSignature st of
                       Some sig \<Rightarrow> (srv, Ok (reply sig))
                     | None \<Rightarrow>
                         (let commitment = (case commitments (hex_encode (pkg_publicKey srv)) of
                                None \<Rightarrow> [] | Some c \<Rightarrow> c);
                              expected = commitTo E (masterPublicKey st) (blsPublicKey st)
                          in if commitment \<noteq> expected then (srv, Err ErrBadCommitment)
                             else (case write_commitments commitments (length expected)
                                      (sorted_list_of_set (dom commitments)) (commitments_header round) of
                               Err e \<Rightarrow> (srv, Err e) | Panic \<Rightarrow> (srv, Panic)
                             | Ok msg \<Rightarrow>
                                 (let sig = pe_ed_sign E (pkg_privateKey srv) msg
                                  in (srv\<lparr>pkg_rounds := (pkg_rounds srv)(round \<mapsto> st\<lparr>revealSignature := Some sig\<rparr>)\<rparr>,
                                      Ok (reply sig)))))))))"

section \<open>The coordinator\<close>

text \<open>Missing settings give \<open>None\<close>; a key of the wrong length panics in Ed25519.\<close>

fun settings_msg ::
  "('mpk, 'msk, 'bpk, 'bsk) pkg_env \<Rightarrow> (string \<rightharpoonup> ('mpk, 'bpk) RevealReply) \<Rightarrow> string list \<Rightarrow> bytes \<Rightarrow>
   bytes option" where
  "settings_msg E s [] buf = Some buf"
| "settings_msg E s (hexkey # hexkeys) buf =
     (case s hexkey of
        None \<Rightarrow> None
      | Some reveal \<Rightarrow>
          settings_msg E s hexkeys
            (buf @ str_bytes hexkey @ commitTo E (rr_MasterPublicKey reveal) (rr_BLSPublicKey reveal)))"

fun verify_settings ::
  "('mpk, 'msk, 'bpk, 'bsk) pkg_env \<Rightarrow> (string \<rightharpoonup> ('mpk, 'bpk) RevealReply) \<Rightarrow> bytes \<Rightarrow> bytes list \<Rightarrow>
   (unit, bool) outcome" where
  "verify_settings E s msg [] = Ok True"
| "verify_settings E s msg (key # keys) =
     bind_outcome (pkg_ed_verify E key msg
         (case s (hex_encode key) of None \<Rightarrow> [] | Some r \<Rightarrow> rr_Signature r))
       (\<lambda>ok. if \<not> ok then Ok False else verify_settings E s msg keys)"

definition RoundSettings_Verify ::
  "('mpk, 'msk, 'bpk, 'bsk) pkg_env \<Rightarrow> (string \<rightharpoonup> ('mpk, 'bpk) RevealReply) \<Rightarrow> u32 \<Rightarrow> bytes list \<Rightarrow>
   (unit, bool) outcome" where
  "RoundSettings_Verify E s round keys =
     (case settings_msg E s (sort (map hex_encode keys)) (commitments_header round) of
        None \<Rightarrow> Ok False | Some msg \<Rightarrow> verify_settings E s msg keys)"

text \<open>
  The requests of \<open>NewRound\<close>, over a world they change: \<open>commit key round\<close> and
  \<open>reveal key round commitments\<close> give the decoded reply of the server with that key, or
  \<open>None\<close> for any error.
\<close>

record ('w, 'mpk, 'bpk) pkg_net =
  net_commit :: "bytes \<Rightarrow> u32 \<Rightarrow> 'w \<Rightarrow> 'w \<times> bytes option"
  net_reveal :: "bytes \<Rightarrow> u32 \<Rightarrow> (string \<rightharpoonup> bytes) \<Rightarrow> 'w \<Rightarrow> 'w \<times> ('mpk, 'bpk) RevealReply option"

fun commit_all ::
  "('w, 'mpk, 'bpk) pkg_net \<Rightarrow> u32 \<Rightarrow> bytes list \<Rightarrow> (string \<rightharpoonup> bytes) \<Rightarrow> 'w \<Rightarrow>
   'w \<times> (string \<rightharpoonup> bytes) option" where
  "commit_all N round [] cs w = (w, Some cs)"
| "commit_all N round (key # keys) cs w =
     (case net_commit N key round w of
        (w', None) \<Rightarrow> (w', None)
      | (w', Some c) \<Rightarrow> commit_all N round keys (cs(hex_encode key \<mapsto> c)) w')"

fun reveal_all ::
  "('w, 'mpk, 'bpk) pkg_net \<Rightarrow> u32 \<Rightarrow> (string \<rightharpoonup> bytes) \<Rightarrow> bytes list \<Rightarrow>
   (string \<rightharpoonup> ('mpk, 'bpk) RevealReply) \<Rightarrow> 'w \<Rightarrow> 'w \<times> (string \<rightharpoonup> ('mpk, 'bpk) RevealReply) option" where
  "reveal_all N round cs [] s w = (w, Some s)"
| "reveal_all N round cs (key # keys) s w =
     (case net_reveal N key round cs w of
        (w', None) \<Rightarrow> (w', None)
      | (w', Some r) \<Rightarrow> reveal_all N round cs keys (s(hex_encode key \<mapsto> r)) w')"

datatype new_round_error = RequestFailed | SettingsNotVerified

definition pkg_NewRound ::
  "('mpk, 'msk, 'bpk, 'bsk) pkg_env \<Rightarrow> ('w, 'mpk, 'bpk) pkg_net \<Rightarrow> bytes list \<Rightarrow> u32 \<Rightarrow> 'w \<Rightarrow>
   'w \<times> (new_round_error, string \<rightharpoonup> ('mpk, 'bpk) RevealReply) outcome" where
  "pkg_NewRound E N keys round w =
     (case commit_all N round keys Map.empty w of
        (w1, None) \<Rightarrow> (w1, Err RequestFailed)
      | (w1, Some cs) \<Rightarrow>
          (case reveal_all N round cs keys Map.empty w1 of
             (w2, None) \<Rightarrow> (w2, Err RequestFailed)
           | (w2, Some settings) \<Rightarrow>
               (w2, case RoundSettings_Verify E settings round keys of
                      Ok True \<Rightarrow> Ok settings | Panic \<Rightarrow> Panic | _ \<Rightarrow> Err SettingsNotVerified)))"

section \<open>Hexadecimal keys\<close>

lemma hex_digit_inj: "m < 16 \<Longrightarrow> n < 16 \<Longrightarrow> hex_digit m = hex_digit n \<longleftrightarrow> m = n"
  unfolding hex_digit_def by (subst nth_eq_iff_index_eq) simp_all

lemma hex_encode_Cons:
  "hex_encode (x # xs) = hex_digit (unat x div 16) # hex_digit (unat x mod 16) # hex_encode xs"
  by (simp add: hex_encode_def)

lemma length_hex_encode [simp]: "length (hex_encode b) = 2 * length b"
  by (induction b) (simp_all add: hex_encode_def)

lemma hex_encode_inj: "hex_encode a = hex_encode b \<Longrightarrow> a = b"
proof (induction a arbitrary: b)
  case Nil
  then show ?case by (cases b) (simp_all add: hex_encode_Cons, simp add: hex_encode_def)
next
  case (Cons x a)
  then obtain y b' where b: "b = y # b'" by (cases b) (auto simp: hex_encode_Cons hex_encode_def)
  have lt: "unat z div 16 < 16" "unat z mod 16 < 16" for z :: byte
  proof -
    have "unat z < 2 ^ LENGTH(8)" by (rule unsigned_less)
    then show "unat z div 16 < 16" "unat z mod 16 < 16" by simp_all
  qed
  have "unat x div 16 = unat y div 16" "unat x mod 16 = unat y mod 16" "hex_encode a = hex_encode b'"
    using Cons.prems lt [of x] lt [of y] unfolding b by (auto simp: hex_encode_Cons hex_digit_inj)
  then have "unat x = unat y" by (metis div_mult_mod_eq)
  then show ?case using Cons.IH \<open>hex_encode a = hex_encode b'\<close> b by (simp add: word_unat_eq_iff)
qed

lemma inj_hex: "inj_on hex_encode A" by (auto intro: inj_onI hex_encode_inj)

section \<open>Messages\<close>

lemma write_commitments_ok:
  "(\<forall>k\<in>set ks. length k = 64 \<and> (\<exists>c. cs k = Some c \<and> length c = len)) \<Longrightarrow>
     write_commitments cs len ks buf = Ok (buf @ concat (map (\<lambda>k. str_bytes k @ the (cs k)) ks))"
  by (induction ks arbitrary: buf) (auto simp: Let_def)

lemma settings_msg_ok:
  "(\<forall>k\<in>set ks. \<exists>r. s k = Some r) \<Longrightarrow>
     settings_msg E s ks buf = Some (buf @ concat (map (\<lambda>k. str_bytes k @
       commitTo E (rr_MasterPublicKey (the (s k))) (rr_BLSPublicKey (the (s k)))) ks))"
  by (induction ks arbitrary: buf) auto

lemma length_commitTo [simp]: "length (commitTo E a b) = 32"
  by (simp add: commitTo_def)

definition round_msg :: "u32 \<Rightarrow> (string \<rightharpoonup> bytes) \<Rightarrow> bytes" where
  "round_msg round cs = commitments_header round @
     concat (map (\<lambda>k. str_bytes k @ the (cs k)) (sorted_list_of_set (dom cs)))"

section \<open>A round among honest servers\<close>

text \<open>
  The servers behind the coordinator's requests: \<open>fresh\<close> are the keys a server would generate,
  \<open>req\<close> the coordinator's request.
\<close>

definition servers_net ::
  "('mpk, 'msk, 'bpk, 'bsk) pkg_env \<Rightarrow> (bytes \<Rightarrow> 'mpk \<times> 'msk \<times> 'bpk \<times> 'bsk) \<Rightarrow> http_request \<Rightarrow>
   (bytes \<rightharpoonup> ('db, 'mpk, 'msk, 'bpk, 'bsk) pkg_server, 'mpk, 'bpk) pkg_net" where
  "servers_net E fresh req = \<lparr>
     net_commit = (\<lambda>key round w. case w key of None \<Rightarrow> (w, None)
       | Some srv \<Rightarrow> (case commitHandler E (fresh key) req (Some round) srv of
           (srv', Ok c) \<Rightarrow> (w(key \<mapsto> srv'), Some c) | (srv', _) \<Rightarrow> (w(key \<mapsto> srv'), None))),
     net_reveal = (\<lambda>key round cs w. case w key of None \<Rightarrow> (w, None)
       | Some srv \<Rightarrow> (case revealHandler E req (Some (round, cs)) srv of
           (srv', Ok r) \<Rightarrow> (w(key \<mapsto> srv'), Some r) | (srv', _) \<Rightarrow> (w(key \<mapsto> srv'), None)))\<rparr>"

text \<open>An honest server under a key: whose key it is, whom it serves, and that its signatures verify.\<close>

definition honest ::
  "('mpk, 'msk, 'bpk, 'bsk) pkg_env \<Rightarrow> bytes \<Rightarrow> bytes \<Rightarrow> ('db, 'mpk, 'msk, 'bpk, 'bsk) pkg_server \<Rightarrow> bool" where
  "honest E ck key srv \<longleftrightarrow> pkg_publicKey srv = key \<and> pkg_coordinatorKey srv = ck \<and>
     (\<forall>msg. pe_ed_verify E key msg (pe_ed_sign E (pkg_privateKey srv) msg))"

definition unrevealed :: "u32 \<Rightarrow> ('db, 'mpk, 'msk, 'bpk, 'bsk) pkg_server \<Rightarrow> bool" where
  "unrevealed round srv \<longleftrightarrow> (\<forall>st. pkg_rounds srv round = Some st \<longrightarrow> revealSignature st = None)"

definition committed ::
  "('mpk, 'msk, 'bpk, 'bsk) pkg_env \<Rightarrow> bytes \<Rightarrow> u32 \<Rightarrow> (string \<rightharpoonup> bytes) \<Rightarrow>
   (bytes \<rightharpoonup> ('db, 'mpk, 'msk, 'bpk, 'bsk) pkg_server) \<Rightarrow> bytes \<Rightarrow> bool" where
  "committed E ck round cs w key \<longleftrightarrow> (\<exists>srv st. w key = Some srv \<and> honest E ck key srv \<and>
     pkg_rounds srv round = Some st \<and> revealSignature st = None \<and>
     cs (hex_encode key) = Some (commitTo E (masterPublicKey st) (blsPublicKey st)))"

lemma authorized_ok: "tls_peers req = Some [Some ck] \<Longrightarrow> authorized ck req = Ok ()"
  by (simp add: authorized_def)

lemma keeps_own_round: "(r :: u32) \<noteq> 0 \<Longrightarrow> \<not> r < r - 1"
  using measure_unat [of r] by (auto simp: word_less_nat_alt)

lemma commit_step:
  assumes "tls_peers req = Some [Some ck]" and "round \<noteq> 0" and "w key = Some srv"
    and "honest E ck key srv" and "unrevealed round srv"
  shows "\<exists>srv' c. net_commit (servers_net E fresh req) key round w = (w(key \<mapsto> srv'), Some c) \<and>
    committed E ck round (cs(hex_encode key \<mapsto> c)) (w(key \<mapsto> srv')) key"
  using assms keeps_own_round [OF assms(2)]
  by (auto simp: servers_net_def commitHandler_def authorized_ok honest_def committed_def Let_def
      unrevealed_def split: prod.splits option.splits)

lemma committed_other:
  "key' \<noteq> key \<Longrightarrow> committed E ck round (cs(hex_encode key' \<mapsto> c)) (w(key' \<mapsto> srv)) key =
     committed E ck round cs w key"
  using hex_encode_inj by (auto simp: committed_def)

lemma commit_all_honest:
  assumes "tls_peers req = Some [Some ck]" and "round \<noteq> 0"
    and "distinct keys" and "\<And>key. key \<in> set keys \<Longrightarrow>
      \<exists>srv. w key = Some srv \<and> honest E ck key srv \<and> unrevealed round srv"
  shows "\<exists>w' cs'. commit_all (servers_net E fresh req) round keys cs w = (w', Some cs') \<and>
    (\<forall>key\<in>set keys. committed E ck round cs' w' key) \<and> dom cs' = dom cs \<union> hex_encode ` set keys \<and>
    (\<forall>key. key \<notin> set keys \<longrightarrow> committed E ck round cs' w' key = committed E ck round cs w key)"
  using assms(3,4)
proof (induction keys arbitrary: cs w)
  case (Cons key keys)
  obtain srv where "w key = Some srv" "honest E ck key srv" "unrevealed round srv"
    using Cons.prems(2) by auto
  from commit_step [OF assms(1,2), of w key srv E fresh cs, OF this] obtain srv' c where
    c: "net_commit (servers_net E fresh req) key round w = (w(key \<mapsto> srv'), Some c)"
       "committed E ck round (cs(hex_encode key \<mapsto> c)) (w(key \<mapsto> srv')) key" by blast
  have "\<exists>srv. (w(key \<mapsto> srv')) k = Some srv \<and> honest E ck k srv \<and> unrevealed round srv"
    if "k \<in> set keys" for k using that Cons.prems by auto
  moreover have d: "distinct keys" using Cons.prems(1) by simp
  ultimately obtain w' cs' where
    r: "commit_all (servers_net E fresh req) round keys (cs(hex_encode key \<mapsto> c)) (w(key \<mapsto> srv')) = (w', Some cs')"
    "\<forall>k\<in>set keys. committed E ck round cs' w' k"
    "dom cs' = dom (cs(hex_encode key \<mapsto> c)) \<union> hex_encode ` set keys"
    "\<forall>k. k \<notin> set keys \<longrightarrow> committed E ck round cs' w' k =
       committed E ck round (cs(hex_encode key \<mapsto> c)) (w(key \<mapsto> srv')) k"
    using Cons.IH [of "w(key \<mapsto> srv')" "cs(hex_encode key \<mapsto> c)"] by blast
  have "committed E ck round cs' w' key" using r(4) c(2) Cons.prems(1) by simp
  moreover have "committed E ck round cs' w' k = committed E ck round cs w k" if "k \<notin> set (key # keys)" for k
    using r(4) that by (auto simp: committed_other)
  ultimately show ?case using c(1) r by auto
qed simp

text \<open>What is revealed: the committed keys, with a signature over all commitments.\<close>

definition revealed ::
  "('mpk, 'msk, 'bpk, 'bsk) pkg_env \<Rightarrow> u32 \<Rightarrow> (string \<rightharpoonup> bytes) \<Rightarrow>
   (string \<rightharpoonup> ('mpk, 'bpk) RevealReply) \<Rightarrow> bytes \<Rightarrow> bool" where
  "revealed E round cs s key \<longleftrightarrow> (\<exists>r. s (hex_encode key) = Some r \<and>
     cs (hex_encode key) = Some (commitTo E (rr_MasterPublicKey r) (rr_BLSPublicKey r)) \<and>
     pe_ed_verify E key (round_msg round cs) (rr_Signature r))"

lemma reveal_step:
  assumes "tls_peers req = Some [Some ck]" and "committed E ck round cs w key"
    and "finite (dom cs)" "\<And>k c. cs k = Some c \<Longrightarrow> length k = 64 \<and> length c = 32"
  shows "\<exists>srv' r. net_reveal (servers_net E fresh req) key round cs w = (w(key \<mapsto> srv'), Some r) \<and>
    revealed E round cs (s(hex_encode key \<mapsto> r)) key"
proof -
  obtain srv st where s: "w key = Some srv" "honest E ck key srv" "pkg_rounds srv round = Some st"
    "revealSignature st = None" "cs (hex_encode key) = Some (commitTo E (masterPublicKey st) (blsPublicKey st))"
    using assms(2) by (auto simp: committed_def)
  have "write_commitments cs 32 (sorted_list_of_set (dom cs)) (commitments_header round) = Ok (round_msg round cs)"
    unfolding round_msg_def by (rule write_commitments_ok) (use assms(3,4) in auto)
  then show ?thesis
    using s by (auto simp: servers_net_def revealHandler_def honest_def authorized_ok [OF assms(1)]
        Let_def revealed_def intro!: exI)
qed

lemma reveal_all_honest:
  assumes "tls_peers req = Some [Some ck]"
    and "finite (dom cs)" "\<And>k c. cs k = Some c \<Longrightarrow> length k = 64 \<and> length c = 32"
    and "distinct keys" and "\<And>key. key \<in> set keys \<Longrightarrow> committed E ck round cs w key"
  shows "\<exists>w' s'. reveal_all (servers_net E fresh req) round cs keys s w = (w', Some s') \<and>
    (\<forall>key\<in>set keys. revealed E round cs s' key) \<and> dom s' = dom s \<union> hex_encode ` set keys \<and>
    (\<forall>key. key \<notin> set keys \<longrightarrow> s' (hex_encode key) = s (hex_encode key))"
  using assms(4,5)
proof (induction keys arbitrary: s w)
  case (Cons key keys)
  from reveal_step [OF assms(1) _ assms(2,3), of E round w key fresh s] Cons.prems(2) obtain srv' r where
    r: "net_reveal (servers_net E fresh req) key round cs w = (w(key \<mapsto> srv'), Some r)"
       "revealed E round cs (s(hex_encode key \<mapsto> r)) key" by auto
  have "committed E ck round cs (w(key \<mapsto> srv')) k" if "k \<in> set keys" for k
    using that Cons.prems by (auto simp: committed_def)
  moreover have "distinct keys" using Cons.prems(1) by simp
  ultimately obtain w' s' where
    i: "reveal_all (servers_net E fresh req) round cs keys (s(hex_encode key \<mapsto> r)) (w(key \<mapsto> srv')) = (w', Some s')"
    "\<forall>k\<in>set keys. revealed E round cs s' k" "dom s' = dom (s(hex_encode key \<mapsto> r)) \<union> hex_encode ` set keys"
    "\<forall>k. k \<notin> set keys \<longrightarrow> s' (hex_encode k) = (s(hex_encode key \<mapsto> r)) (hex_encode k)"
    using Cons.IH [of "w(key \<mapsto> srv')" "s(hex_encode key \<mapsto> r)"] by blast
  have "s' (hex_encode key) = Some r" using i(4) Cons.prems(1) by simp
  then have "revealed E round cs s' key" using r(2) by (auto simp: revealed_def)
  moreover have "s' (hex_encode k) = s (hex_encode k)" if "k \<notin> set (key # keys)" for k
    using i(4) that hex_encode_inj [of k key] by auto
  ultimately show ?case using r(1) i by auto
qed simp

text \<open>What the coordinator recomputes is what the servers signed.\<close>

lemma verify_settings_ok:
  "(\<And>key. key \<in> set keys \<Longrightarrow> length key = 32 \<and>
      (\<exists>r. s (hex_encode key) = Some r \<and> pe_ed_verify E key msg (rr_Signature r))) \<Longrightarrow>
     verify_settings E s msg keys = Ok True"
proof (induction keys)
  case (Cons key keys)
  then obtain r where "length key = 32" "s (hex_encode key) = Some r" "pe_ed_verify E key msg (rr_Signature r)"
    by force
  with Cons show ?case by (simp add: pkg_ed_verify_def)
qed simp

lemma revealed_verifies:
  assumes "distinct keys" and "\<And>key. key \<in> set keys \<Longrightarrow> length key = 32"
    and "dom cs = hex_encode ` set keys" and "\<And>key. key \<in> set keys \<Longrightarrow> revealed E round cs s key"
  shows "RoundSettings_Verify E s round keys = Ok True"
proof -
  let ?ks = "sort (map hex_encode keys)"
  have ks: "?ks = sorted_list_of_set (dom cs)"
    using assms(1,3) by (simp add: sorted_list_of_set_sort_remdups distinct_map inj_hex distinct_remdups_id
        flip: set_map)
  have r: "\<exists>r. s k = Some r \<and> the (cs k) = commitTo E (rr_MasterPublicKey r) (rr_BLSPublicKey r)"
    if "k \<in> set ?ks" for k
    using that assms(4) by (force simp: revealed_def)
  then have "settings_msg E s ?ks (commitments_header round) = Some (commitments_header round @
      concat (map (\<lambda>k. str_bytes k @ commitTo E (rr_MasterPublicKey (the (s k))) (rr_BLSPublicKey (the (s k)))) ?ks))"
    by (intro settings_msg_ok) blast
  also have "map (\<lambda>k. str_bytes k @ commitTo E (rr_MasterPublicKey (the (s k))) (rr_BLSPublicKey (the (s k)))) ?ks
      = map (\<lambda>k. str_bytes k @ the (cs k)) ?ks"
    using r by (intro map_cong) force+
  finally have m: "settings_msg E s ?ks (commitments_header round) = Some (round_msg round cs)"
    by (simp add: round_msg_def ks)
  have "verify_settings E s (round_msg round cs) keys = Ok True"
    using assms(2,4) by (intro verify_settings_ok) (force simp: revealed_def)
  with m show ?thesis by (simp add: RoundSettings_Verify_def)
qed

section \<open>Properties\<close>

text \<open>
  C21: a round among honest servers succeeds. When every configured server is honest, has not
  revealed the round before and serves this coordinator, both phases go through and the
  coordinator accepts the settings, which hold exactly the keys of the configured servers.
\<close>

theorem new_round_completes:
  assumes "tls_peers req = Some [Some ck]" and "round \<noteq> 0" and "distinct keys"
    and "\<And>key. key \<in> set keys \<Longrightarrow> length key = 32"
    and "\<And>key. key \<in> set keys \<Longrightarrow>
      \<exists>srv. w key = Some srv \<and> honest E ck key srv \<and> unrevealed round srv"
  shows "\<exists>w' settings. pkg_NewRound E (servers_net E fresh req) keys round w = (w', Ok settings) \<and>
    dom settings = hex_encode ` set keys"
proof -
  obtain w1 cs where c: "commit_all (servers_net E fresh req) round keys Map.empty w = (w1, Some cs)"
    "\<forall>key\<in>set keys. committed E ck round cs w1 key" "dom cs = hex_encode ` set keys"
    using commit_all_honest [OF assms(1,2,3), of w E fresh Map.empty] assms(5) by auto
  have len: "length k = 64 \<and> length c = 32" if k: "cs k = Some c" for k c
  proof -
    obtain key where "key \<in> set keys" "k = hex_encode key" using c(3) k by (auto simp: dom_def)
    then show ?thesis using c(2) k assms(4) by (fastforce simp: committed_def)
  qed
  have "finite (dom cs)" by (simp add: c(3))
  from reveal_all_honest [OF assms(1) this len assms(3), of E round w1 fresh Map.empty] c(2)
  obtain w2 s where r: "reveal_all (servers_net E fresh req) round cs keys Map.empty w1 = (w2, Some s)"
    "\<forall>key\<in>set keys. revealed E round cs s key" "dom s = hex_encode ` set keys" by auto
  have "RoundSettings_Verify E s round keys = Ok True"
    using revealed_verifies [OF assms(3,4) c(3)] r(2) by blast
  then show ?thesis using c(1) r by (simp add: pkg_NewRound_def)
qed

text \<open>
  What the coordinator's acceptance shows. Every configured key has settings, and its
  signature verifies over one message, made of the round and, in the order of the keys, every
  key with the commitment to the master keys in its settings.
\<close>

theorem settings_sound:
  assumes "RoundSettings_Verify E s round keys = Ok True"
  shows "\<exists>msg. msg = commitments_header round @ concat (map (\<lambda>k. str_bytes k @
      commitTo E (rr_MasterPublicKey (the (s k))) (rr_BLSPublicKey (the (s k)))) (sort (map hex_encode keys))) \<and>
    (\<forall>key\<in>set keys. \<exists>r. s (hex_encode key) = Some r \<and> length key = 32 \<and>
       pe_ed_verify E key msg (rr_Signature r))"
proof -
  have all: "settings_msg E s ks buf = Some msg \<Longrightarrow> \<forall>k\<in>set ks. \<exists>r. s k = Some r" for ks buf msg
    by (induction ks arbitrary: buf) (auto split: option.splits)
  obtain msg where m: "settings_msg E s (sort (map hex_encode keys)) (commitments_header round) = Some msg"
    and v: "verify_settings E s msg keys = Ok True"
    using assms by (auto simp: RoundSettings_Verify_def split: option.splits)
  have ex: "\<forall>k\<in>set (sort (map hex_encode keys)). \<exists>r. s k = Some r" by (rule all [OF m])
  have "verify_settings E s msg ks = Ok True \<Longrightarrow> \<forall>key\<in>set ks. length key = 32 \<and>
      pe_ed_verify E key msg (case s (hex_encode key) of None \<Rightarrow> [] | Some r \<Rightarrow> rr_Signature r)" for ks
    by (induction ks) (auto simp: bind_outcome_Ok pkg_ed_verify_def split: if_splits)
  note v' = this [OF v]
  have "msg = commitments_header round @ concat (map (\<lambda>k. str_bytes k @
      commitTo E (rr_MasterPublicKey (the (s k))) (rr_BLSPublicKey (the (s k)))) (sort (map hex_encode keys)))"
    using settings_msg_ok [OF ex, of E "commitments_header round"] m by simp
  moreover have "\<exists>r. s (hex_encode key) = Some r \<and> length key = 32 \<and> pe_ed_verify E key msg (rr_Signature r)"
    if "key \<in> set keys" for key
    using that ex v' by force
  ultimately show ?thesis by blast
qed


text \<open>
  Which rounds a commit keeps. For a round other than 0 the round itself and those from the
  one before it on are kept, with the keys they had; for round 0 the subtraction wraps and the
  round that was just committed to is deleted with every other but the largest.
\<close>

theorem commit_keeps_rounds:
  assumes "commitHandler E fresh req (Some round) srv = (srv', Ok c)"
  shows "(round \<noteq> 0 \<longrightarrow> pkg_rounds srv' round \<noteq> None \<and>
      (\<forall>r st. round - 1 \<le> r \<longrightarrow> pkg_rounds srv r = Some st \<longrightarrow> pkg_rounds srv' r = Some st)) \<and>
    (round = 0 \<longrightarrow> pkg_rounds srv' 0 = None \<and> dom (pkg_rounds srv') \<subseteq> {- 1})"
proof -
  obtain ip ik bp bk where f: "fresh = (ip, ik, bp, bk)" by (rule prod_cases4)
  define st where "st = (case pkg_rounds srv round of Some st \<Rightarrow> st
    | None \<Rightarrow> \<lparr>masterPublicKey = ip, masterPrivateKey = ik, blsPublicKey = bp, blsPrivateKey = bk,
        revealSignature = None\<rparr>)"
  have "authorized (pkg_coordinatorKey srv) req = Ok ()"
    using assms by (simp add: commitHandler_def split: outcome.splits)
  then have s: "pkg_rounds srv' = (pkg_rounds srv)(round \<mapsto> st) |` {r. \<not> r < round - 1}"
    using assms by (auto simp: commitHandler_def f st_def Let_def)
  have st: "\<And>st'. pkg_rounds srv round = Some st' \<Longrightarrow> st = st'" by (simp add: st_def)
  show ?thesis
  proof (cases "round = 0")
    case True
    have "\<not> r < (- 1 :: u32) \<longleftrightarrow> r = - 1" for r
      by (metis word_order.not_eq_extremum)
    then have "{r. \<not> r < round - 1} = {- 1}" using True by auto
    moreover have "(0 :: u32) \<notin> {- 1}" by simp
    ultimately show ?thesis unfolding s using True by (auto simp: restrict_map_def dom_def)
  next
    case False
    have in_range: "pkg_rounds srv' r = ((pkg_rounds srv)(round \<mapsto> st)) r" if "round - 1 \<le> r" for r
      unfolding s using that by (intro restrict_in) (simp add: not_less)
    have "round - 1 \<le> round" using keeps_own_round [OF False] by (simp add: not_less)
    then have "pkg_rounds srv' round \<noteq> None" using in_range by simp
    moreover have "pkg_rounds srv' r = Some st'" if "round - 1 \<le> r" "pkg_rounds srv r = Some st'" for r st'
      using in_range [OF that(1)] that(2) st by (cases "r = round") simp_all
    ultimately show ?thesis using False by blast
  qed
qed


section \<open>Witnesses\<close>

definition demo_request :: http_request where
  "demo_request = \<lparr>http_method = ''POST'', url_path = ''/'', tls_peers = Some [Some [7]], q_get = (\<lambda>_. ''''),
     http_body = []\<rparr>"

lemma demo_request_peers [simp]: "tls_peers demo_request = Some [Some [7]]" by (simp add: demo_request_def)

theorem new_round_completes_witness:
  "\<exists>w' settings. pkg_NewRound demo_pkg_env (servers_net demo_pkg_env (\<lambda>_. ([], [], [], []))
      demo_request) [replicate 32 9, replicate 32 8] 3
      [replicate 32 9 \<mapsto> demo_pkg 9 [], replicate 32 8 \<mapsto> demo_pkg 8 []] = (w', Ok settings) \<and>
    dom settings = hex_encode ` set [replicate 32 9, replicate 32 8]"
proof (rule new_round_completes [where ck = "[7]"])
  have n: "replicate 32 (9 :: byte) \<noteq> replicate 32 8" by simp
  show "distinct [replicate 32 (9 :: byte), replicate 32 8]" using n by simp
  show "\<exists>srv. [replicate 32 9 \<mapsto> demo_pkg 9 [], replicate 32 8 \<mapsto> demo_pkg 8 []] key = Some srv \<and>
      honest demo_pkg_env [7] key srv \<and> unrevealed 3 srv"
    if "key \<in> set [replicate 32 9, replicate 32 8]" for key
    using that n by (auto simp: honest_def unrevealed_def demo_pkg_def demo_pkg_env_def)
qed auto



theorem settings_sound_witness:
  "\<exists>msg. pe_ed_verify demo_pkg_env (replicate 32 9) msg (replicate 32 9 @ commitments_header 3 @
     str_bytes (hex_encode (replicate 32 9)) @ commitTo demo_pkg_env [1] [3])"
proof -
  have "RoundSettings_Verify demo_pkg_env [hex_encode (replicate 32 9) \<mapsto> \<lparr>rr_MasterPublicKey = [1],
      rr_BLSPublicKey = [3], rr_Signature = replicate 32 9 @ commitments_header 3 @
        str_bytes (hex_encode (replicate 32 9)) @ commitTo demo_pkg_env [1] [3]\<rparr>] 3 [replicate 32 9] = Ok True"
    by (simp add: RoundSettings_Verify_def pkg_ed_verify_def) (simp add: demo_pkg_env_def)
  from settings_sound [OF this] show ?thesis by auto
qed

theorem commit_keeps_rounds_witness:
  "pkg_rounds (fst (commitHandler demo_pkg_env ([], [], [], []) demo_request
     (Some 4) (demo_pkg 9 []))) 3 \<noteq> None"
proof -
  obtain srv' c where c: "commitHandler demo_pkg_env ([], [], [], []) demo_request
     (Some 4) (demo_pkg 9 []) = (srv', Ok c)"
    by (simp add: commitHandler_def authorized_def demo_pkg_def Let_def)
  moreover have "\<exists>st. pkg_rounds (demo_pkg 9 []) 3 = Some st" by (simp add: demo_pkg_def)
  ultimately show ?thesis using commit_keeps_rounds [OF c] by auto
qed

end
