(* ===== verification/PkgClient.thy ===== *)
theory PkgClient
  imports PkgRound
begin

text \<open>
  The client of a private key generator (src/pkg/client.go). The request and the response in
  between are \<open>do\<close>: it gives the decoded reply of the server with a key, or \<open>None\<close> for any error
  of the connection, of the server or of the decoding. What the client signs comes before it, the
  checks of the reply after it.
\<close>

section \<open>The client\<close>

text \<open>\<open>LoginKey\<close> with its public half, which Go's key type carries.\<close>

record pkg_client =
  cl_Username :: string
  cl_LoginKey :: bytes
  cl_LoginPublic :: bytes
  cl_UserLongTermKey :: bytes

definition client_Register :: "pkg_client \<Rightarrow> string \<Rightarrow> registerArgs" where
  "client_Register c token = \<lparr>ra_Username = cl_Username c, ra_LoginKey = cl_LoginPublic c,
     ra_RegistrationToken = token\<rparr>"

text \<open>\<open>message\<close> are the 32 random bytes.\<close>

definition client_CheckStatus ::
  "('mpk, 'msk, 'bpk, 'bsk) pkg_env \<Rightarrow> pkg_client \<Rightarrow> bytes \<Rightarrow> bytes \<Rightarrow> statusArgs" where
  "client_CheckStatus E c server_key message =
     (let args = \<lparr>sa_Username = cl_Username c, sa_Message = message, sa_ServerSigningKey = server_key,
            sa_Signature = []\<rparr>
      in args\<lparr>sa_Signature := pe_ed_sign E (cl_LoginKey c) (statusArgs_msg args)\<rparr>)"

definition extractArgs_Sign ::
  "('mpk, 'msk, 'bpk, 'bsk) pkg_env \<Rightarrow> bytes \<Rightarrow> extractArgs \<Rightarrow> ('e, extractArgs) outcome" where
  "extractArgs_Sign E key a =
     bind_outcome (extractArgs_msg a) (\<lambda>msg. Ok (a\<lparr>xa_Signature := pe_ed_sign E key msg\<rparr>))"

definition extractReply_Verify ::
  "('mpk, 'msk, 'bpk, 'bsk) pkg_env \<Rightarrow> bytes \<Rightarrow> extractReply \<Rightarrow> ('e, bool) outcome" where
  "extractReply_Verify E key r = pkg_ed_verify E key (extractReply_msg r) (xr_Signature r)"

datatype extract_error =
  RequestError | UnexpectedRound u32 | UnexpectedUsername string | ShortCiphertext nat | InvalidSignature
| InvalidIdentitySignature nat | BoxFailed | UnmarshalIdentityKey

record ExtractResult =
  er_PrivateKey :: bytes
  er_IdentitySig :: bytes

definition extract_request ::
  "('mpk, 'msk, 'bpk, 'bsk) pkg_env \<Rightarrow> pkg_client \<Rightarrow> bytes \<Rightarrow> bytes \<Rightarrow> u32 \<Rightarrow> (extract_error, extractArgs) outcome" where
  "extract_request E c my_pub server_key round =
     extractArgs_Sign E (cl_LoginKey c)
       \<lparr>xa_Round = round, xa_Username = cl_Username c, xa_ReturnKey = Some my_pub,
        xa_UserLongTermKey = cl_UserLongTermKey c, xa_ServerSigningKey = server_key, xa_Signature = []\<rparr>"

text \<open>
  \<open>box_open ctxt their_key my_private\<close> opens a sealed message, \<open>valid_key\<close> tells which bytes
  \<open>IdentityPrivateKey.UnmarshalBinary\<close> takes.
\<close>

definition check_reply ::
  "('mpk, 'msk, 'bpk, 'bsk) pkg_env \<Rightarrow> (bytes \<Rightarrow> bytes \<Rightarrow> bytes \<Rightarrow> bytes option) \<Rightarrow> (bytes \<Rightarrow> bool) \<Rightarrow>
   pkg_client \<Rightarrow> bytes \<Rightarrow> bytes \<Rightarrow> u32 \<Rightarrow> extractReply \<Rightarrow> (extract_error, ExtractResult) outcome" where
  "check_reply E box_open valid_key c my_priv server_key round reply =
     (if xr_Round reply \<noteq> round then Err (UnexpectedRound (xr_Round reply))
      else if xr_Username reply \<noteq> cl_Username c then Err (UnexpectedUsername (xr_Username reply))
      else if length (xr_EncryptedPrivateKey reply) < 32
        then Err (ShortCiphertext (length (xr_EncryptedPrivateKey reply)))
      else bind_outcome (extractReply_Verify E server_key reply) (\<lambda>ok.
        if \<not> ok then Err InvalidSignature
        else if length (xr_IdentitySig reply) \<noteq> 64
          then Err (InvalidIdentitySignature (length (xr_IdentitySig reply)))
        else (case box_open (drop 32 (xr_EncryptedPrivateKey reply))
                (take 32 (xr_EncryptedPrivateKey reply)) my_priv of
            None \<Rightarrow> Err BoxFailed
          | Some msg \<Rightarrow>
              if \<not> valid_key msg then Err UnmarshalIdentityKey
              else Ok \<lparr>er_PrivateKey = msg, er_IdentitySig = xr_IdentitySig reply\<rparr>)))"

definition client_Extract ::
  "('mpk, 'msk, 'bpk, 'bsk) pkg_env \<Rightarrow> (bytes \<Rightarrow> bytes \<Rightarrow> bytes \<Rightarrow> bytes option) \<Rightarrow> (bytes \<Rightarrow> bool) \<Rightarrow>
   (extractArgs \<Rightarrow> 'w \<Rightarrow> 'w \<times> extractReply option) \<Rightarrow> pkg_client \<Rightarrow> bytes \<times> bytes \<Rightarrow> bytes \<Rightarrow> u32 \<Rightarrow> 'w \<Rightarrow>
   'w \<times> (extract_error, ExtractResult) outcome" where
  "client_Extract E box_open valid_key do_request c box_key server_key round w =
     (case extract_request E c (fst box_key) server_key round of
        Panic \<Rightarrow> (w, Panic) | Err e \<Rightarrow> (w, Err e)
      | Ok args \<Rightarrow>
          (case do_request args w of
             (w', None) \<Rightarrow> (w', Err RequestError)
           | (w', Some reply) \<Rightarrow> (w', check_reply E box_open valid_key c (snd box_key) server_key round reply)))"

section \<open>Against the server\<close>

definition server_do ::
  "('mpk, 'msk, 'bpk, 'bsk) pkg_env \<Rightarrow> 'db kv \<Rightarrow> int \<Rightarrow> bytes \<times> bytes \<Rightarrow> extractArgs \<Rightarrow>
   ('db, 'mpk, 'msk, 'bpk, 'bsk) pkg_server \<Rightarrow>
   ('db, 'mpk, 'msk, 'bpk, 'bsk) pkg_server \<times> extractReply option" where
  "server_do E K now box_key args srv =
     (case extractHandler E K now box_key (Some args) srv of
        (srv', Ok reply) \<Rightarrow> (srv', Some reply) | (srv', _) \<Rightarrow> (srv', None))"

text \<open>A database that takes every write.\<close>

definition kv_total :: "'db kv \<Rightarrow> bool" where
  "kv_total K \<longleftrightarrow> (\<forall>k v db. kv_set K k v db \<noteq> None) \<and> (\<forall>db. kv_commit K db \<noteq> None)"

lemma kv_total_write: "kv_total K \<Longrightarrow> \<exists>db'. Option.bind (kv_set K k v db) (kv_commit K) = Some db'"
  unfolding kv_total_def by (metis option.exhaust Option.bind.simps(2))

lemma getUser_identity:
  "getUser E K u db = Ok (lk, i) \<Longrightarrow> i = ValidUsernameToIdentity u \<and> length i = 64 \<and> length lk = 32"
  by (auto simp: getUser_def UsernameToIdentity_def ValidUsernameToIdentity_def userState_Unmarshal_def
      split: option.splits if_splits outcome.splits)

text \<open>What the server answers to the client's request.\<close>

lemma extract_answer:
  assumes "pkg_rounds srv round = Some st"
    and "getUser E K (cl_Username c) (pkg_db srv) = Ok (cl_LoginPublic c, i)"
    and "\<And>m. pe_ed_verify E (cl_LoginPublic c) m (pe_ed_sign E (cl_LoginKey c) m)"
    and "length (cl_UserLongTermKey c) = 32" and "length my_pub = 32" and "kv_total K"
    and "extract_request E c my_pub (pkg_publicKey srv) round = Ok args"
  shows "\<exists>srv' reply. server_do E K now box_key args srv = (srv', Some reply) \<and>
    reply = extractReply_Sign E (pkg_privateKey srv)
      \<lparr>xr_Round = round, xr_Username = cl_Username c,
       xr_EncryptedPrivateKey = fst box_key @ pe_box E (pe_ibe_extract E (masterPrivateKey st) i) my_pub (snd box_key),
       xr_Signature = [],
       xr_IdentitySig = pe_bls_sign E (blsPrivateKey st)
         (Attestation_Marshal E (blsPublicKey st) i (cl_UserLongTermKey c))\<rparr>"
proof -
  note i = getUser_identity [OF assms(2)]
  let ?msg = "str_bytes ''ExtractArgs'' @ pkg_publicKey srv @ be32 round @
    ValidUsernameToIdentity (cl_Username c) @ my_pub @ cl_UserLongTermKey c"
  have a: "args = \<lparr>xa_Round = round, xa_Username = cl_Username c, xa_ReturnKey = Some my_pub,
      xa_UserLongTermKey = cl_UserLongTermKey c, xa_ServerSigningKey = pkg_publicKey srv,
      xa_Signature = pe_ed_sign E (cl_LoginKey c) ?msg\<rparr>"
    using assms(5,7) by (simp add: extract_request_def extractArgs_Sign_def extractArgs_msg_def)
  have "extract_auth E K args (pkg_db srv) = Ok i"
    using assms(2,3,5) i by (simp add: a extract_auth_def extractArgs_msg_def pkg_ed_verify_def)
  moreover have "args\<lparr>xa_ServerSigningKey := pkg_publicKey srv\<rparr> = args" by (simp add: a)
  moreover obtain db' where "Option.bind (kv_set K (dbUserKey i lastExtractionSuffix)
      (lastExtraction_Marshal \<lparr>le_Round = round, le_UnixTime = word_of_int now\<rparr>) (pkg_db srv)) (kv_commit K)
      = Some db'"
    using kv_total_write [OF assms(6)] by blast
  moreover have "xa_Round args = round" "xa_UserLongTermKey args = cl_UserLongTermKey c"
    "xa_Username args = cl_Username c" "xa_ReturnKey args = Some my_pub" by (simp_all add: a)
  ultimately show ?thesis
    using assms(1,4,5) by (simp add: server_do_def extractHandler_def pkg_extract_def Let_def)
qed

section \<open>Properties\<close>

text \<open>
  C23: an extraction against an honest server succeeds. A client whose login key is registered gets
  the identity key of its name under the server's master key of the round, opened with its own box
  key, and the server's attestation of its long-term key; no check of the client rejects the reply.
\<close>

theorem extraction_completes:
  assumes "pkg_rounds srv round = Some st"
    and "getUser E K (cl_Username c) (pkg_db srv) = Ok (cl_LoginPublic c, i)"
    and "\<And>m. pe_ed_verify E (cl_LoginPublic c) m (pe_ed_sign E (cl_LoginKey c) m)"
    and "honest E ck (pkg_publicKey srv) srv" and "length (pkg_publicKey srv) = 32"
    and "length (cl_UserLongTermKey c) = 32" and "length my_pub = 32" and "length srv_pub = 32"
    and "kv_total K"
    and "\<And>m. box_open (pe_box E m my_pub srv_priv) srv_pub my_priv = Some m"
    and "\<And>m. length (pe_bls_sign E (blsPrivateKey st) m) = 64"
    and "valid_key (pe_ibe_extract E (masterPrivateKey st) i)"
  shows "\<exists>srv'. client_Extract E box_open valid_key (server_do E K now (srv_pub, srv_priv)) c
      (my_pub, my_priv) (pkg_publicKey srv) round srv =
    (srv', Ok \<lparr>er_PrivateKey = pe_ibe_extract E (masterPrivateKey st) i,
       er_IdentitySig = pe_bls_sign E (blsPrivateKey st)
         (Attestation_Marshal E (blsPublicKey st) i (cl_UserLongTermKey c))\<rparr>)"
proof -
  obtain args where r: "extract_request E c my_pub (pkg_publicKey srv) round = Ok args"
    by (simp add: extract_request_def extractArgs_Sign_def extractArgs_msg_def)
  from extract_answer [OF assms(1-3,6,7,9) r, of now "(srv_pub, srv_priv)"] obtain srv' reply where
    d: "server_do E K now (srv_pub, srv_priv) args srv = (srv', Some reply)"
    and reply: "reply = extractReply_Sign E (pkg_privateKey srv)
      \<lparr>xr_Round = round, xr_Username = cl_Username c,
       xr_EncryptedPrivateKey = srv_pub @ pe_box E (pe_ibe_extract E (masterPrivateKey st) i) my_pub srv_priv,
       xr_Signature = [], xr_IdentitySig = pe_bls_sign E (blsPrivateKey st)
         (Attestation_Marshal E (blsPublicKey st) i (cl_UserLongTermKey c))\<rparr>" by auto
  have "extractReply_Verify E (pkg_publicKey srv) reply = (Ok True :: (extract_error, bool) outcome)"
    using assms(4,5)
    by (simp add: extractReply_Verify_def pkg_ed_verify_def reply extractReply_Sign_def extractReply_msg_def honest_def)
  moreover have "xr_Round reply = round" "xr_Username reply = cl_Username c"
    "xr_EncryptedPrivateKey reply = srv_pub @ pe_box E (pe_ibe_extract E (masterPrivateKey st) i) my_pub srv_priv"
    "xr_IdentitySig reply = pe_bls_sign E (blsPrivateKey st)
       (Attestation_Marshal E (blsPublicKey st) i (cl_UserLongTermKey c))"
    by (simp_all add: reply extractReply_Sign_def)
  ultimately have "check_reply E box_open valid_key c my_priv (pkg_publicKey srv) round reply =
      Ok \<lparr>er_PrivateKey = pe_ibe_extract E (masterPrivateKey st) i,
       er_IdentitySig = pe_bls_sign E (blsPrivateKey st)
         (Attestation_Marshal E (blsPublicKey st) i (cl_UserLongTermKey c))\<rparr>"
    using assms(8,10-12) by (simp add: check_reply_def)
  then show ?thesis by (simp add: client_Extract_def r d)
qed

text \<open>An instance: the fixed-length key the signature scheme of the demo has is the message's head.\<close>

definition demo_client_env :: "(bytes, bytes, bytes, bytes) pkg_env" where
  "demo_client_env = demo_pkg_env\<lparr>pe_bls_sign := (\<lambda>k m. fixed 64 m)\<rparr>"

definition demo_client :: pkg_client where
  "demo_client = \<lparr>cl_Username = ''a@b'', cl_LoginKey = replicate 32 5, cl_LoginPublic = replicate 32 5,
     cl_UserLongTermKey = replicate 32 2\<rparr>"

theorem extraction_completes_witness:
  "\<exists>srv' sig. client_Extract demo_client_env (\<lambda>m _ _. Some m) (\<lambda>_. True)
     (server_do demo_client_env list_kv 0 (replicate 32 1, replicate 32 1)) demo_client
     (replicate 32 6, replicate 32 6) (replicate 32 9) 3 (demo_pkg 9 demo_db) =
   (srv', Ok \<lparr>er_PrivateKey = [2] @ demo_id, er_IdentitySig = sig\<rparr>)"
proof -
  let ?st = "\<lparr>masterPublicKey = [1], masterPrivateKey = [2], blsPublicKey = [3], blsPrivateKey = [4],
    revealSignature = None\<rparr> :: (bytes, bytes, bytes, bytes) roundState"
  have u: "getUser demo_client_env list_kv (cl_Username demo_client) (pkg_db (demo_pkg 9 demo_db)) =
      Ok (cl_LoginPublic demo_client, demo_id)"
    using demo_getUser by (simp add: demo_client_env_def demo_client_def demo_pkg_def getUser_def)
  have h: "honest demo_client_env [7] (pkg_publicKey (demo_pkg 9 demo_db)) (demo_pkg 9 demo_db)"
    by (simp add: honest_def demo_pkg_def demo_client_env_def demo_pkg_env_def)
  have "\<exists>srv'. client_Extract demo_client_env (\<lambda>m _ _. Some m) (\<lambda>_. True)
     (server_do demo_client_env list_kv 0 (replicate 32 1, replicate 32 1)) demo_client
     (replicate 32 6, replicate 32 6) (pkg_publicKey (demo_pkg 9 demo_db)) 3 (demo_pkg 9 demo_db) =
    (srv', Ok \<lparr>er_PrivateKey = pe_ibe_extract demo_client_env (masterPrivateKey ?st) demo_id,
       er_IdentitySig = pe_bls_sign demo_client_env (blsPrivateKey ?st)
         (Attestation_Marshal demo_client_env (blsPublicKey ?st) demo_id (cl_UserLongTermKey demo_client))\<rparr>)"
    by (rule extraction_completes [OF _ u _ h])
      (simp_all add: demo_pkg_def demo_client_def demo_client_env_def demo_pkg_env_def kv_total_def list_kv_def)
  moreover have "pkg_publicKey (demo_pkg 9 demo_db) = replicate 32 9" by (simp add: demo_pkg_def)
  moreover have "pe_ibe_extract demo_client_env (masterPrivateKey ?st) demo_id = [2] @ demo_id"
    by (simp add: demo_client_env_def demo_pkg_env_def)
  ultimately show ?thesis by (simp only:) blast
qed

end
