(* ===== verification/MixServer.thy ===== *)
theory MixServer
  imports Decimal "HOL-Library.Multiset"
begin

text \<open>
  A mix server (src/mixnet/mixnet.go, src/mixnet/settings.go): opening a round, signing its
  settings, taking in onions, closing the round and serving the replies. The RPC methods lock the
  server's or the round's mutex around what they change, so a method is one step; AddOnions, which
  takes the mutex per request, is its start and one step per request, and the decryption workers
  are a step per job.
\<close>

section \<open>Round settings\<close>

text \<open>\<open>ServiceData\<close> is the parsed form of the raw data, absent until it was parsed.\<close>

record 'sd RoundSettings =
  rs_Service :: string
  rs_Round :: u32
  rs_OnionKeys :: "bytes list"
  rs_RawServiceData :: bytes
  rs_ServiceData :: "'sd option"

text \<open>The protobuf message, whose keys have any length.\<close>

record pb_settings =
  pb_Service :: string
  pb_Round :: u32
  pb_OnionKeys :: "bytes list"
  pb_ServiceData :: bytes

text \<open>\<open>json\<close> is the JSON encoding of the settings without the parsed data.\<close>

definition RoundSettings_SigningMessage :: "(pb_settings \<Rightarrow> bytes) \<Rightarrow> 'sd RoundSettings \<Rightarrow> bytes" where
  "RoundSettings_SigningMessage json s = str_bytes ''RoundSettings'' @
     json \<lparr>pb_Service = rs_Service s, pb_Round = rs_Round s, pb_OnionKeys = rs_OnionKeys s,
       pb_ServiceData = rs_RawServiceData s\<rparr>"

text \<open>A key that does not fill the array is refused; of a longer one the head is taken.\<close>

fun keys_FromProto :: "nat \<Rightarrow> bytes list \<Rightarrow> (nat \<times> nat, bytes list) outcome" where
  "keys_FromProto i [] = Ok []"
| "keys_FromProto i (k # ks) =
     (let n = min 32 (length k) in
      if n \<noteq> 32 then Err (i, n)
      else bind_outcome (keys_FromProto (Suc i) ks) (\<lambda>r. Ok (fixed 32 k # r)))"

definition settings_FromProto :: "pb_settings \<Rightarrow> (nat \<times> nat, 'sd RoundSettings) outcome" where
  "settings_FromProto p =
     bind_outcome (keys_FromProto 0 (pb_OnionKeys p)) (\<lambda>keys.
       Ok \<lparr>rs_Service = pb_Service p, rs_Round = pb_Round p, rs_OnionKeys = keys,
           rs_RawServiceData = pb_ServiceData p, rs_ServiceData = None\<rparr>)"

definition settings_Proto :: "'sd RoundSettings \<Rightarrow> pb_settings" where
  "settings_Proto s = \<lparr>pb_Service = rs_Service s, pb_Round = rs_Round s, pb_OnionKeys = rs_OnionKeys s,
     pb_ServiceData = rs_RawServiceData s\<rparr>"

definition ForwardNonce :: "u32 \<Rightarrow> bytes" where
  "ForwardNonce round = fixed 24 (be32 round @ [0])"

definition BackwardNonce :: "u32 \<Rightarrow> bytes" where
  "BackwardNonce round = fixed 24 (be32 round @ [1])"

section \<open>The server\<close>

record mix_conf =
  mc_Key :: bytes
  mc_Address :: string

text \<open>
  The service interface as far as the rounds of a server use it; \<open>HandleMessages\<close> comes with
  closing. \<open>None\<close> is an error of the parser and a panic of the noise generator.
\<close>

record 'sd mix_service =
  Bidirectional :: bool
  SizeIncomingMessage :: nat
  SizeReplyMessage :: int
  ParseServiceData :: "bytes \<Rightarrow> 'sd option"
  GenerateNoise :: "'sd RoundSettings \<Rightarrow> nat \<Rightarrow> bytes list option"

text \<open>
  Ed25519 and NaCl boxes, the sizes they add, and the JSON of settings. \<open>mx_open\<close> opens with a
  precomputed key; \<open>box.Open\<close> is the same after \<open>mx_precompute their_public my_private\<close>.
\<close>

record mix_crypto =
  mx_sign :: "bytes \<Rightarrow> bytes \<Rightarrow> bytes"
  mx_verify :: "bytes \<Rightarrow> bytes \<Rightarrow> bytes \<Rightarrow> bool"
  mx_precompute :: "bytes \<Rightarrow> bytes \<Rightarrow> bytes"
  mx_open :: "bytes \<Rightarrow> bytes \<Rightarrow> bytes \<Rightarrow> bytes option"
  mx_seal :: "bytes \<Rightarrow> bytes \<Rightarrow> bytes \<Rightarrow> bytes"
  mx_box_overhead :: nat
  mx_onion_overhead :: nat
  mx_json :: "pb_settings \<Rightarrow> bytes"

datatype mix_error =
  DataLoss | UnknownAuthInfo | PeerCertificates nat | NotEd25519Certificate | WrongEdtlsKey
| RoundNotFound u32 | UnknownService string | BadServerKey bytes | NotInChain
| WrongKeySize nat nat | BadServiceData | WrongKeyCount nat nat | UnexpectedKeyAt nat
| MultipleNumIncoming u32 u32 | OverflowingOnions u32 nat u32 | InvalidMetadata
| NextServerFailed | HandleFailed | NotBidirectional | InvalidOffsetCount u32 u32 nat | NeverReturns

text \<open>A request that waits for the workers: its offset and its onions.\<close>

type_synonym mix_job = "nat \<times> bytes list"

text \<open>
  \<open>settings\<close> and \<open>settingsSignature\<close> are set together; \<open>jobs\<close> are the requests the wait group
  counts; a nil message is \<open>None\<close>; \<open>noise\<close> is what the goroutine of SetRoundSettings leaves, and
  \<open>None\<close> before, when its channel is nil.
\<close>

record 'sd roundState =
  st_settings :: "'sd RoundSettings option"
  st_settingsSignature :: "bytes option"
  st_numIncoming :: u32
  st_incoming :: "bytes option list"
  st_sharedKeys :: "bytes list"
  st_jobs :: "mix_job list"
  st_incomingIndex :: "int list"
  st_replies :: "bytes list option"
  st_acceptingOnions :: bool
  st_closed :: bool
  st_closeResult :: string
  st_err :: "mix_error option"
  st_chain :: "mix_conf list"
  st_myPos :: nat
  st_bidirectional :: bool
  st_incomingOnionSize :: nat
  st_onionPrivateKey :: bytes
  st_onionPublicKey :: bytes
  st_noise :: "bytes list option"

record 'sd mix_server =
  ms_SigningKey :: bytes
  ms_PublicKey :: bytes
  ms_CoordinatorKey :: bytes
  ms_Services :: "string \<rightharpoonup> 'sd mix_service"
  ms_rounds :: "string \<times> u32 \<rightharpoonup> 'sd roundState"

definition getRound :: "string \<Rightarrow> u32 \<Rightarrow> 'sd mix_server \<Rightarrow> (mix_error, 'sd roundState) outcome" where
  "getRound service round srv =
     (case ms_rounds srv (service, round) of None \<Rightarrow> Err (RoundNotFound round) | Some st \<Rightarrow> Ok st)"

text \<open>What the context of an RPC says of the peer: its certificates' keys, \<open>None\<close> if not Ed25519.\<close>

datatype rpc_peer = NoPeer | OtherAuth | TlsPeer "bytes option list"

definition mix_auth :: "rpc_peer \<Rightarrow> bytes \<Rightarrow> (mix_error, unit) outcome" where
  "mix_auth p expectedKey =
     (case p of
        NoPeer \<Rightarrow> Err DataLoss
      | OtherAuth \<Rightarrow> Err UnknownAuthInfo
      | TlsPeer certs \<Rightarrow>
          (case certs of
             [c] \<Rightarrow> (case c of
                 None \<Rightarrow> Err NotEd25519Certificate
               | Some peerKey \<Rightarrow> if expectedKey \<noteq> peerKey then Err WrongEdtlsKey else Ok ())
           | _ \<Rightarrow> Err (PeerCertificates (length certs))))"

definition prev_key :: "'sd mix_server \<Rightarrow> 'sd roundState \<Rightarrow> bytes" where
  "prev_key srv st =
     (if st_myPos st = 0 then ms_CoordinatorKey srv else mc_Key (st_chain st ! (st_myPos st - 1)))"

definition authPrev :: "rpc_peer \<Rightarrow> 'sd mix_server \<Rightarrow> 'sd roundState \<Rightarrow> (mix_error, unit) outcome" where
  "authPrev p srv st = mix_auth p (prev_key srv st)"

section \<open>Opening a round\<close>

definition conf_FromProto :: "bytes \<times> string \<Rightarrow> (mix_error, mix_conf) outcome" where
  "conf_FromProto pbc =
     (if length (fst pbc) \<noteq> 32 then Err (BadServerKey (fst pbc))
      else Ok \<lparr>mc_Key = fst pbc, mc_Address = snd pbc\<rparr>)"

text \<open>The loop over the chain: the configs, and the last position that has the server's key.\<close>

fun read_chain :: "bytes \<Rightarrow> nat \<Rightarrow> (bytes \<times> string) list \<Rightarrow> int \<Rightarrow> (mix_error, mix_conf list \<times> int) outcome" where
  "read_chain myPub i [] myPos = Ok ([], myPos)"
| "read_chain myPub i (conf # confs) myPos =
     bind_outcome (conf_FromProto conf) (\<lambda>c.
     bind_outcome (read_chain myPub (Suc i) confs (if fst conf = myPub then int i else myPos)) (\<lambda>(cs, p).
       Ok (c # cs, p)))"

definition init_round ::
  "mix_crypto \<Rightarrow> 'sd mix_service \<Rightarrow> mix_conf list \<Rightarrow> nat \<Rightarrow> bytes \<times> bytes \<Rightarrow> 'sd roundState" where
  "init_round C service chain myPos fresh = \<lparr>
     st_settings = None, st_settingsSignature = None, st_numIncoming = 0, st_incoming = [],
     st_sharedKeys = [], st_jobs = [], st_incomingIndex = [], st_replies = None,
     st_acceptingOnions = False, st_closed = False, st_closeResult = '''', st_err = None,
     st_chain = chain, st_myPos = myPos, st_bidirectional = Bidirectional service,
     st_incomingOnionSize = (length chain - myPos) * mx_onion_overhead C + SizeIncomingMessage service,
     st_onionPrivateKey = snd fresh, st_onionPublicKey = fst fresh, st_noise = None\<rparr>"

text \<open>\<open>fresh\<close> is the generated key pair, public half first; the result is the onion key.\<close>

definition mix_NewRound ::
  "mix_crypto \<Rightarrow> bytes \<times> bytes \<Rightarrow> rpc_peer \<Rightarrow> string \<Rightarrow> u32 \<Rightarrow> (bytes \<times> string) list \<Rightarrow> 'sd mix_server \<Rightarrow>
   'sd mix_server \<times> (mix_error, bytes) outcome" where
  "mix_NewRound C fresh p service round chain srv =
     (case mix_auth p (ms_CoordinatorKey srv) of
        Err e \<Rightarrow> (srv, Err e) | Panic \<Rightarrow> (srv, Panic)
      | Ok _ \<Rightarrow>
          (case ms_Services srv service of
             None \<Rightarrow> (srv, Err (UnknownService service))
           | Some svc \<Rightarrow>
               (case ms_rounds srv (service, round) of
                  Some st \<Rightarrow> (srv, Ok (st_onionPublicKey st))
                | None \<Rightarrow>
                    (case read_chain (ms_PublicKey srv) 0 chain (- 1) of
                       Err e \<Rightarrow> (srv, Err e) | Panic \<Rightarrow> (srv, Panic)
                     | Ok (confs, myPos) \<Rightarrow>
                         if myPos = - 1 then (srv, Err NotInChain)
                         else (srv\<lparr>ms_rounds := (ms_rounds srv)((service, round) \<mapsto>
                                 init_round C svc confs (nat myPos) fresh)\<rparr>, Ok (fst fresh))))))"

section \<open>Signing the settings\<close>

definition SetRoundSettings ::
  "mix_crypto \<Rightarrow> rpc_peer \<Rightarrow> pb_settings option \<Rightarrow> 'sd mix_server \<Rightarrow>
   'sd mix_server \<times> (mix_error, bytes) outcome" where
  "SetRoundSettings C p req srv =
     (case mix_auth p (ms_CoordinatorKey srv) of
        Err e \<Rightarrow> (srv, Err e) | Panic \<Rightarrow> (srv, Panic)
      | Ok _ \<Rightarrow>
     (case req of None \<Rightarrow> (srv, Panic) | Some reqSettings \<Rightarrow>
     (case (settings_FromProto reqSettings :: (nat \<times> nat, 'sd RoundSettings) outcome) of
        Err (i, n) \<Rightarrow> (srv, Err (WrongKeySize i n)) | Panic \<Rightarrow> (srv, Panic)
      | Ok settings0 \<Rightarrow>
     (case getRound (rs_Service settings0) (rs_Round settings0) srv of
        Err e \<Rightarrow> (srv, Err e) | Panic \<Rightarrow> (srv, Panic)
      | Ok st \<Rightarrow>
     (case ms_Services srv (rs_Service settings0) of
        None \<Rightarrow> (srv, Panic)
      | Some service \<Rightarrow>
     (case ParseServiceData service (rs_RawServiceData settings0) of
        None \<Rightarrow> (srv, Err BadServiceData)
      | Some serviceData \<Rightarrow>
          (let settings = settings0\<lparr>rs_ServiceData := Some serviceData\<rparr> in
           case st_settingsSignature st of
             Some sig \<Rightarrow> (srv, Ok sig)
           | None \<Rightarrow>
               if length (rs_OnionKeys settings) \<noteq> length (st_chain st)
               then (srv, Err (WrongKeyCount (length (st_chain st)) (length (rs_OnionKeys settings))))
               else if rs_OnionKeys settings ! st_myPos st \<noteq> st_onionPublicKey st
               then (srv, Err (UnexpectedKeyAt (st_myPos st)))
               else
                 (case GenerateNoise service settings (st_myPos st) of
                    None \<Rightarrow> (srv, Panic)
                  | Some noise \<Rightarrow>
                      (let sig = mx_sign C (ms_SigningKey srv) (RoundSettings_SigningMessage (mx_json C) settings)
                       in (srv\<lparr>ms_rounds := (ms_rounds srv)((rs_Service settings, rs_Round settings) \<mapsto>
                             st\<lparr>st_settings := Some settings, st_settingsSignature := Some sig,
                                st_noise := Some noise\<rparr>)\<rparr>, Ok sig))))))))))"

section \<open>Taking in onions\<close>

definition decrypt_onion ::
  "mix_crypto \<Rightarrow> u32 \<Rightarrow> nat \<times> bytes \<Rightarrow> 'sd roundState \<Rightarrow> (unit, 'sd roundState) outcome" where
  "decrypt_onion C round job st =
     (let (pos, onion) = job; theirPublic = fixed 32 (take 32 onion);
          key = mx_precompute C theirPublic (st_onionPrivateKey st) in
      if length onion \<noteq> st_incomingOnionSize st then Ok st
      else if st_bidirectional st \<and> length (st_sharedKeys st) \<le> pos then Panic
      else if length (st_incoming st) \<le> pos then Panic
      else Ok (st\<lparr>
        st_sharedKeys := (if st_bidirectional st then (st_sharedKeys st)[pos := key] else st_sharedKeys st),
        st_incoming := (st_incoming st)[pos := mx_open C (drop 32 onion) (ForwardNonce round) key]\<rparr>))"

text \<open>A worker's job; a panic there ends the server.\<close>

definition decrypt_job ::
  "mix_crypto \<Rightarrow> u32 \<Rightarrow> mix_job \<Rightarrow> 'sd roundState \<Rightarrow> (unit, 'sd roundState) outcome" where
  "decrypt_job C round job st =
     fold_outcome (decrypt_onion C round) (List.enumerate (fst job) (snd job)) st"

record stream_metadata =
  md_service :: string
  md_round :: u32
  md_numIncoming :: u32

text \<open>A key that is absent is nil; one that is present has at least one value.\<close>

definition parseMetadata :: "(string \<Rightarrow> string list option) option \<Rightarrow> (mix_error, stream_metadata) outcome" where
  "parseMetadata ctx =
     (case ctx of None \<Rightarrow> Err InvalidMetadata
      | Some md \<Rightarrow>
         (case md ''service'' of None \<Rightarrow> Err InvalidMetadata | Some [] \<Rightarrow> Panic
          | Some (service # _) \<Rightarrow>
         (case md ''round'' of None \<Rightarrow> Err InvalidMetadata | Some [] \<Rightarrow> Panic
          | Some (rs # _) \<Rightarrow>
         (case parse_u32 rs of None \<Rightarrow> Err InvalidMetadata
          | Some r \<Rightarrow>
         (case md ''numincoming'' of None \<Rightarrow> Err InvalidMetadata | Some [] \<Rightarrow> Panic
          | Some (ns # _) \<Rightarrow>
         (case parse_u32 ns of None \<Rightarrow> Err InvalidMetadata
          | Some ni \<Rightarrow> Ok \<lparr>md_service = service, md_round = r, md_numIncoming = ni\<rparr>))))))"

text \<open>The beginning of AddOnions, up to its loop.\<close>

definition addOnions_start ::
  "rpc_peer \<Rightarrow> (string \<Rightarrow> string list option) option \<Rightarrow> 'sd mix_server \<Rightarrow>
   'sd mix_server \<times> (mix_error, stream_metadata) outcome" where
  "addOnions_start p ctx srv =
     (case bind_outcome (parseMetadata ctx) (\<lambda>md.
           bind_outcome (getRound (md_service md) (md_round md) srv) (\<lambda>st.
           bind_outcome (authPrev p srv st) (\<lambda>_. Ok (md, st)))) of
        Err e \<Rightarrow> (srv, Err e) | Panic \<Rightarrow> (srv, Panic)
      | Ok (md, st) \<Rightarrow>
          if st_numIncoming st = 0
          then (srv\<lparr>ms_rounds := (ms_rounds srv)((md_service md, md_round md) \<mapsto>
                 st\<lparr>st_acceptingOnions := True, st_numIncoming := md_numIncoming md,
                    st_incoming := replicate (unat (md_numIncoming md)) None,
                    st_sharedKeys := (if st_bidirectional st
                      then replicate (unat (md_numIncoming md)) (replicate 32 0) else st_sharedKeys st)\<rparr>)\<rparr>, Ok md)
          else if st_numIncoming st \<noteq> md_numIncoming md
          then (srv, Err (MultipleNumIncoming (md_numIncoming md) (st_numIncoming st)))
          else (srv, Ok md))"

text \<open>One request of the stream; the sum is a \<open>uint32\<close>.\<close>

definition addOnions_recv ::
  "stream_metadata \<Rightarrow> u32 \<times> bytes list \<Rightarrow> 'sd mix_server \<Rightarrow> (mix_error, 'sd mix_server) outcome" where
  "addOnions_recv md req srv =
     (let (offset, onions) = req in
      if offset + word_of_nat (length onions) > md_numIncoming md
      then Err (OverflowingOnions offset (length onions) (md_numIncoming md))
      else (case ms_rounds srv (md_service md, md_round md) of
              None \<Rightarrow> Ok srv
            | Some st \<Rightarrow>
                if st_acceptingOnions st
                then Ok (srv\<lparr>ms_rounds := (ms_rounds srv)((md_service md, md_round md) \<mapsto>
                       st\<lparr>st_jobs := st_jobs st @ [(unat offset, onions)]\<rparr>)\<rparr>)
                else Ok srv))"

text \<open>A whole stream, with nothing in between; what a failing one did stays done.\<close>

fun recv_all ::
  "stream_metadata \<Rightarrow> (u32 \<times> bytes list) list \<Rightarrow> 'sd mix_server \<Rightarrow> 'sd mix_server \<times> (mix_error, unit) outcome" where
  "recv_all md [] srv = (srv, Ok ())"
| "recv_all md (req # reqs) srv =
     (case addOnions_recv md req srv of
        Err e \<Rightarrow> (srv, Err e) | Panic \<Rightarrow> (srv, Panic) | Ok srv' \<Rightarrow> recv_all md reqs srv')"

definition AddOnions ::
  "rpc_peer \<Rightarrow> (string \<Rightarrow> string list option) option \<Rightarrow> (u32 \<times> bytes list) list \<Rightarrow> 'sd mix_server \<Rightarrow>
   'sd mix_server \<times> (mix_error, unit) outcome" where
  "AddOnions p ctx reqs srv =
     (case addOnions_start p ctx srv of
        (srv', Err e) \<Rightarrow> (srv', Err e) | (srv', Panic) \<Rightarrow> (srv', Panic)
      | (srv', Ok md) \<Rightarrow> recv_all md reqs srv')"

section \<open>Closing a round\<close>

text \<open>
  The loop of \<open>filterIncoming\<close>: the messages that are kept, and for each onion the index of its
  message among them, -1 for a failed decryption and for a repeated key. A message of fewer than
  eight bytes makes the slice panic.
\<close>

fun filter_loop :: "bytes option list \<Rightarrow> u64 set \<Rightarrow> nat \<Rightarrow> (mix_error, bytes list \<times> int list) outcome" where
  "filter_loop [] seen n = Ok ([], [])"
| "filter_loop (None # ms) seen n =
     bind_outcome (filter_loop ms seen n) (\<lambda>(valid, index). Ok (valid, - 1 # index))"
| "filter_loop (Some msg # ms) seen n =
     (if length msg < 8 then Panic
      else (let msgkey = get_be64 (drop (length msg - 8) msg) in
            if msgkey \<in> seen
            then bind_outcome (filter_loop ms seen n) (\<lambda>(valid, index). Ok (valid, - 1 # index))
            else bind_outcome (filter_loop ms (insert msgkey seen) (Suc n)) (\<lambda>(valid, index).
                   Ok (msg # valid, int n # index))))"

definition filterIncoming :: "'sd roundState \<Rightarrow> (mix_error, bytes list \<times> 'sd roundState) outcome" where
  "filterIncoming st =
     bind_outcome (filter_loop (st_incoming st) {} 0) (\<lambda>(valid, index).
       Ok (valid, st\<lparr>st_incoming := map Some valid, st_incomingIndex := index\<rparr>))"

text \<open>
  What closing needs from outside: \<open>HandleMessages\<close> of the services and the next server's round
  (\<open>None\<close>: an error), over the world they change; the shuffler of this call; the order in which
  the workers finish their jobs; the fresh keys of the replies.
\<close>

datatype mix_result = Replies "bytes list" | ResultString string

record ('sd, 'w) close_env =
  ce_HandleMessages :: "string \<Rightarrow> 'sd RoundSettings \<Rightarrow> bytes list \<Rightarrow> 'w \<Rightarrow> 'w \<times> mix_result option"
  ce_RunRoundUnidirectional :: "mix_conf \<Rightarrow> string \<Rightarrow> u32 \<Rightarrow> bytes list \<Rightarrow> 'w \<Rightarrow> 'w \<times> string option"
  ce_RunRoundBidirectional :: "mix_conf \<Rightarrow> string \<Rightarrow> u32 \<Rightarrow> bytes list \<Rightarrow> 'w \<Rightarrow> 'w \<times> bytes list option"
  ce_shuffle :: "bytes list \<Rightarrow> bytes list"
  ce_unshuffle :: "bytes list \<Rightarrow> bytes list"
  ce_schedule :: "mix_job list \<Rightarrow> mix_job list"
  ce_freshKey :: "nat \<Rightarrow> bytes"

text \<open>
  \<open>encryptReplies\<close>. A reply of the wrong size, and the reply to a dropped onion, is an empty message
  under a fresh key. A negative size makes \<open>make\<close> panic; for size 0 a dropped onion's reply would be
  sealed with whatever key the goroutine has, nil at first, which is taken for a panic here.
\<close>

definition encrypt_reply ::
  "mix_crypto \<Rightarrow> (nat \<Rightarrow> bytes) \<Rightarrow> int \<Rightarrow> u32 \<Rightarrow> 'sd roundState \<Rightarrow> bytes list \<Rightarrow> nat \<Rightarrow> (mix_error, bytes) outcome" where
  "encrypt_reply C freshKey replyMsgSize round st replies i =
     (let v = st_incomingIndex st ! i;
          seal = (\<lambda>msg key. Ok (mx_seal C msg (BackwardNonce round) key));
          empty = seal (replicate (nat replyMsgSize) 0) (freshKey i) in
      if v > - 1
      then (if length replies \<le> nat v \<or> length (st_sharedKeys st) \<le> i then Panic
            else (let msg = replies ! nat v in
                  if int (length msg) \<noteq> replyMsgSize then empty else seal msg (st_sharedKeys st ! i)))
      else if replyMsgSize = 0 then Panic
      else empty)"

definition encryptReplies ::
  "mix_crypto \<Rightarrow> (nat \<Rightarrow> bytes) \<Rightarrow> 'sd mix_service \<Rightarrow> u32 \<Rightarrow> 'sd roundState \<Rightarrow> bytes list \<Rightarrow>
   (mix_error, 'sd roundState) outcome" where
  "encryptReplies C freshKey service round st replies =
     (let replyMsgSize = int ((length (st_chain st) - st_myPos st - 1) * mx_box_overhead C) + SizeReplyMessage service in
      if replyMsgSize < 0 then Panic
      else bind_outcome
        (fold_outcome (\<lambda>i rs. bind_outcome (encrypt_reply C freshKey replyMsgSize round st replies i)
            (\<lambda>r. Ok (rs @ [r]))) [0..<length (st_incomingIndex st)] [])
        (\<lambda>rs. Ok (st\<lparr>st_replies := Some rs\<rparr>)))"

text \<open>Up to the outgoing batch: the state, the batch and the number of messages that are not noise.\<close>

definition close_prepare ::
  "mix_crypto \<Rightarrow> (mix_job list \<Rightarrow> mix_job list) \<Rightarrow> u32 \<Rightarrow> 'sd roundState \<Rightarrow>
   (mix_error, 'sd roundState \<times> (bytes list \<times> nat) option) outcome" where
  "close_prepare C schedule round st =
     (case fold_outcome (decrypt_job C round) (schedule (st_jobs st)) (st\<lparr>st_acceptingOnions := False\<rparr>) of
        Err _ \<Rightarrow> Panic | Panic \<Rightarrow> Panic
      | Ok st1 \<Rightarrow>
          (case filterIncoming (st1\<lparr>st_jobs := [], st_closed := True\<rparr>) of
             Err e \<Rightarrow> Err e | Panic \<Rightarrow> Panic
           | Ok (incoming, st2) \<Rightarrow>
               (case st_noise st2 of
                  None \<Rightarrow> Ok (st2, None)
                | Some noise \<Rightarrow>
                    Ok (st2\<lparr>st_noise := Some [], st_incoming := []\<rparr>, Some (incoming @ noise, length incoming)))))"

text \<open>A server before the last one. The batch was shuffled; the replies come back in its order.\<close>

definition close_middle ::
  "mix_crypto \<Rightarrow> ('sd, 'w) close_env \<Rightarrow> 'sd mix_service \<Rightarrow> string \<Rightarrow> u32 \<Rightarrow> 'sd roundState \<Rightarrow> bytes list \<Rightarrow> nat \<Rightarrow> 'w \<Rightarrow>
   'w \<times> 'sd roundState \<times> (mix_error, string) outcome" where
  "close_middle C X svc service round st outgoing numNonNoise w =
     (let next = st_chain st ! Suc (st_myPos st); shuffled = ce_shuffle X outgoing;
          failed = st\<lparr>st_err := Some NextServerFailed\<rparr> in
      if st_bidirectional st
      then (case ce_RunRoundBidirectional X next service round shuffled w of
              (w', None) \<Rightarrow> (w', failed, Err NextServerFailed)
            | (w', Some replies) \<Rightarrow>
                (let replies' = ce_unshuffle X replies in
                 if length replies' < numNonNoise then (w', st, Panic)
                 else (case encryptReplies C (ce_freshKey X) svc round st (take numNonNoise replies') of
                         Ok st' \<Rightarrow> (w', st', Ok '''') | _ \<Rightarrow> (w', st, Panic))))
      else (case ce_RunRoundUnidirectional X next service round shuffled w of
              (w', None) \<Rightarrow> (w', failed, Err NextServerFailed)
            | (w', Some result) \<Rightarrow> (w', st\<lparr>st_closeResult := result\<rparr>, Ok result)))"

text \<open>The last server. A result of the other kind makes the type assertion panic.\<close>

definition close_last ::
  "mix_crypto \<Rightarrow> ('sd, 'w) close_env \<Rightarrow> 'sd mix_service \<Rightarrow> string \<Rightarrow> u32 \<Rightarrow> 'sd roundState \<Rightarrow> bytes list \<Rightarrow> 'w \<Rightarrow>
   'w \<times> 'sd roundState \<times> (mix_error, string) outcome" where
  "close_last C X svc service round st outgoing w =
     (case st_settings st of
        None \<Rightarrow> (w, st, Panic)
      | Some settings \<Rightarrow>
          (case ce_HandleMessages X service settings outgoing w of
             (w', None) \<Rightarrow> (w', st\<lparr>st_err := Some HandleFailed\<rparr>, Err HandleFailed)
           | (w', Some (Replies replies)) \<Rightarrow>
               if st_bidirectional st
               then (case encryptReplies C (ce_freshKey X) svc round st replies of
                       Ok st' \<Rightarrow> (w', st', Ok '''') | _ \<Rightarrow> (w', st, Panic))
               else (w', st, Panic)
           | (w', Some (ResultString result)) \<Rightarrow>
               if st_bidirectional st then (w', st, Panic)
               else (w', st\<lparr>st_closeResult := result\<rparr>, Ok result)))"

definition CloseRound ::
  "mix_crypto \<Rightarrow> ('sd, 'w) close_env \<Rightarrow> rpc_peer \<Rightarrow> string \<Rightarrow> u32 \<Rightarrow> 'sd mix_server \<Rightarrow> 'w \<Rightarrow>
   'w \<times> 'sd mix_server \<times> (mix_error, string) outcome" where
  "CloseRound C X p service round srv w =
     (let save = (\<lambda>st. srv\<lparr>ms_rounds := (ms_rounds srv)((service, round) \<mapsto> st)\<rparr>) in
      case bind_outcome (getRound service round srv) (\<lambda>st.
           bind_outcome (authPrev p srv st) (\<lambda>_. Ok st)) of
        Err e \<Rightarrow> (w, srv, Err e) | Panic \<Rightarrow> (w, srv, Panic)
      | Ok st \<Rightarrow>
          if st_closed st
          then (w, srv, case st_err st of None \<Rightarrow> Ok (st_closeResult st) | Some e \<Rightarrow> Err e)
          else (case close_prepare C (ce_schedule X) round st of
                  Err e \<Rightarrow> (w, srv, Err e) | Panic \<Rightarrow> (w, srv, Panic)
                | Ok (st', None) \<Rightarrow> (w, save st', Err NeverReturns)
                | Ok (st', Some (outgoing, numNonNoise)) \<Rightarrow>
                    (case ms_Services srv service of
                       None \<Rightarrow> (w, save st', Panic)
                     | Some svc \<Rightarrow>
                         (case (if Suc (st_myPos st') < length (st_chain st')
                                then close_middle C X svc service round st' outgoing numNonNoise w
                                else close_last C X svc service round st' outgoing w) of
                            (w', st'', r) \<Rightarrow> (w', save st'', r)))))"

section \<open>Serving the replies\<close>

text \<open>
  \<open>spans n k\<close> are the spans of \<open>concurrency.Spans\<close>, as start and count. Without replies the call
  waits for ever; sum and length are \<open>uint32\<close>, and a sum that wraps below the offset makes the
  slice panic.
\<close>

definition GetOnions ::
  "(nat \<Rightarrow> nat \<Rightarrow> (nat \<times> nat) list) \<Rightarrow> rpc_peer \<Rightarrow> string \<Rightarrow> u32 \<Rightarrow> u32 \<Rightarrow> u32 \<Rightarrow> 'sd mix_server \<Rightarrow>
   (mix_error, (u32 \<times> bytes list) list) outcome" where
  "GetOnions spans p service round offset num srv =
     bind_outcome (getRound service round srv) (\<lambda>st.
       if \<not> st_bidirectional st then Err NotBidirectional
       else bind_outcome (authPrev p srv st) (\<lambda>_.
         case st_replies st of
           None \<Rightarrow> Err NeverReturns
         | Some all \<Rightarrow>
             if offset + num > word_of_nat (length all)
             then Err (InvalidOffsetCount offset num (length all))
             else if offset + num < offset then Panic
             else (let replies = take (unat (offset + num) - unat offset) (drop (unat offset) all) in
                   Ok (map (\<lambda>(start, n). (offset + word_of_nat start, take n (drop start replies)))
                         (spans (length replies) 16)))))"

definition DeleteRound ::
  "rpc_peer \<Rightarrow> string \<Rightarrow> u32 \<Rightarrow> 'sd mix_server \<Rightarrow> 'sd mix_server \<times> (mix_error, unit) outcome" where
  "DeleteRound p service round srv =
     (case bind_outcome (getRound service round srv) (\<lambda>st. authPrev p srv st) of
        Err e \<Rightarrow> (srv, Err e) | Panic \<Rightarrow> (srv, Panic)
      | Ok _ \<Rightarrow> (srv\<lparr>ms_rounds := (ms_rounds srv)((service, round) := None)\<rparr>, Ok ()))"

section \<open>What the workers compute\<close>

definition onion_key :: "mix_crypto \<Rightarrow> 'sd roundState \<Rightarrow> bytes \<Rightarrow> bytes" where
  "onion_key C st onion = mx_precompute C (fixed 32 (take 32 onion)) (st_onionPrivateKey st)"

definition decrypted :: "mix_crypto \<Rightarrow> u32 \<Rightarrow> bytes \<Rightarrow> nat \<Rightarrow> bytes \<Rightarrow> bytes option" where
  "decrypted C round priv sz onion =
     (if length onion \<noteq> sz then None
      else mx_open C (drop 32 onion) (ForwardNonce round) (mx_precompute C (fixed 32 (take 32 onion)) priv))"

text \<open>Jobs write their own positions and nothing else of the round.\<close>

definition same_round :: "'sd roundState \<Rightarrow> 'sd roundState \<Rightarrow> bool" where
  "same_round st st' \<longleftrightarrow> st' = st\<lparr>st_incoming := st_incoming st', st_sharedKeys := st_sharedKeys st'\<rparr> \<and>
     length (st_incoming st') = length (st_incoming st) \<and> length (st_sharedKeys st') = length (st_sharedKeys st)"

lemma same_round_refl [simp]: "same_round st st" by (simp add: same_round_def)

lemma same_round_trans: "same_round a b \<Longrightarrow> same_round b c \<Longrightarrow> same_round a c"
  by (cases a; cases b; cases c) (simp add: same_round_def)

lemma same_round_fields:
  assumes "same_round st st'"
  shows "st_onionPrivateKey st' = st_onionPrivateKey st" "st_bidirectional st' = st_bidirectional st"
    "st_incomingOnionSize st' = st_incomingOnionSize st" "st_jobs st' = st_jobs st" "st_noise st' = st_noise st"
    "st_settings st' = st_settings st" "st_chain st' = st_chain st" "st_myPos st' = st_myPos st"
    "st_closed st' = st_closed st" "st_settingsSignature st' = st_settingsSignature st"
  using assms by (cases st; cases st'; simp add: same_round_def)+

lemma decrypt_onion_ok:
  assumes "i < length (st_incoming st)" and "st_bidirectional st \<Longrightarrow> length (st_sharedKeys st) = length (st_incoming st)"
  shows "\<exists>st'. decrypt_onion C round (i, onion) st = Ok st' \<and> same_round st st' \<and>
    (\<forall>j. st_incoming st' ! j = (if j = i \<and> length onion = st_incomingOnionSize st
       then decrypted C round (st_onionPrivateKey st) (st_incomingOnionSize st) onion else st_incoming st ! j)) \<and>
    (\<forall>j. st_sharedKeys st' ! j = (if j = i \<and> length onion = st_incomingOnionSize st \<and> st_bidirectional st
       then onion_key C st onion else st_sharedKeys st ! j))"
  using assms by (auto simp: decrypt_onion_def same_round_def decrypted_def onion_key_def Let_def nth_list_update)

lemma decrypt_onions_ok:
  assumes "distinct (map fst js)" and "\<And>i onion. (i, onion) \<in> set js \<Longrightarrow> i < length (st_incoming st)"
    and "st_bidirectional st \<Longrightarrow> length (st_sharedKeys st) = length (st_incoming st)"
  shows "\<exists>st'. fold_outcome (decrypt_onion C round) js st = Ok st' \<and> same_round st st' \<and>
    (\<forall>j. st_incoming st' ! j = (case map_of js j of
         Some onion \<Rightarrow> if length onion = st_incomingOnionSize st
           then decrypted C round (st_onionPrivateKey st) (st_incomingOnionSize st) onion else st_incoming st ! j
       | None \<Rightarrow> st_incoming st ! j)) \<and>
    (\<forall>j. st_bidirectional st \<longrightarrow> st_sharedKeys st' ! j = (case map_of js j of
         Some onion \<Rightarrow> if length onion = st_incomingOnionSize st then onion_key C st onion else st_sharedKeys st ! j
       | None \<Rightarrow> st_sharedKeys st ! j))"
  using assms
proof (induction js arbitrary: st)
  case (Cons j js)
  obtain i onion where j: "j = (i, onion)" by (cases j)
  have "i < length (st_incoming st)" using Cons.prems(2) [of i onion] by (simp add: j)
  from decrypt_onion_ok [OF this Cons.prems(3), where C = C and round = round and onion = onion]
  obtain st1 where s1: "decrypt_onion C round (i, onion) st = Ok st1" "same_round st st1"
    "\<forall>j. st_incoming st1 ! j = (if j = i \<and> length onion = st_incomingOnionSize st
       then decrypted C round (st_onionPrivateKey st) (st_incomingOnionSize st) onion else st_incoming st ! j)"
    "\<forall>j. st_sharedKeys st1 ! j = (if j = i \<and> length onion = st_incomingOnionSize st \<and> st_bidirectional st
       then onion_key C st onion else st_sharedKeys st ! j)" by blast
  have len: "length (st_incoming st1) = length (st_incoming st)" "length (st_sharedKeys st1) = length (st_sharedKeys st)"
    using s1(2) by (simp_all add: same_round_def)
  note f = same_round_fields [OF s1(2)]
  have d: "distinct (map fst js)" and i: "i \<notin> fst ` set js" using Cons.prems(1) by (auto simp: j)
  have "k < length (st_incoming st1)" if "(k, q) \<in> set js" for k q
    using Cons.prems(2) that len by auto
  moreover have "st_bidirectional st1 \<Longrightarrow> length (st_sharedKeys st1) = length (st_incoming st1)"
    using Cons.prems(3) len f by simp
  ultimately obtain st2 where s2: "fold_outcome (decrypt_onion C round) js st1 = Ok st2" "same_round st1 st2"
    "\<forall>j. st_incoming st2 ! j = (case map_of js j of
         Some onion \<Rightarrow> if length onion = st_incomingOnionSize st1
           then decrypted C round (st_onionPrivateKey st1) (st_incomingOnionSize st1) onion else st_incoming st1 ! j
       | None \<Rightarrow> st_incoming st1 ! j)"
    "\<forall>j. st_bidirectional st1 \<longrightarrow> st_sharedKeys st2 ! j = (case map_of js j of
         Some onion \<Rightarrow> if length onion = st_incomingOnionSize st1 then onion_key C st1 onion else st_sharedKeys st1 ! j
       | None \<Rightarrow> st_sharedKeys st1 ! j)"
    using Cons.IH [OF d, of st1] by blast
  have m: "map_of js i = None" using i by (simp add: map_of_eq_None_iff)
  have k: "onion_key C st1 = onion_key C st" by (simp add: onion_key_def f fun_eq_iff)
  have "fold_outcome (decrypt_onion C round) (j # js) st = Ok st2" by (simp add: j s1(1) s2(1))
  moreover have "same_round st st2" by (rule same_round_trans [OF s1(2) s2(2)])
  moreover have "st_incoming st2 ! n = (case map_of (j # js) n of
         Some onion \<Rightarrow> if length onion = st_incomingOnionSize st
           then decrypted C round (st_onionPrivateKey st) (st_incomingOnionSize st) onion else st_incoming st ! n
       | None \<Rightarrow> st_incoming st ! n)" for n
    using s2(3) s1(3) m by (cases "n = i") (auto simp: j f split: option.splits)
  moreover have "st_bidirectional st \<Longrightarrow> st_sharedKeys st2 ! n = (case map_of (j # js) n of
         Some onion \<Rightarrow> if length onion = st_incomingOnionSize st then onion_key C st onion else st_sharedKeys st ! n
       | None \<Rightarrow> st_sharedKeys st ! n)" for n
    using s2(4) s1(4) m by (cases "n = i") (auto simp: j f k split: option.splits)
  ultimately show ?case by blast
qed simp

definition job_onions :: "mix_job list \<Rightarrow> (nat \<times> bytes) list" where
  "job_onions jobs = concat (map (\<lambda>(offset, onions). List.enumerate offset onions) jobs)"

lemma fold_outcome_append: "fold_outcome f (xs @ ys) s = bind_outcome (fold_outcome f xs s) (fold_outcome f ys)"
proof (induction xs arbitrary: s)
  case (Cons x xs)
  then have "fold_outcome f (xs @ ys) = (\<lambda>s. bind_outcome (fold_outcome f xs s) (fold_outcome f ys))"
    by (simp add: fun_eq_iff)
  then show ?case by (simp add: bind_outcome_assoc)
qed simp

lemma decrypt_jobs_onions:
  fixes st :: "'sd roundState"
  shows "fold_outcome (decrypt_job C round) jobs st = fold_outcome (decrypt_onion C round) (job_onions jobs) st"
proof (induction jobs arbitrary: st)
  case (Cons j jobs)
  then have "fold_outcome (decrypt_job C round) jobs =
      (fold_outcome (decrypt_onion C round) (job_onions jobs) :: 'sd roundState \<Rightarrow> _)" by (intro ext)
  moreover have "decrypt_job C round j st = fold_outcome (decrypt_onion C round) (List.enumerate (fst j) (snd j)) st"
    by (simp add: decrypt_job_def)
  ultimately show ?case
    by (cases j) (simp add: job_onions_def fold_outcome_append)
qed (simp add: job_onions_def)

text \<open>
  The jobs of a batch that was split into requests, in whatever order the workers take them: slot
  \<open>i\<close> has the decryption of onion \<open>i\<close>.
\<close>

lemma jobs_decrypt_batch:
  assumes "mset (job_onions jobs) = mset (List.enumerate 0 onions)"
    and "st_incoming st = replicate (length onions) None"
    and "st_bidirectional st \<Longrightarrow> st_sharedKeys st = replicate (length onions) (replicate 32 0)"
  shows "\<exists>st'. fold_outcome (decrypt_job C round) jobs st = Ok st' \<and> same_round st st' \<and>
    st_incoming st' = map (decrypted C round (st_onionPrivateKey st) (st_incomingOnionSize st)) onions \<and>
    (st_bidirectional st \<longrightarrow> st_sharedKeys st' =
       map (\<lambda>onion. if length onion = st_incomingOnionSize st then onion_key C st onion else replicate 32 0) onions)"
proof -
  have s: "set (job_onions jobs) = set (List.enumerate 0 onions)"
    using assms(1) by (metis set_mset_mset)
  have "mset (map fst (job_onions jobs)) = mset [0..<length onions]"
    using assms(1) by (metis add_0 map_fst_enumerate mset_map)
  then have d: "distinct (map fst (job_onions jobs))" by (metis distinct_upt mset_eq_imp_distinct_iff)
  have mem: "(i, onion) \<in> set (job_onions jobs) \<longleftrightarrow> i < length onions \<and> onion = onions ! i" for i onion
    by (auto simp: s in_set_enumerate_eq)
  have m: "map_of (job_onions jobs) i = (if i < length onions then Some (onions ! i) else None)" for i
    using d mem by (auto simp: map_of_eq_None_iff)
  obtain st' where st': "fold_outcome (decrypt_onion C round) (job_onions jobs) st = Ok st'" "same_round st st'"
    "\<forall>j. st_incoming st' ! j = (case map_of (job_onions jobs) j of
         Some onion \<Rightarrow> if length onion = st_incomingOnionSize st
           then decrypted C round (st_onionPrivateKey st) (st_incomingOnionSize st) onion else st_incoming st ! j
       | None \<Rightarrow> st_incoming st ! j)"
    "\<forall>j. st_bidirectional st \<longrightarrow> st_sharedKeys st' ! j = (case map_of (job_onions jobs) j of
         Some onion \<Rightarrow> if length onion = st_incomingOnionSize st then onion_key C st onion else st_sharedKeys st ! j
       | None \<Rightarrow> st_sharedKeys st ! j)"
    using decrypt_onions_ok [OF d, of st C round] mem assms(2,3) by auto
  have "length (st_incoming st') = length onions" using st'(2) assms(2) by (simp add: same_round_def)
  then have "st_incoming st' = map (decrypted C round (st_onionPrivateKey st) (st_incomingOnionSize st)) onions"
    by (intro nth_equalityI) (auto simp: st'(3) m assms(2) decrypted_def)
  moreover have "st_sharedKeys st' =
      map (\<lambda>onion. if length onion = st_incomingOnionSize st then onion_key C st onion else replicate 32 0) onions"
    if b: "st_bidirectional st"
  proof -
    have "length (st_sharedKeys st') = length onions" using st'(2) assms(3) b by (simp add: same_round_def)
    then show ?thesis using b st'(4) by (intro nth_equalityI) (auto simp: m assms(3))
  qed
  ultimately show ?thesis using st'(1,2) by (auto simp: decrypt_jobs_onions)
qed

section \<open>Filtering\<close>

definition msg_key :: "bytes \<Rightarrow> u64" where
  "msg_key msg = get_be64 (drop (length msg - 8) msg)"

text \<open>The first message of every key.\<close>

fun first_by_key :: "bytes option list \<Rightarrow> u64 set \<Rightarrow> bytes list" where
  "first_by_key [] seen = []"
| "first_by_key (None # ms) seen = first_by_key ms seen"
| "first_by_key (Some m # ms) seen =
     (if msg_key m \<in> seen then first_by_key ms seen else m # first_by_key ms (insert (msg_key m) seen))"

text \<open>An index list that points from a list of decryptions into the kept messages, from \<open>n\<close> on.\<close>

definition points_into :: "nat \<Rightarrow> bytes list \<Rightarrow> bytes option \<Rightarrow> int \<Rightarrow> bool" where
  "points_into n kept m v \<longleftrightarrow> v = - 1 \<or> (\<exists>k<length kept. v = int (n + k) \<and> m = Some (kept ! k))"

lemma points_into_Suc: "points_into (Suc n) kept m v \<Longrightarrow> points_into n (x # kept) m v"
  unfolding points_into_def by (auto intro: exI [of _ "Suc _"])

lemma points_into_dropped: "points_into n kept m (- 1)" by (simp add: points_into_def)

lemma points_into_first: "points_into n (m # kept) (Some m) (int n)"
  unfolding points_into_def by (auto intro: exI [of _ 0])

lemma filter_loop_ok:
  "(\<And>m. Some m \<in> set ms \<Longrightarrow> 8 \<le> length m) \<Longrightarrow>
     \<exists>index. filter_loop ms seen n = Ok (first_by_key ms seen, index) \<and>
       list_all2 (points_into n (first_by_key ms seen)) ms index"
proof (induction ms seen arbitrary: n rule: first_by_key.induct)
  case (2 ms seen)
  then obtain index where "filter_loop ms seen n = Ok (first_by_key ms seen, index)"
    "list_all2 (points_into n (first_by_key ms seen)) ms index" by fastforce
  then show ?case by (simp add: points_into_dropped)
next
  case (3 m ms seen)
  have m: "\<not> length m < 8" using "3.prems" [of m] by simp
  have ms: "\<And>m. Some m \<in> set ms \<Longrightarrow> 8 \<le> length m" using "3.prems" by simp
  show ?case
  proof (cases "msg_key m \<in> seen")
    case True
    from "3.IH"(1) [OF True ms] obtain index where "filter_loop ms seen n = Ok (first_by_key ms seen, index)"
      "list_all2 (points_into n (first_by_key ms seen)) ms index" by blast
    then show ?thesis using True m by (simp add: points_into_dropped msg_key_def)
  next
    case False
    let ?r = "first_by_key ms (insert (msg_key m) seen)"
    from "3.IH"(2) [OF False ms] obtain index where i:
      "filter_loop ms (insert (msg_key m) seen) (Suc n) = Ok (?r, index)"
      "list_all2 (points_into (Suc n) ?r) ms index" by blast
    have "list_all2 (points_into n (m # ?r)) ms index"
      using i(2) by (rule list_all2_mono) (rule points_into_Suc)
    then show ?thesis using False m i(1) by (simp add: points_into_first msg_key_def)
  qed
qed simp

text \<open>Every message is kept or has the key of an earlier one that is.\<close>

lemma first_by_key_covers:
  "Some m \<in> set ms \<Longrightarrow> msg_key m \<in> seen \<or> (\<exists>m'\<in>set (first_by_key ms seen). msg_key m' = msg_key m)"
  by (induction ms seen rule: first_by_key.induct) (auto split: if_splits)

lemma first_by_key_subset: "set (first_by_key ms seen) \<subseteq> {m. Some m \<in> set ms \<and> msg_key m \<notin> seen}"
  by (induction ms seen rule: first_by_key.induct) auto

lemma first_by_key_distinct: "distinct (map msg_key (first_by_key ms seen))"
proof (induction ms seen rule: first_by_key.induct)
  case (3 m ms seen)
  then show ?case using first_by_key_subset [of ms "insert (msg_key m) seen"] by auto
qed simp_all

text \<open>Without repeated keys nothing but the failed decryptions is dropped.\<close>

lemma first_by_key_all:
  "distinct (map msg_key (List.map_filter id ms)) \<Longrightarrow> msg_key ` set (List.map_filter id ms) \<inter> seen = {} \<Longrightarrow>
     first_by_key ms seen = List.map_filter id ms"
  by (induction ms seen rule: first_by_key.induct) (auto simp: map_filter_simps)

end
