(* ===== verification/MixRound.thy ===== *)
theory MixRound
  imports MixServer
begin

text \<open>
  What holds of a round of a mix server through its life: its settings are signed once, its fixed
  parts stay, its replies go back to where the onions came from, and how a batch leaves it.
\<close>

section \<open>What stays fixed\<close>

definition fixed_parts :: "'sd roundState \<Rightarrow> 'sd roundState \<Rightarrow> bool" where
  "fixed_parts st st' \<longleftrightarrow> st_settingsSignature st' = st_settingsSignature st \<and> st_settings st' = st_settings st \<and>
     st_chain st' = st_chain st \<and> st_myPos st' = st_myPos st \<and> st_bidirectional st' = st_bidirectional st \<and>
     st_incomingOnionSize st' = st_incomingOnionSize st \<and> st_onionPrivateKey st' = st_onionPrivateKey st \<and>
     st_onionPublicKey st' = st_onionPublicKey st"

lemma fixed_parts_refl [simp]: "fixed_parts st st" by (simp add: fixed_parts_def)


lemma decrypt_jobs_fixed:
  assumes "fold_outcome (decrypt_job C round) jobs st = Ok st'"
  shows "fixed_parts st st' \<and> st_noise st' = st_noise st"
  using assms unfolding decrypt_jobs_onions
  by (rule fold_outcome_invariant [where I = "\<lambda>s. fixed_parts st s \<and> st_noise s = st_noise st", rotated])
    (auto simp: decrypt_onion_def Let_def fixed_parts_def split: if_splits)






text \<open>Taking in onions and closing change one round, and of it not the fixed parts.\<close>

definition round_update :: "'sd mix_server \<Rightarrow> 'sd mix_server \<Rightarrow> bool" where
  "round_update srv srv' \<longleftrightarrow> srv' = srv \<or> (\<exists>k st st'. ms_rounds srv k = Some st \<and> fixed_parts st st' \<and>
     srv' = srv\<lparr>ms_rounds := (ms_rounds srv)(k \<mapsto> st')\<rparr>)"

lemma round_update_refl [simp]: "round_update srv srv" by (simp add: round_update_def)





section \<open>Runs\<close>














section \<open>Properties of the settings\<close>


section \<open>How a batch leaves a round\<close>

text \<open>A round that took in a whole batch, in any split into requests.\<close>

definition holds_batch :: "bytes list \<Rightarrow> 'sd roundState \<Rightarrow> bool" where
  "holds_batch onions st \<longleftrightarrow> mset (job_onions (st_jobs st)) = mset (List.enumerate 0 onions) \<and>
     st_incoming st = replicate (length onions) None \<and>
     (st_bidirectional st \<longrightarrow> st_sharedKeys st = replicate (length onions) (replicate 32 0))"

text \<open>What \<open>box.Open\<close> gives is shorter than the box by its overhead.\<close>

definition box_lengths :: "mix_crypto \<Rightarrow> bool" where
  "box_lengths C \<longleftrightarrow> (\<forall>c n k m. mx_open C c n k = Some m \<longrightarrow> length c = length m + mx_box_overhead C)"

abbreviation "decrypt_batch C round st onions \<equiv>
  map (decrypted C round (st_onionPrivateKey st) (st_incomingOnionSize st)) onions"

lemma job_onions_mset: "mset jobs = mset jobs' \<Longrightarrow> mset (job_onions jobs) = mset (job_onions jobs')"
  unfolding job_onions_def mset_concat by (metis mset_map sum_mset_sum_list)

lemma decrypted_long:
  assumes "box_lengths C" and "32 + mx_box_overhead C + 8 \<le> sz" and "decrypted C round priv sz onion = Some m"
  shows "8 \<le> length m"
  using assms unfolding decrypted_def box_lengths_def by (fastforce split: if_splits)

lemma close_prepare_batch:
  assumes "\<And>js. mset (schedule js) = mset js" and "holds_batch onions st" and "box_lengths C"
    and "32 + mx_box_overhead C + 8 \<le> st_incomingOnionSize st" and "st_noise st = Some noise"
    and "kept = first_by_key (decrypt_batch C round st onions) {}"
  shows "\<exists>st'. close_prepare C schedule round st = Ok (st', Some (kept @ noise, length kept)) \<and>
    fixed_parts st st' \<and> list_all2 (points_into 0 kept) (decrypt_batch C round st onions) (st_incomingIndex st') \<and>
    filter_loop (decrypt_batch C round st onions) {} 0 = Ok (kept, st_incomingIndex st') \<and>
    (st_bidirectional st \<longrightarrow> st_sharedKeys st' =
       map (\<lambda>onion. if length onion = st_incomingOnionSize st then onion_key C st onion else replicate 32 0) onions)"
proof -
  let ?st = "st\<lparr>st_acceptingOnions := False\<rparr>"
  have b: "mset (job_onions (schedule (st_jobs st))) = mset (List.enumerate 0 onions)"
    using job_onions_mset [OF assms(1)] assms(2) by (simp add: holds_batch_def)
  have k: "onion_key C ?st = onion_key C st" by (simp add: onion_key_def fun_eq_iff)
  obtain st1 where s1: "fold_outcome (decrypt_job C round) (schedule (st_jobs st)) ?st = Ok st1" "same_round ?st st1"
    "st_incoming st1 = decrypt_batch C round st onions"
    "st_bidirectional st \<Longrightarrow> st_sharedKeys st1 =
       map (\<lambda>onion. if length onion = st_incomingOnionSize st then onion_key C st onion else replicate 32 0) onions"
    using jobs_decrypt_batch [OF b, of ?st C round] assms(2) by (auto simp: holds_batch_def k)
  have "8 \<le> length m" if "Some m \<in> set (decrypt_batch C round st onions)" for m
    using that decrypted_long [OF assms(3,4)] by auto
  then obtain index where i: "filter_loop (st_incoming st1) {} 0 = Ok (kept, index)"
    "list_all2 (points_into 0 kept) (decrypt_batch C round st onions) index"
    using filter_loop_ok [of "decrypt_batch C round st onions" "{}" 0] s1(3) assms(6) by auto
  have "st_noise st1 = Some noise" using decrypt_jobs_fixed [OF s1(1)] assms(5) by simp
  then show ?thesis
    using s1 i decrypt_jobs_fixed [OF s1(1)]
    by (auto simp: close_prepare_def filterIncoming_def fixed_parts_def)
qed

section \<open>Replies\<close>

lemma encrypted_replies:
  assumes "encryptReplies C fk svc round st replies = Ok st'"
  shows "\<exists>rs. st_replies st' = Some rs \<and> length rs = length (st_incomingIndex st) \<and>
    (\<forall>i<length (st_incomingIndex st). encrypt_reply C fk
       (int ((length (st_chain st) - st_myPos st - 1) * mx_box_overhead C) + SizeReplyMessage svc)
       round st replies i = Ok (rs ! i))"
proof -
  let ?f = "\<lambda>i. encrypt_reply C fk (int ((length (st_chain st) - st_myPos st - 1) * mx_box_overhead C) + SizeReplyMessage svc)
      round st replies i"
  have loop: "fold_outcome (\<lambda>i rs. bind_outcome (?f i) (\<lambda>r. Ok (rs @ [r]))) is acc = Ok rs \<Longrightarrow>
      \<exists>new. rs = acc @ new \<and> list_all2 (\<lambda>i r. ?f i = Ok r) is new" for "is" acc rs
  proof (induction "is" arbitrary: acc)
    case (Cons i "is")
    then obtain r where r: "?f i = Ok r" "fold_outcome (\<lambda>i rs. bind_outcome (?f i) (\<lambda>r. Ok (rs @ [r]))) is (acc @ [r]) = Ok rs"
      by (auto simp: bind_outcome_Ok)
    from Cons.IH [OF r(2)] obtain new where "rs = (acc @ [r]) @ new" "list_all2 (\<lambda>i r. ?f i = Ok r) is new" by blast
    then show ?case using r(1) by (intro exI [of _ "r # new"]) simp
  qed simp
  obtain rs where rs: "fold_outcome (\<lambda>i rs. bind_outcome (?f i) (\<lambda>r. Ok (rs @ [r]))) [0..<length (st_incomingIndex st)] [] = Ok rs"
    "st' = st\<lparr>st_replies := Some rs\<rparr>"
    using assms(1) by (auto simp: encryptReplies_def bind_outcome_Ok Let_def split: if_splits)
  have "list_all2 (\<lambda>i r. ?f i = Ok r) [0..<length (st_incomingIndex st)] rs" using loop [OF rs(1)] by simp
  then show ?thesis using rs(2) by (auto simp: list_all2_conv_all_nth)
qed

text \<open>A shuffler puts every position somewhere, and \<open>Unshuffle\<close> takes the batch back.\<close>

definition shuffler_laws :: "(bytes list \<Rightarrow> bytes list) \<Rightarrow> (bytes list \<Rightarrow> bytes list) \<Rightarrow> bool" where
  "shuffler_laws sh un \<longleftrightarrow> (\<forall>xs. mset (sh xs) = mset xs) \<and> (\<forall>f xs. un (map f (sh xs)) = map f xs)"

lemma filter_loop_keeps:
  "filter_loop ms seen n = Ok (valid, index) \<Longrightarrow> distinct (map msg_key (List.map_filter id ms)) \<Longrightarrow>
     msg_key ` set (List.map_filter id ms) \<inter> seen = {} \<Longrightarrow> list_all2 (\<lambda>m v. m \<noteq> None \<longrightarrow> v > - 1) ms index"
proof (induction ms seen n arbitrary: valid index rule: filter_loop.induct)
  case (2 ms seen n)
  then show ?case by (auto simp: bind_outcome_Ok map_filter_simps)
next
  case (3 m ms seen n)
  then have k: "get_be64 (drop (length m - 8) m) \<notin> seen" by (auto simp: map_filter_simps msg_key_def)
  have l: "\<not> length m < 8" using "3.prems"(1) by (auto split: if_splits)
  obtain valid' index' where r: "filter_loop ms (insert (get_be64 (drop (length m - 8) m)) seen) (Suc n) = Ok (valid', index')"
    "index = int n # index'" using "3.prems"(1) k l by (auto simp: bind_outcome_Ok Let_def)
  have "list_all2 (\<lambda>m v. m \<noteq> None \<longrightarrow> v > - 1) ms index'"
    by (rule "3.IH"(2) [OF l refl k r(1)]) (use "3.prems"(2,3) in \<open>auto simp: map_filter_simps msg_key_def\<close>)
  then show ?case using r(2) by simp
qed simp

lemma fold_outcome_collect:
  "(\<And>i. i \<in> set is \<Longrightarrow> \<exists>r. f i = Ok r) \<Longrightarrow>
     \<exists>rs. fold_outcome (\<lambda>i rs. bind_outcome (f i) (\<lambda>r. Ok (rs @ [r]))) is acc = Ok rs"
proof (induction "is" arbitrary: acc)
  case (Cons i "is")
  obtain r where "f i = Ok r" using Cons.prems by force
  then show ?case using Cons.IH [of "acc @ [r]"] Cons.prems by simp
qed simp

text \<open>Every reply can be made when the replies are there, and their size is positive.\<close>

lemma encryptReplies_total:
  assumes "list_all2 (points_into 0 kept) ms (st_incomingIndex st)" and "length kept \<le> length replies"
    and "length (st_sharedKeys st) = length ms"
    and "0 < int ((length (st_chain st) - st_myPos st - 1) * mx_box_overhead C) + SizeReplyMessage svc"
  shows "\<exists>st'. encryptReplies C fk svc round st replies = Ok st'"
proof -
  let ?sz = "int ((length (st_chain st) - st_myPos st - 1) * mx_box_overhead C) + SizeReplyMessage svc"
  have "\<exists>r. encrypt_reply C fk ?sz round st replies i = Ok r" if "i \<in> set [0..<length (st_incomingIndex st)]" for i
  proof -
    have "points_into 0 kept (ms ! i) (st_incomingIndex st ! i)" "length (st_incomingIndex st) = length ms"
      using assms(1) that by (auto simp: list_all2_conv_all_nth)
    then show ?thesis using assms(2-4) that by (auto simp: encrypt_reply_def points_into_def Let_def)
  qed
  then obtain rs where "fold_outcome (\<lambda>i rs. bind_outcome (encrypt_reply C fk ?sz round st replies i) (\<lambda>r. Ok (rs @ [r])))
      [0..<length (st_incomingIndex st)] [] = Ok rs" using fold_outcome_collect by blast
  then show ?thesis using assms(4) by (simp add: encryptReplies_def Let_def)
qed

section \<open>Properties of a batch\<close>

text \<open>
  C8: replies go back to where the onions came from. A server in the middle of a bidirectional
  chain, whose next server answers every message \<open>m\<close> of the shuffled batch with \<open>f m\<close>, closes the
  round, and reply \<open>i\<close> is either the reply to the message in onion \<open>i\<close>, under the key agreed in that
  onion, or an empty message under a fresh key; when no two messages share their last eight bytes,
  every onion that opened has the former. The shuffle and the server's noise do not show.
\<close>

theorem replies_reach_senders:
  assumes "ms_rounds srv (service, round) = Some st" and "authPrev p srv st = Ok ()" and "\<not> st_closed st"
    and "ms_Services srv service = Some svc" and "st_bidirectional st"
    and "Suc (st_myPos st) < length (st_chain st)" and "holds_batch onions st" and "st_noise st = Some noise"
    and "box_lengths C" and "32 + mx_box_overhead C + 8 \<le> st_incomingOnionSize st"
    and "\<And>js. mset (ce_schedule X js) = mset js" and "shuffler_laws (ce_shuffle X) (ce_unshuffle X)"
    and "\<And>out. ce_RunRoundBidirectional X (st_chain st ! Suc (st_myPos st)) service round out w = (w', Some (map f out))"
    and "size_reply = int ((length (st_chain st) - st_myPos st - 1) * mx_box_overhead C) + SizeReplyMessage svc"
    and "0 < size_reply"
  shows "\<exists>srv' st' rs. CloseRound C X p service round srv w = (w', srv', Ok '''') \<and>
    ms_rounds srv' (service, round) = Some st' \<and> st_replies st' = Some rs \<and> length rs = length onions \<and>
    (\<forall>i<length onions.
      (\<exists>m. decrypt_batch C round st onions ! i = Some m \<and> int (length (f m)) = size_reply \<and>
         rs ! i = mx_seal C (f m) (BackwardNonce round) (onion_key C st (onions ! i))) \<or>
      (rs ! i = mx_seal C (replicate (nat size_reply) 0) (BackwardNonce round) (ce_freshKey X i) \<and>
         (distinct (map msg_key (List.map_filter id (decrypt_batch C round st onions))) \<longrightarrow>
          (\<forall>m. decrypt_batch C round st onions ! i = Some m \<longrightarrow> int (length (f m)) \<noteq> size_reply))))"
proof -
  define ms where "ms = decrypt_batch C round st onions"
  define kept where "kept = first_by_key ms {}"
  obtain st1 where c: "close_prepare C (ce_schedule X) round st = Ok (st1, Some (kept @ noise, length kept))"
    "fixed_parts st st1" "list_all2 (points_into 0 kept) ms (st_incomingIndex st1)"
    "filter_loop ms {} 0 = Ok (kept, st_incomingIndex st1)"
    "st_sharedKeys st1 = map (\<lambda>onion. if length onion = st_incomingOnionSize st then onion_key C st onion
       else replicate 32 0) onions"
    using close_prepare_batch [OF assms(11,7,9,10,8), of kept] assms(5) by (auto simp: ms_def kept_def)
  have fx: "st_bidirectional st1" "st_chain st1 = st_chain st" "st_myPos st1 = st_myPos st"
    using c(2) assms(5) by (simp_all add: fixed_parts_def)
  have sz: "int ((length (st_chain st1) - st_myPos st1 - 1) * mx_box_overhead C) + SizeReplyMessage svc = size_reply"
    using assms(14) by (simp add: fx)
  have un: "take (length kept) (ce_unshuffle X (map f (ce_shuffle X (kept @ noise)))) = map f kept"
    "length kept \<le> length (ce_unshuffle X (map f (ce_shuffle X (kept @ noise))))"
    using assms(12) by (simp_all add: shuffler_laws_def)
  have "\<exists>st2. encryptReplies C (ce_freshKey X) svc round st1 (map f kept) = Ok st2"
    by (rule encryptReplies_total [OF c(3)]) (use c(5) sz assms(15) in \<open>simp_all add: ms_def\<close>)
  then obtain st2 where e: "encryptReplies C (ce_freshKey X) svc round st1 (map f kept) = Ok st2" by blast
  have cl: "CloseRound C X p service round srv w =
      (w', srv\<lparr>ms_rounds := (ms_rounds srv)((service, round) \<mapsto> st2)\<rparr>, Ok '''')"
    using assms(1-4,6,13) c(1) fx un e
    by (simp add: CloseRound_def getRound_def close_middle_def Let_def not_less)
  have len: "length (st_incomingIndex st1) = length onions" using c(3) by (auto simp: ms_def dest: list_all2_lengthD)
  have keeps: "list_all2 (\<lambda>m v. m \<noteq> None \<longrightarrow> v > - 1) ms (st_incomingIndex st1)"
    if "distinct (map msg_key (List.map_filter id ms))"
    using filter_loop_keeps [OF c(4) that] by simp
  obtain rs where rs: "st_replies st2 = Some rs" "length rs = length onions"
    "\<And>i. i < length onions \<Longrightarrow> encrypt_reply C (ce_freshKey X) size_reply round st1 (map f kept) i = Ok (rs ! i)"
    using encrypted_replies [OF e] unfolding sz len by blast
  have "(\<exists>m. ms ! i = Some m \<and> int (length (f m)) = size_reply \<and>
         rs ! i = mx_seal C (f m) (BackwardNonce round) (onion_key C st (onions ! i))) \<or>
      (rs ! i = mx_seal C (replicate (nat size_reply) 0) (BackwardNonce round) (ce_freshKey X i) \<and>
         (distinct (map msg_key (List.map_filter id ms)) \<longrightarrow> (\<forall>m. ms ! i = Some m \<longrightarrow> int (length (f m)) \<noteq> size_reply)))"
    if i: "i < length onions" for i
  proof -
    have p: "points_into 0 kept (ms ! i) (st_incomingIndex st1 ! i)"
      using c(3) i len by (auto simp: list_all2_conv_all_nth)
    show ?thesis
    proof (cases "st_incomingIndex st1 ! i > - 1")
      case True
      then obtain k where k: "k < length kept" "st_incomingIndex st1 ! i = int k" "ms ! i = Some (kept ! k)"
        using p by (auto simp: points_into_def)
      have "st_sharedKeys st1 ! i = onion_key C st (onions ! i)" "i < length (st_sharedKeys st1)"
        using k(3) i by (auto simp: c(5) ms_def decrypted_def split: if_splits)
      then show ?thesis using rs(3) [OF i] k by (auto simp: encrypt_reply_def Let_def split: if_splits)
    next
      case False
      then have "distinct (map msg_key (List.map_filter id ms)) \<Longrightarrow> ms ! i = None"
        using keeps i len by (auto simp: list_all2_conv_all_nth)
      then show ?thesis using rs(3) [OF i] False assms(15) by (auto simp: encrypt_reply_def Let_def)
    qed
  qed
  then show ?thesis using cl rs(1,2) unfolding ms_def by auto
qed

section \<open>Witnesses\<close>

text \<open>A crypto whose boxes hide nothing, a service with replies of one byte, and a server of it.\<close>

definition demo_crypto :: mix_crypto where
  "demo_crypto = \<lparr>mx_sign = (\<lambda>k m. k @ m), mx_verify = (\<lambda>k m s. s = k @ m), mx_precompute = (\<lambda>p s. p @ s),
     mx_open = (\<lambda>c n k. Some c), mx_seal = (\<lambda>m n k. k @ m), mx_box_overhead = 0, mx_onion_overhead = 32,
     mx_json = (\<lambda>_. [])\<rparr>"

definition demo_service :: "bool \<Rightarrow> nat \<Rightarrow> 'sd \<Rightarrow> 'sd mix_service" where
  "demo_service both n sd = \<lparr>Bidirectional = both, SizeIncomingMessage = n, SizeReplyMessage = 1,
     ParseServiceData = (\<lambda>_. Some sd), GenerateNoise = (\<lambda>_ _. Some [])\<rparr>"

definition demo_mix :: "'sd mix_service \<Rightarrow> (string \<times> u32 \<rightharpoonup> 'sd roundState) \<Rightarrow> 'sd mix_server" where
  "demo_mix svc rounds = \<lparr>ms_SigningKey = [1], ms_PublicKey = replicate 32 9, ms_CoordinatorKey = [7],
     ms_Services = [''S'' \<mapsto> svc], ms_rounds = rounds\<rparr>"


definition demo_conf :: "byte \<Rightarrow> mix_conf" where
  "demo_conf k = \<lparr>mc_Key = replicate 32 k, mc_Address = ''''\<rparr>"




definition demo_onion :: bytes where "demo_onion = replicate 40 0"

definition demo_middle :: "unit roundState" where
  "demo_middle = (init_round demo_crypto (demo_service True 8 ()) [demo_conf 9, demo_conf 8] 0 (replicate 32 3, replicate 32 4))
     \<lparr>st_incomingOnionSize := 40, st_noise := Some [], st_jobs := [(0, [demo_onion])], st_incoming := [None],
      st_sharedKeys := [replicate 32 0]\<rparr>"

definition demo_close :: "('sd, nat) close_env" where
  "demo_close = \<lparr>ce_HandleMessages = (\<lambda>_ _ msgs n. (n + length msgs, Some (ResultString ''ok''))),
     ce_RunRoundUnidirectional = (\<lambda>_ _ _ _ n. (n, None)),
     ce_RunRoundBidirectional = (\<lambda>_ _ _ out n. (n, Some (map (\<lambda>m. [5]) out))),
     ce_shuffle = (\<lambda>xs. xs), ce_unshuffle = (\<lambda>xs. xs), ce_schedule = (\<lambda>js. js), ce_freshKey = (\<lambda>_. [6])\<rparr>"

lemma demo_box_lengths: "box_lengths demo_crypto" by (simp add: box_lengths_def demo_crypto_def)

theorem replies_reach_senders_witness:
  "\<exists>srv' st' rs. CloseRound demo_crypto demo_close (TlsPeer [Some [7]]) ''S'' 1
      (demo_mix (demo_service True 8 ()) [(''S'', 1) \<mapsto> demo_middle]) 0 = (0, srv', Ok '''') \<and>
    ms_rounds srv' (''S'', 1) = Some st' \<and> st_replies st' = Some rs \<and> length rs = 1 \<and>
    rs ! 0 = mx_seal demo_crypto [5] (BackwardNonce 1) (onion_key demo_crypto demo_middle demo_onion)"
proof -
  let ?srv = "demo_mix (demo_service True 8 ()) [(''S'', 1) \<mapsto> demo_middle]"
  have facts: "ms_rounds ?srv (''S'', 1) = Some demo_middle" "authPrev (TlsPeer [Some [7]]) ?srv demo_middle = Ok ()"
    "\<not> st_closed demo_middle" "ms_Services ?srv ''S'' = Some (demo_service True 8 ())" "st_bidirectional demo_middle"
    "Suc (st_myPos demo_middle) < length (st_chain demo_middle)" "holds_batch [demo_onion] demo_middle"
    "st_noise demo_middle = Some []" "32 + mx_box_overhead demo_crypto + 8 \<le> st_incomingOnionSize demo_middle"
    by (simp_all add: demo_mix_def demo_middle_def init_round_def authPrev_def prev_key_def mix_auth_def
        demo_service_def holds_batch_def job_onions_def demo_crypto_def)
  have one: "(1 :: int) = int ((length (st_chain demo_middle) - st_myPos demo_middle - 1) * mx_box_overhead demo_crypto) +
      SizeReplyMessage (demo_service True 8 ())"
    by (simp add: demo_crypto_def demo_service_def)
  have laws: "\<And>js. mset (ce_schedule demo_close js) = mset js" "shuffler_laws (ce_shuffle demo_close) (ce_unshuffle demo_close)"
    "\<And>out. ce_RunRoundBidirectional demo_close (st_chain demo_middle ! Suc (st_myPos demo_middle)) ''S'' 1 out 0 =
       (0, Some (map (\<lambda>m. [5]) out))"
    by (simp_all add: demo_close_def shuffler_laws_def)
  have d: "decrypt_batch demo_crypto 1 demo_middle [demo_onion] = [Some (replicate 8 0)]"
    by (simp add: decrypted_def demo_middle_def demo_onion_def demo_crypto_def)
  from replies_reach_senders [OF facts(1-8) demo_box_lengths facts(9) laws one] show ?thesis
    unfolding d by (auto simp: map_filter_simps)
qed

end
