(* ===== verification/MixClient.thy ===== *)
theory MixClient
  imports MixRound
begin

text \<open>
  The client side of the mixnet (src/mixnet/mixnet.go), which the coordinator and every server but
  the last use towards the next server: splitting a batch into streams and requests, running a
  round, fetching replies and opening a round on all servers. gRPC is the record of the remote
  calls, over the world they change; \<open>None\<close> is any error. Calls the code makes in goroutines and
  waits for are made in the order they are started.
\<close>

section \<open>Remote calls\<close>

record 'w mix_rpc =
  rpc_NewRound :: "mix_conf \<Rightarrow> string \<Rightarrow> u32 \<Rightarrow> (bytes \<times> string) list \<Rightarrow> 'w \<Rightarrow> 'w \<times> bytes option"
  rpc_SetRoundSettings :: "mix_conf \<Rightarrow> pb_settings \<Rightarrow> 'w \<Rightarrow> 'w \<times> bytes option"
  rpc_AddOnions :: "mix_conf \<Rightarrow> (string \<Rightarrow> string list option) \<Rightarrow> (u32 \<times> bytes list) list \<Rightarrow> 'w \<Rightarrow> 'w \<times> bool"
  rpc_CloseRound :: "mix_conf \<Rightarrow> string \<Rightarrow> u32 \<Rightarrow> 'w \<Rightarrow> 'w \<times> string option"
  rpc_GetOnions :: "mix_conf \<Rightarrow> string \<Rightarrow> u32 \<Rightarrow> u32 \<Rightarrow> u32 \<Rightarrow> 'w \<Rightarrow> 'w \<times> (u32 \<times> bytes list) list option"
  rpc_DeleteRound :: "mix_conf \<Rightarrow> string \<Rightarrow> u32 \<Rightarrow> 'w \<Rightarrow> 'w"

text \<open>Calls that are all made, whatever each gives.\<close>

fun call_all :: "('x \<Rightarrow> 'w \<Rightarrow> 'w \<times> 'r) \<Rightarrow> 'x list \<Rightarrow> 'w \<Rightarrow> 'w \<times> 'r list" where
  "call_all f [] w = (w, [])"
| "call_all f (x # xs) w = (let (w1, r) = f x w; (w2, rs) = call_all f xs w1 in (w2, r # rs))"

section \<open>Adding onions\<close>

text \<open>\<open>spans n k\<close> are the spans of \<open>concurrency.Spans\<close>: start and count, in order.\<close>

definition span_onions :: "nat \<times> nat \<Rightarrow> bytes list \<Rightarrow> bytes list" where
  "span_onions s onions = take (snd s) (drop (fst s) onions)"

definition stream_requests ::
  "(nat \<Rightarrow> nat \<Rightarrow> (nat \<times> nat) list) \<Rightarrow> nat \<Rightarrow> bytes list \<Rightarrow> (u32 \<times> bytes list) list" where
  "stream_requests spans offset onions =
     map (\<lambda>s. (word_of_nat (offset + fst s), span_onions s onions)) (spans (length onions) 16)"

definition streamAddOnions ::
  "(nat \<Rightarrow> nat \<Rightarrow> (nat \<times> nat) list) \<Rightarrow> 'w mix_rpc \<Rightarrow> mix_conf \<Rightarrow> (string \<Rightarrow> string list option) \<Rightarrow> nat \<Rightarrow>
   bytes list \<Rightarrow> 'w \<Rightarrow> 'w \<times> bool" where
  "streamAddOnions spans N server md offset onions w =
     rpc_AddOnions N server md (stream_requests spans offset onions) w"

definition spanSize :: "nat \<Rightarrow> nat" where
  "spanSize numOnions = (let n = numOnions div 5 in if n = 0 then 1 else n)"

definition round_metadata :: "string \<Rightarrow> u32 \<Rightarrow> nat \<Rightarrow> string \<Rightarrow> string list option" where
  "round_metadata service round num =
     [''service'' \<mapsto> [service], ''round'' \<mapsto> [show_nat (unat round)], ''numincoming'' \<mapsto> [show_nat num]]"

definition mix_addOnions ::
  "(nat \<Rightarrow> nat \<Rightarrow> (nat \<times> nat) list) \<Rightarrow> 'w mix_rpc \<Rightarrow> mix_conf \<Rightarrow> string \<Rightarrow> u32 \<Rightarrow> bytes list \<Rightarrow> 'w \<Rightarrow>
   'w \<times> string option" where
  "mix_addOnions spans N server service round onions w =
     (let md = round_metadata service round (length onions);
          (w1, oks) = call_all (\<lambda>s. streamAddOnions spans N server md (fst s) (span_onions s onions))
            (spans (length onions) (spanSize (length onions))) w
      in if \<not> list_all id oks then (w1, None) else rpc_CloseRound N server service round w1)"

section \<open>Running a round\<close>

text \<open>The round is deleted in the background, here at once.\<close>

definition RunRoundUnidirectional ::
  "(nat \<Rightarrow> nat \<Rightarrow> (nat \<times> nat) list) \<Rightarrow> 'w mix_rpc \<Rightarrow> mix_conf \<Rightarrow> string \<Rightarrow> u32 \<Rightarrow> bytes list \<Rightarrow> 'w \<Rightarrow>
   'w \<times> string option" where
  "RunRoundUnidirectional spans N server service round onions w =
     (let (w1, resp) = mix_addOnions spans N server service round onions w
      in (rpc_DeleteRound N server service round w1, resp))"

text \<open>\<open>copy(replies[offset:], onions)\<close>, which panics when the offset is past the end.\<close>

definition copy_at :: "nat \<Rightarrow> 'a list \<Rightarrow> 'a list \<Rightarrow> (unit, 'a list) outcome" where
  "copy_at offset xs ys =
     (if length ys < offset then Panic
      else Ok (take offset ys @ take (length ys - offset) xs @ drop (offset + length xs) ys))"

definition RunRoundBidirectional ::
  "(nat \<Rightarrow> nat \<Rightarrow> (nat \<times> nat) list) \<Rightarrow> 'w mix_rpc \<Rightarrow> mix_conf \<Rightarrow> string \<Rightarrow> u32 \<Rightarrow> bytes list \<Rightarrow> 'w \<Rightarrow>
   'w \<times> (unit, bytes list) outcome" where
  "RunRoundBidirectional spans N server service round onions w =
     (case mix_addOnions spans N server service round onions w of
        (w1, None) \<Rightarrow> (w1, Err ())
      | (w1, Some _) \<Rightarrow>
          (let (w2, rs) = call_all (\<lambda>s. rpc_GetOnions N server service round (word_of_nat (fst s)) (word_of_nat (snd s)))
                 (spans (length onions) (spanSize (length onions))) w1;
               replies = fold_outcome (\<lambda>resp. copy_at (unat (fst resp)) (snd resp))
                 (concat (map (\<lambda>r. case r of None \<Rightarrow> [] | Some x \<Rightarrow> x) rs)) (replicate (length onions) [])
           in case replies of
                Ok all \<Rightarrow> if list_all (\<lambda>r. r \<noteq> None) rs
                  then (rpc_DeleteRound N server service round w2, Ok all) else (w2, Err ())
              | _ \<Rightarrow> (w2, Panic)))"

section \<open>Opening a round\<close>

text \<open>The settings with the onion keys, as \<open>NewRound\<close> leaves them, and the signatures.\<close>

definition client_NewRound ::
  "'w mix_rpc \<Rightarrow> mix_conf list \<Rightarrow> 'sd RoundSettings \<Rightarrow> 'w \<Rightarrow> 'w \<times> ('sd RoundSettings \<times> bytes list) option" where
  "client_NewRound N servers settings w =
     (let chain = map (\<lambda>c. (mc_Key c, mc_Address c)) servers;
          (w1, keys) = call_all (\<lambda>server. rpc_NewRound N server (rs_Service settings) (rs_Round settings) chain) servers w
      in if list_ex (\<lambda>k. k = None) keys then (w1, None)
         else (let settings' = settings\<lparr>rs_OnionKeys := map (\<lambda>k. fixed 32 (the k)) keys\<rparr>;
                   (w2, sigs) = call_all (\<lambda>server. rpc_SetRoundSettings N server (settings_Proto settings')) servers w1
               in if list_ex (\<lambda>s. s = None) sigs then (w2, None)
                  else (w2, Some (settings', map the sigs))))"

end
