(* ===== verification/MixChain.thy ===== *)
theory MixChain
  imports MixClient
begin

text \<open>
  A chain of mix servers, each driving the next one with the client code: the requests a batch is
  split into, a round of one server as seen by its client, and the chain of a unidirectional
  service from the coordinator's batch to the messages the last server handles.
\<close>

section \<open>Splitting a batch\<close>













section \<open>One server, seen by its client\<close>


definition set_round :: "string \<times> u32 \<Rightarrow> 'sd roundState \<Rightarrow> 'sd mix_server \<Rightarrow> 'sd mix_server" where
  "set_round k st srv = srv\<lparr>ms_rounds := (ms_rounds srv)(k \<mapsto> st)\<rparr>"

lemma set_round_simps [simp]:
  "ms_rounds (set_round k st srv) k = Some st" "ms_Services (set_round k st srv) = ms_Services srv"
  "ms_CoordinatorKey (set_round k st srv) = ms_CoordinatorKey srv"
  "set_round k st' (set_round k st srv) = set_round k st' srv"
  by (simp_all add: set_round_def)







lemma authPrev_set_round [simp]: "authPrev p (set_round k st srv) st' = authPrev p srv st'"
  by (simp add: authPrev_def prev_key_def)




lemma list_all_True [simp]: "list_all id (replicate n True)"
  by (simp add: list_all_iff)



section \<open>A round of one server\<close>






section \<open>The chain\<close>











section \<open>What arrives\<close>












section \<open>Properties of the chain\<close>


section \<open>A witness\<close>











end
