(* ===== verification/Mixers.thy ===== *)
theory Mixers
  imports MixServer Bloom
begin

text \<open>
  The two services of the mixnet: add-friend (src/addfriend/mixer.go) and dialing
  (src/dialing/mixer.go). What a mixer does with the messages of a round, its noise, and the formats
  of its messages and of its service data. IBE's overhead, the onions, the CDN request, encoding/gob
  and encoding/json are parameters; randomness is an argument.
\<close>

section \<open>Service data\<close>

record ServiceData =
  sd_CDNKey :: bytes
  sd_CDNAddress :: string
  sd_NumMailboxes :: u32

definition ServiceDataVersion :: byte where "ServiceDataVersion = 0"

datatype sd_error = EmptyServiceData | InvalidVersion byte | BadServiceDataJSON

definition ServiceData_Unmarshal :: "(bytes \<Rightarrow> ServiceData option) \<Rightarrow> bytes \<Rightarrow> (sd_error, ServiceData) outcome" where
  "ServiceData_Unmarshal json d =
     (if length d = 0 then Err EmptyServiceData
      else if d ! 0 \<noteq> ServiceDataVersion then Err (InvalidVersion (d ! 0))
      else (case json (drop 1 d) of None \<Rightarrow> Err BadServiceDataJSON | Some sd \<Rightarrow> Ok sd))"

definition ServiceData_Marshal :: "(ServiceData \<Rightarrow> bytes) \<Rightarrow> ServiceData \<Rightarrow> bytes" where
  "ServiceData_Marshal json sd = ServiceDataVersion # json sd"

definition mixer_ParseServiceData :: "(bytes \<Rightarrow> ServiceData option) \<Rightarrow> bytes \<Rightarrow> ServiceData option" where
  "mixer_ParseServiceData json d = (case ServiceData_Unmarshal json d of Ok sd \<Rightarrow> Some sd | _ \<Rightarrow> None)"

section \<open>Messages\<close>

text \<open>Both messages are a mailbox number and a payload of fixed size.\<close>

record MixMessage =
  mm_Mailbox :: u32
  mm_Payload :: bytes

definition SizeIntro :: nat where "SizeIntro = 228"
definition SizeEncryptedIntro :: "nat \<Rightarrow> nat" where "SizeEncryptedIntro ibe_overhead = SizeIntro + ibe_overhead"
definition SizeToken :: nat where "SizeToken = 32"

text \<open>\<open>unsafe.Sizeof\<close> of the struct: its size is a multiple of the four bytes of its first field.\<close>

definition sizeof_message :: "nat \<Rightarrow> nat" where
  "sizeof_message payload = (4 + payload + 3) div 4 * 4"

definition MixMessage_MarshalBinary :: "nat \<Rightarrow> MixMessage \<Rightarrow> bytes" where
  "MixMessage_MarshalBinary payload m = be32 (mm_Mailbox m) @ fixed payload (mm_Payload m)"

text \<open>\<open>binary.Read\<close> takes the bytes it needs and fails when there are fewer.\<close>

definition MixMessage_UnmarshalBinary :: "nat \<Rightarrow> bytes \<Rightarrow> (unit, MixMessage) outcome" where
  "MixMessage_UnmarshalBinary payload d =
     (if length d < 4 + payload then Err ()
      else Ok \<lparr>mm_Mailbox = get_be32 d, mm_Payload = take payload (drop 4 d)\<rparr>)"

section \<open>Noise\<close>

text \<open>
  \<open>laplace b\<close> is the noise count of mailbox \<open>b\<close>. The number of mailboxes and the total are \<open>uint32\<close>;
  when the total wraps, writing past the end of the array panics.
\<close>

definition noiseCounts :: "(nat \<Rightarrow> u32) \<Rightarrow> u32 \<Rightarrow> u32 list" where
  "noiseCounts laplace numMailboxes = map laplace [0..<unat (numMailboxes + 1)]"

definition noise_mailboxes :: "u32 list \<Rightarrow> u32 list option" where
  "noise_mailboxes counts =
     (let total = unat (sum_list counts);
          mailbox = concat (map (\<lambda>(b, c). replicate (unat c) (word_of_nat b)) (List.enumerate 0 counts))
      in if total < length mailbox then None else Some (mailbox @ replicate (total - length mailbox) 0))"

text \<open>
  \<open>seal msg nonce keys i\<close> is \<open>onionbox.Seal\<close> with the randomness of noise message \<open>i\<close>, and
  \<open>payload i\<close> the random payload: for dialing random bytes, for add-friend random bytes that begin
  with a marshaled point.
\<close>

definition GenerateNoise_messages ::
  "(bytes \<Rightarrow> bytes \<Rightarrow> bytes list \<Rightarrow> nat \<Rightarrow> bytes) \<Rightarrow> (nat \<Rightarrow> bytes) \<Rightarrow> nat \<Rightarrow> 'sd RoundSettings \<Rightarrow> nat \<Rightarrow> u32 list \<Rightarrow> bytes list" where
  "GenerateNoise_messages seal payload sz settings myPos mailbox =
     map (\<lambda>(i, b). seal (fixed sz (be32 b @ (if b \<noteq> 0 then payload i else []))) (ForwardNonce (rs_Round settings))
            (drop (Suc myPos) (rs_OnionKeys settings)) i)
       (List.enumerate 0 mailbox)"

text \<open>Random bytes for the whole of the payload; the point, from the hash of the first 32, over its beginning.\<close>

definition addfriend_payload :: "(bytes \<Rightarrow> bytes) \<Rightarrow> (nat \<Rightarrow> bytes) \<Rightarrow> nat \<Rightarrow> nat \<Rightarrow> bytes" where
  "addfriend_payload hash_to_point random n i =
     (let r = fixed n (random i); g1 = hash_to_point (take 32 r)
      in take n g1 @ drop (length g1) r)"

definition addfriend_GenerateNoise ::
  "(bytes \<Rightarrow> bytes \<Rightarrow> bytes list \<Rightarrow> nat \<Rightarrow> bytes) \<Rightarrow> (bytes \<Rightarrow> bytes) \<Rightarrow> (nat \<Rightarrow> bytes) \<Rightarrow> (nat \<Rightarrow> u32) \<Rightarrow> nat \<Rightarrow>
   ServiceData RoundSettings \<Rightarrow> nat \<Rightarrow> bytes list option" where
  "addfriend_GenerateNoise seal hash_to_point random laplace ibe_overhead settings myPos =
     (let sz = sizeof_message (SizeEncryptedIntro ibe_overhead) in
      Option.bind (rs_ServiceData settings) (\<lambda>sd.
      Option.bind (noise_mailboxes (noiseCounts laplace (sd_NumMailboxes sd))) (\<lambda>mailbox.
      if length (rs_OnionKeys settings) < Suc myPos then None
      else Some (GenerateNoise_messages seal (addfriend_payload hash_to_point random (sz - 4)) sz settings myPos mailbox))))"

definition dialing_GenerateNoise ::
  "(bytes \<Rightarrow> bytes \<Rightarrow> bytes list \<Rightarrow> nat \<Rightarrow> bytes) \<Rightarrow> (nat \<Rightarrow> bytes) \<Rightarrow> (nat \<Rightarrow> u32) \<Rightarrow>
   ServiceData RoundSettings \<Rightarrow> nat \<Rightarrow> bytes list option" where
  "dialing_GenerateNoise seal random laplace settings myPos =
     (let sz = sizeof_message SizeToken in
      Option.bind (rs_ServiceData settings) (\<lambda>sd.
      Option.bind (noise_mailboxes (noiseCounts laplace (sd_NumMailboxes sd))) (\<lambda>mailbox.
      if length (rs_OnionKeys settings) < Suc myPos then None
      else Some (GenerateNoise_messages seal random sz settings myPos mailbox))))"

section \<open>Handling the messages of a round\<close>

text \<open>
  The upload: \<open>cdn key url body\<close> is the status of the response, \<open>None\<close> for a failed request.
  \<open>gob\<close> encodes the map.
\<close>

record 'w mixer_env =
  me_gob :: "(string \<rightharpoonup> bytes) \<Rightarrow> bytes option"
  me_Post :: "bytes \<Rightarrow> string \<Rightarrow> bytes \<Rightarrow> 'w \<Rightarrow> 'w \<times> nat option"
  me_shuffle :: "bytes list \<Rightarrow> bytes list"

definition bucket_url :: "string \<Rightarrow> string \<Rightarrow> string \<Rightarrow> u32 \<Rightarrow> string" where
  "bucket_url address op service round =
     ''https://'' @ address @ ''/'' @ op @ ''?bucket='' @ service @ ''/'' @ show_nat (unat round)"

definition upload ::
  "'w mixer_env \<Rightarrow> ServiceData \<Rightarrow> 'sd RoundSettings \<Rightarrow> (string \<rightharpoonup> bytes) \<Rightarrow> 'w \<Rightarrow> 'w \<times> mix_result option" where
  "upload M sd settings mailboxes w =
     (case me_gob M mailboxes of
        None \<Rightarrow> (w, None)
      | Some body \<Rightarrow>
          (case me_Post M (sd_CDNKey sd) (bucket_url (sd_CDNAddress sd) ''put'' (rs_Service settings) (rs_Round settings)) body w of
             (w', Some status) \<Rightarrow>
               if status \<noteq> 200 then (w', None)
               else (w', Some (ResultString (bucket_url (sd_CDNAddress sd) ''get'' (rs_Service settings) (rs_Round settings))))
           | (w', None) \<Rightarrow> (w', None)))"

text \<open>The message of a batch entry, if it is one and not for the dummy mailbox.\<close>

definition read_message :: "nat \<Rightarrow> bytes \<Rightarrow> MixMessage option" where
  "read_message payload m =
     (if length m \<noteq> sizeof_message payload then None
      else (case MixMessage_UnmarshalBinary payload m of
              Ok mx \<Rightarrow> if mm_Mailbox mx = 0 then None else Some mx | _ \<Rightarrow> None))"

fun addfriend_mailboxes :: "nat \<Rightarrow> bytes list \<Rightarrow> (string \<rightharpoonup> bytes) \<Rightarrow> (string \<rightharpoonup> bytes)" where
  "addfriend_mailboxes payload [] mailboxes = mailboxes"
| "addfriend_mailboxes payload (m # ms) mailboxes =
     (case read_message payload m of
        None \<Rightarrow> addfriend_mailboxes payload ms mailboxes
      | Some mx \<Rightarrow>
          (let mstr = show_nat (unat (mm_Mailbox mx)) in
           addfriend_mailboxes payload ms
             (mailboxes(mstr \<mapsto> (case mailboxes mstr of None \<Rightarrow> [] | Some b \<Rightarrow> b) @ mm_Payload mx))))"

definition addfriend_HandleMessages ::
  "'w mixer_env \<Rightarrow> nat \<Rightarrow> ServiceData RoundSettings \<Rightarrow> bytes list \<Rightarrow> 'w \<Rightarrow> 'w \<times> mix_result option" where
  "addfriend_HandleMessages M ibe_overhead settings messages w =
     upload M (the (rs_ServiceData settings)) settings
       (addfriend_mailboxes (SizeEncryptedIntro ibe_overhead) (me_shuffle M messages) Map.empty) w"

fun dialing_groups :: "bytes list \<Rightarrow> (u32 \<rightharpoonup> bytes list) \<Rightarrow> (u32 \<rightharpoonup> bytes list)" where
  "dialing_groups [] groups = groups"
| "dialing_groups (m # ms) groups =
     (case read_message SizeToken m of
        None \<Rightarrow> dialing_groups ms groups
      | Some mx \<Rightarrow> dialing_groups ms (groups(mm_Mailbox mx \<mapsto>
          (case groups (mm_Mailbox mx) of None \<Rightarrow> [] | Some ts \<Rightarrow> ts) @ [mm_Payload mx])))"

text \<open>The filter of a group; \<open>optimal\<close> are \<open>bloom.Optimal\<close>'s parameters for a number of tokens.\<close>

definition token_filter :: "siphash \<Rightarrow> (nat \<Rightarrow> int \<times> int) \<Rightarrow> bytes list \<Rightarrow> (bloom_error, Filter) outcome" where
  "token_filter sip optimal tokens =
     (let (m, k) = optimal (length tokens) in
      bind_outcome (bloom_New m k) (fold_outcome (bloom_Set sip) tokens))"

text \<open>The loop over the groups; the list has their keys as the map iteration yields them.\<close>

fun dialing_mailboxes ::
  "siphash \<Rightarrow> (nat \<Rightarrow> int \<times> int) \<Rightarrow> (u32 \<rightharpoonup> bytes list) \<Rightarrow> u32 list \<Rightarrow> (string \<rightharpoonup> bytes) \<Rightarrow> (bloom_error, string \<rightharpoonup> bytes) outcome" where
  "dialing_mailboxes sip optimal groups [] mailboxes = Ok mailboxes"
| "dialing_mailboxes sip optimal groups (mbox # order) mailboxes =
     bind_outcome (token_filter sip optimal (case groups mbox of None \<Rightarrow> [] | Some ts \<Rightarrow> ts)) (\<lambda>f.
       dialing_mailboxes sip optimal groups order (mailboxes(show_nat (unat mbox) \<mapsto> bloom_MarshalBinary f)))"

text \<open>\<open>order\<close> lists the keys of a map. The filter does not panic for the optimal parameters.\<close>

definition dialing_HandleMessages ::
  "'w mixer_env \<Rightarrow> siphash \<Rightarrow> (nat \<Rightarrow> int \<times> int) \<Rightarrow> ((u32 \<rightharpoonup> bytes list) \<Rightarrow> u32 list) \<Rightarrow>
   ServiceData RoundSettings \<Rightarrow> bytes list \<Rightarrow> 'w \<Rightarrow> 'w \<times> (bloom_error, mix_result option) outcome" where
  "dialing_HandleMessages M sip optimal order settings messages w =
     (let groups = dialing_groups (me_shuffle M messages) Map.empty in
      case dialing_mailboxes sip optimal groups (order groups) Map.empty of
        Ok mailboxes \<Rightarrow>
          (let (w', r) = upload M (the (rs_ServiceData settings)) settings mailboxes w in (w', Ok r))
      | Err e \<Rightarrow> (w, Err e) | Panic \<Rightarrow> (w, Panic))"

section \<open>Formats\<close>

interpretation sd: codec "ServiceData_Marshal jenc" "ServiceData_Unmarshal jdec" "\<lambda>sd. jdec (jenc sd) = Some sd"
  by unfold_locales (simp add: ServiceData_Unmarshal_def ServiceData_Marshal_def)

interpretation mm: codec "MixMessage_MarshalBinary n" "MixMessage_UnmarshalBinary n" "\<lambda>m. length (mm_Payload m) = n"
  by unfold_locales (simp add: MixMessage_UnmarshalBinary_def MixMessage_MarshalBinary_def)

lemma read_marshaled:
  assumes "n mod 4 = 0" and "length (mm_Payload m) = n" and "mm_Mailbox m \<noteq> 0"
  shows "read_message n (MixMessage_MarshalBinary n m) = Some m"
proof -
  have "length (MixMessage_MarshalBinary n m) = sizeof_message n"
    using assms(1) by (auto simp: MixMessage_MarshalBinary_def sizeof_message_def)
  then show ?thesis
    using assms(2,3) mm.dec_enc [of m n] by (simp add: read_message_def)
qed

lemma read_message_payload: "read_message n m = Some mx \<Longrightarrow> length (mm_Payload mx) = n \<and> mm_Mailbox mx \<noteq> 0"
  by (auto simp: read_message_def MixMessage_UnmarshalBinary_def split: if_splits)

section \<open>Mailboxes\<close>

text \<open>The payloads that are for a mailbox, in the order of the batch.\<close>

definition payloads_for :: "nat \<Rightarrow> u32 \<Rightarrow> bytes list \<Rightarrow> bytes list" where
  "payloads_for n mbox ms =
     map mm_Payload (filter (\<lambda>mx. mm_Mailbox mx = mbox) (List.map_filter (read_message n) ms))"

lemma payloads_for_Cons:
  "payloads_for n mbox (m # ms) = (case read_message n m of
     Some mx \<Rightarrow> if mm_Mailbox mx = mbox then mm_Payload mx # payloads_for n mbox ms else payloads_for n mbox ms
   | None \<Rightarrow> payloads_for n mbox ms)"
  by (simp add: payloads_for_def map_filter_simps split: option.split)

lemma payloads_for_Nil [simp]: "payloads_for n mbox [] = []"
  by (simp add: payloads_for_def map_filter_simps)

lemma payloads_for_length: "p \<in> set (payloads_for n mbox ms) \<Longrightarrow> length p = n"
  by (induction ms) (auto simp: payloads_for_Cons dest: read_message_payload split: option.splits if_splits)

lemma payloads_for_mset: "mset ms = mset ms' \<Longrightarrow> mset (payloads_for n mbox ms) = mset (payloads_for n mbox ms')"
  by (simp add: payloads_for_def List.map_filter_def)

lemma addfriend_mailboxes_value:
  "addfriend_mailboxes n ms mb (show_nat (unat mbox)) =
     (if payloads_for n mbox ms = [] then mb (show_nat (unat mbox))
      else Some ((case mb (show_nat (unat mbox)) of None \<Rightarrow> [] | Some b \<Rightarrow> b) @ concat (payloads_for n mbox ms)))"
proof (induction ms arbitrary: mb)
  case (Cons m ms)
  show ?case
  proof (cases "read_message n m")
    case (Some mx)
    show ?thesis
      by (cases "mm_Mailbox mx = mbox") (simp_all add: Some payloads_for_Cons Cons.IH Let_def word_unat_eq_iff)
  qed (simp add: payloads_for_Cons Cons.IH)
qed simp

lemma dialing_groups_value:
  "dialing_groups ms g mbox =
     (if payloads_for SizeToken mbox ms = [] then g mbox
      else Some ((case g mbox of None \<Rightarrow> [] | Some ts \<Rightarrow> ts) @ payloads_for SizeToken mbox ms))"
proof (induction ms arbitrary: g)
  case (Cons m ms)
  show ?case
  proof (cases "read_message SizeToken m")
    case (Some mx)
    show ?thesis
      by (cases "mm_Mailbox mx = mbox") (simp_all add: Some payloads_for_Cons Cons.IH)
  qed (simp add: payloads_for_Cons Cons.IH)
qed simp

text \<open>Parameters \<open>bloom.Optimal\<close> may give: a positive size that fits, a number of hashes that does.\<close>

definition optimal_law :: "(nat \<Rightarrow> int \<times> int) \<Rightarrow> bool" where
  "optimal_law optimal \<longleftrightarrow> (\<forall>n. 0 < fst (optimal n) \<and> fst (optimal n) \<le> 2 ^ 32 - 8 \<and>
     0 \<le> snd (optimal n) \<and> snd (optimal n) < 2 ^ 32)"

lemma token_filter_complete:
  assumes "optimal_law optimal"
  shows "\<exists>f. token_filter sip optimal tokens = Ok f \<and> bloom_UnmarshalBinary (bloom_MarshalBinary f) = Ok f \<and>
    (\<forall>t\<in>set tokens. bloom_Test sip t f = Ok True)"
proof -
  obtain m k where o: "optimal (length tokens) = (m, k)" by (rule prod.exhaust)
  then have b: "0 < m" "m \<le> 2 ^ 32 - 8" "0 \<le> k" "k < 2 ^ 32"
    using assms by (auto simp: optimal_law_def dest!: spec [of _ "length tokens"])
  have "0 \<le> (m + 7) div 8" using b(1) by simp
  then have "\<exists>f0. bloom_New m k = Ok f0"
    using b(1) by (simp add: bloom_New_def Let_def signed_divide_int_def not_less)
  then obtain f0 where f0: "bloom_New m k = Ok f0" by blast
  obtain f where f: "fold_outcome (bloom_Set sip) tokens f0 = Ok f" "sized_wf k f"
    "\<forall>t\<in>set tokens. bloom_Test sip t f = Ok True"
    using bf.no_false_negatives [OF bloom_New_wf [OF f0 b(1,2,3)], of sip tokens] by auto
  have "numHashes f = k" using f(2) by (simp add: sized_wf_def)
  then show ?thesis
    using f f0 o b bloom_roundtrip by (auto simp: token_filter_def)
qed

lemma dialing_mailboxes_value:
  assumes "optimal_law optimal" and "distinct order"
  shows "\<exists>mbs. dialing_mailboxes sip optimal groups order mb = Ok mbs \<and>
    (\<forall>mbox. if mbox \<in> set order
       then \<exists>f. mbs (show_nat (unat mbox)) = Some (bloom_MarshalBinary f) \<and>
         token_filter sip optimal (case groups mbox of None \<Rightarrow> [] | Some ts \<Rightarrow> ts) = Ok f
       else mbs (show_nat (unat mbox)) = mb (show_nat (unat mbox)))"
  using assms(2)
proof (induction order arbitrary: mb)
  case (Cons mbox order)
  let ?ts = "case groups mbox of None \<Rightarrow> [] | Some ts \<Rightarrow> ts"
  obtain f where f: "token_filter sip optimal ?ts = Ok f"
    using token_filter_complete [OF assms(1)] by blast
  let ?mb = "mb(show_nat (unat mbox) \<mapsto> bloom_MarshalBinary f)"
  obtain mbs where m: "dialing_mailboxes sip optimal groups order ?mb = Ok mbs"
    "\<forall>x. if x \<in> set order
       then \<exists>f. mbs (show_nat (unat x)) = Some (bloom_MarshalBinary f) \<and>
         token_filter sip optimal (case groups x of None \<Rightarrow> [] | Some ts \<Rightarrow> ts) = Ok f
       else mbs (show_nat (unat x)) = ?mb (show_nat (unat x))"
    using Cons by auto
  have "if x \<in> set (mbox # order)
       then \<exists>f. mbs (show_nat (unat x)) = Some (bloom_MarshalBinary f) \<and>
         token_filter sip optimal (case groups x of None \<Rightarrow> [] | Some ts \<Rightarrow> ts) = Ok f
       else mbs (show_nat (unat x)) = mb (show_nat (unat x))" for x
  proof (cases "x = mbox")
    case True
    then show ?thesis using m(2) [rule_format, of x] f Cons.prems by auto
  next
    case False
    then show ?thesis using m(2) [rule_format, of x] by (auto simp: word_unat_eq_iff)
  qed
  then show ?case using m(1) f by simp
qed simp

end
