(* ===== verification/MixServices.thy ===== *)
theory MixServices
  imports MixChain Mixers
begin

text \<open>
  The mixnet with its services: the add-friend and dialing handlers at the end of a chain, from the
  onions the coordinator sends in to the mailboxes that are uploaded to the CDN. The locale
  mailbox_service is what a round asks of either service; both handlers are interpretations of it.
\<close>

section \<open>The handlers at the end of a chain\<close>










section \<open>The contract of a service\<close>




abbreviation "shuffle_law M \<equiv> (\<forall>xs. mset (me_shuffle M xs) = mset xs)"



section \<open>Properties\<close>



section \<open>Witnesses\<close>








end
