(* ===== verification/Coordinator.thy ===== *)
theory Coordinator
  imports Config Mixers "HOL-Library.Sublist"
begin

text \<open>
  The coordinator (src/coordinator/server.go, src/coordinator/persist.go): the loop that opens and
  runs the rounds of a service, the onions it collects meanwhile, and the round number it keeps on
  disk. A passage of the loop between two waits or remote calls is a step; what the calls gave is
  the step's argument, what it sent or started its events.
\<close>

section \<open>State\<close>

text \<open>What the loop takes from the current config.\<close>

record loop_conf =
  lc_configHash :: string
  lc_mixServers :: "keyAddr list"
  lc_cdnServer :: keyAddr
  lc_pkgServers :: "keyAddr list"
  lc_rawServiceData :: bytes

text \<open>Where the loop is: before which call, or in which wait.\<close>

datatype loop_pos =
  AtTop | HaveConfig loop_conf | Persisted loop_conf u32 | Announced loop_conf u32 | PkgWait loop_conf u32
| Preparing loop_conf u32 | Opening loop_conf u32 | MixWait loop_conf u32 | RoundWait | Backoff | Stopped | Crashed

record MixRound =
  mr_MixSettings :: "ServiceData RoundSettings"
  mr_MixSignatures :: "bytes list"

record 'pk coordinator =
  co_Service :: string
  co_NumMailboxes :: u32
  co_round :: u32
  co_onions :: "bytes list"
  co_closed :: bool
  co_latestMixRound :: "MixRound option"
  co_latestPKGRound :: "(u32 \<times> 'pk) option"
  co_pos :: loop_pos
  co_file :: "bytes option"

datatype 'pk co_event =
  BroadcastNewRound u32 string | BroadcastPkg u32 'pk | BroadcastMix MixRound
| BroadcastError u32 | BroadcastMailbox u32 string u32 | PostNewBucket bytes string
| RoundPersisted u32 | OnionAccepted u32 bytes | SendWrongRound u32 | RoundStarted keyAddr u32 "bytes list" | Restarted

section \<open>Persistence\<close>

definition co_version :: byte where "co_version = 1"

datatype load_error = NoData | UnexpectedVersion byte | BadStateJSON

text \<open>\<open>json\<close> is the encoding of \<open>persistedState\<close>, whose only field is the round.\<close>

record co_json =
  cj_enc :: "u32 \<Rightarrow> bytes"
  cj_dec :: "bytes \<Rightarrow> u32 option"

definition persisted_bytes :: "co_json \<Rightarrow> u32 \<Rightarrow> bytes" where
  "persisted_bytes J round = co_version # cj_enc J round"

definition LoadPersistedState :: "co_json \<Rightarrow> bytes \<Rightarrow> (load_error, u32) outcome" where
  "LoadPersistedState J d =
     (if length d = 0 then Err NoData
      else if d ! 0 \<noteq> co_version then Err (UnexpectedVersion (d ! 0))
      else (case cj_dec J (drop 1 d) of None \<Rightarrow> Err BadStateJSON | Some r \<Rightarrow> Ok r))"

interpretation ps: codec "persisted_bytes J" "LoadPersistedState J" "\<lambda>r. cj_dec J (cj_enc J r) = Some r"
  by unfold_locales (simp add: LoadPersistedState_def persisted_bytes_def)

text \<open>\<open>written\<close> tells whether the atomic write of the file succeeded; a failed one leaves the old file.\<close>

definition persistLocked :: "co_json \<Rightarrow> bool \<Rightarrow> 'pk coordinator \<Rightarrow> 'pk coordinator" where
  "persistLocked J written srv = (if written then srv\<lparr>co_file := Some (persisted_bytes J (co_round srv))\<rparr> else srv)"

section \<open>Clients\<close>

definition incomingOnion :: "u32 \<Rightarrow> bytes \<Rightarrow> 'pk coordinator \<Rightarrow> 'pk coordinator \<times> 'pk co_event list" where
  "incomingOnion round onion srv =
     (if round = co_round srv then (srv\<lparr>co_onions := co_onions srv @ [onion]\<rparr>, [OnionAccepted round onion])
      else (srv, [SendWrongRound round]))"

text \<open>What a new connection is sent, if every send succeeds: the latest mix and PKG rounds.\<close>

definition onConnect :: "'pk coordinator \<Rightarrow> (MixRound + u32 \<times> 'pk) list" where
  "onConnect srv =
     (case co_latestMixRound srv of None \<Rightarrow> [] | Some m \<Rightarrow> [Inl m]) @
     (case co_latestPKGRound srv of None \<Rightarrow> [] | Some p \<Rightarrow> [Inr p])"

definition co_Close :: "'pk coordinator \<Rightarrow> 'pk coordinator \<times> bool" where
  "co_Close srv = (if \<not> co_closed srv then (srv\<lparr>co_closed := True\<rparr>, True) else (srv, False))"

section \<open>The loop\<close>

text \<open>
  Reading the config. Another service, or a config of the other kind, panics. \<open>json\<close> encodes the
  service data.
\<close>

definition loop_config ::
  "('vk, 'gk) cfg_env \<Rightarrow> (ServiceData \<Rightarrow> bytes) \<Rightarrow> 'pk coordinator \<Rightarrow> SignedConfig \<Rightarrow> (cfg_error, loop_conf) outcome" where
  "loop_config E json srv currentConfig =
     bind_outcome (config_Hash E currentConfig) (\<lambda>configHash.
       let raw = (\<lambda>cdn. ServiceData_Marshal json \<lparr>sd_CDNKey = ka_Key cdn, sd_CDNAddress = ka_Address cdn,
                    sd_NumMailboxes = co_NumMailboxes srv\<rparr>)
       in if co_Service srv = ''AddFriend''
          then (case sc_Inner currentConfig of
                  Some (InnerAddFriend conf) \<Rightarrow>
                    Ok \<lparr>lc_configHash = configHash, lc_mixServers = af_MixServers conf, lc_cdnServer = af_CDNServer conf,
                      lc_pkgServers = af_PKGServers conf, lc_rawServiceData = raw (af_CDNServer conf)\<rparr>
                | _ \<Rightarrow> Panic)
          else if co_Service srv = ''Dialing''
          then (case sc_Inner currentConfig of
                  Some (InnerDialing conf) \<Rightarrow>
                    Ok \<lparr>lc_configHash = configHash, lc_mixServers = dc_MixServers conf, lc_cdnServer = dc_CDNServer conf,
                      lc_pkgServers = [], lc_rawServiceData = raw (dc_CDNServer conf)\<rparr>
                | _ \<Rightarrow> Panic)
          else Panic)"

text \<open>The bucket of the round, for which the last mixer may upload. \<open>base32\<close> encodes its key.\<close>

definition prepCDN :: "(bytes \<Rightarrow> string) \<Rightarrow> keyAddr \<Rightarrow> keyAddr \<Rightarrow> string \<Rightarrow> u32 \<Rightarrow> bytes \<times> string" where
  "prepCDN base32 cdnServer lastMixer service round =
     (ka_Key cdnServer, ''https://'' @ ka_Address cdnServer @ ''/newbucket?bucket='' @ service @ ''/'' @
        show_nat (unat round) @ ''&uploader='' @ base32 (ka_Key lastMixer))"

text \<open>
  What a step was told: the current config, the result of the write, the settings of the PKGs, the
  status of the CDN, the onion keys and signatures of the mix servers (\<open>None\<close>: an error), whether a
  sleep ran its time.
\<close>

datatype 'pk answer =
  GotConfig "SignedConfig option" | Wrote bool | GotPkg "'pk option" | CdnStatus "nat option"
| GotMix "(bytes list \<times> bytes list) option" | Slept bool | Go

record ('vk, 'gk) co_env =
  ce_cfg :: "('vk, 'gk) cfg_env"
  ce_sd_json :: "ServiceData \<Rightarrow> bytes"
  ce_state_json :: co_json
  ce_co_base32 :: "bytes \<Rightarrow> string"

definition after_sleep :: "bool \<Rightarrow> loop_pos \<Rightarrow> loop_pos" where
  "after_sleep ok next = (if ok then next else Stopped)"

definition mix_settings :: "'pk coordinator \<Rightarrow> loop_conf \<Rightarrow> u32 \<Rightarrow> bytes list \<Rightarrow> ServiceData RoundSettings" where
  "mix_settings srv conf round keys = \<lparr>rs_Service = co_Service srv, rs_Round = round, rs_OnionKeys = keys,
     rs_RawServiceData = lc_rawServiceData conf, rs_ServiceData = None\<rparr>"

definition loop_step ::
  "('vk, 'gk) co_env \<Rightarrow> 'pk answer \<Rightarrow> 'pk coordinator \<Rightarrow> ('pk coordinator \<times> 'pk co_event list) option" where
  "loop_step E answer srv =
     (case co_pos srv of
        AtTop \<Rightarrow>
          (case answer of
             GotConfig None \<Rightarrow> Some (srv\<lparr>co_pos := Backoff\<rparr>, [])
           | GotConfig (Some c) \<Rightarrow>
               Some (srv\<lparr>co_pos := (case loop_config (ce_cfg E) (ce_sd_json E) srv c of
                       Ok conf \<Rightarrow> HaveConfig conf | _ \<Rightarrow> Crashed)\<rparr>, [])
           | _ \<Rightarrow> None)
      | HaveConfig conf \<Rightarrow>
          (case answer of
             Wrote ok \<Rightarrow>
               (let srv1 = srv\<lparr>co_round := co_round srv + 1\<rparr>; srv2 = persistLocked (ce_state_json E) ok srv1 in
                if ok then Some (srv2\<lparr>co_pos := Persisted conf (co_round srv2)\<rparr>, [RoundPersisted (co_round srv2)])
                else Some (srv2\<lparr>co_pos := Stopped\<rparr>, []))
           | _ \<Rightarrow> None)
      | Persisted conf round \<Rightarrow>
          (case answer of
             Go \<Rightarrow> Some (srv\<lparr>co_pos := if co_Service srv = ''AddFriend'' then Announced conf round
                                          else Preparing conf round\<rparr>,
                         [BroadcastNewRound round (lc_configHash conf)])
           | _ \<Rightarrow> None)
      | Announced conf round \<Rightarrow>
          (case answer of
             GotPkg None \<Rightarrow> Some (srv\<lparr>co_pos := Backoff\<rparr>, [])
           | GotPkg (Some s) \<Rightarrow>
               Some (srv\<lparr>co_latestPKGRound := Some (round, s), co_pos := PkgWait conf round\<rparr>, [BroadcastPkg round s])
           | _ \<Rightarrow> None)
      | PkgWait conf round \<Rightarrow>
          (case answer of
             Slept ok \<Rightarrow> Some (srv\<lparr>co_pos := after_sleep ok (Preparing conf round)\<rparr>, []) | _ \<Rightarrow> None)
      | Preparing conf round \<Rightarrow>
          (case answer of
             CdnStatus status \<Rightarrow>
               (if lc_mixServers conf = [] then Some (srv\<lparr>co_pos := Crashed\<rparr>, [])
                else (let (key, url) = prepCDN (ce_co_base32 E) (lc_cdnServer conf) (last (lc_mixServers conf))
                            (co_Service srv) round
                      in Some (srv\<lparr>co_pos := if status = Some 200 then Opening conf round else Stopped\<rparr>,
                               [PostNewBucket key url])))
           | _ \<Rightarrow> None)
      | Opening conf round \<Rightarrow>
          (case answer of
             GotMix None \<Rightarrow> Some (srv\<lparr>co_pos := Backoff\<rparr>, [])
           | GotMix (Some (keys, sigs)) \<Rightarrow>
               (let mixRound = \<lparr>mr_MixSettings = mix_settings srv conf round keys, mr_MixSignatures = sigs\<rparr> in
                Some (srv\<lparr>co_latestMixRound := Some mixRound, co_pos := MixWait conf round\<rparr>, [BroadcastMix mixRound]))
           | _ \<Rightarrow> None)
      | MixWait conf round \<Rightarrow>
          (case answer of
             Slept ok \<Rightarrow>
               (if \<not> ok then Some (srv\<lparr>co_pos := Stopped\<rparr>, [])
                else Some (srv\<lparr>co_onions := [], co_pos := RoundWait\<rparr>,
                           [RoundStarted (hd (lc_mixServers conf)) round (co_onions srv)]))
           | _ \<Rightarrow> None)
      | RoundWait \<Rightarrow> (case answer of Slept ok \<Rightarrow> Some (srv\<lparr>co_pos := after_sleep ok AtTop\<rparr>, []) | _ \<Rightarrow> None)
      | Backoff \<Rightarrow> (case answer of Slept ok \<Rightarrow> Some (srv\<lparr>co_pos := after_sleep ok AtTop\<rparr>, []) | _ \<Rightarrow> None)
      | Stopped \<Rightarrow> None | Crashed \<Rightarrow> None)"

text \<open>The end of a round that runs beside the loop: the mailbox URL, or an error.\<close>

definition runRound :: "string option \<Rightarrow> u32 \<Rightarrow> 'pk coordinator \<Rightarrow> 'pk co_event list" where
  "runRound result round srv =
     (case result of None \<Rightarrow> [BroadcastError round]
      | Some url \<Rightarrow> [BroadcastMailbox round url (co_NumMailboxes srv)])"

text \<open>Starting the server in a process that loaded the state: \<open>LoadPersistedState\<close> and \<open>Run\<close>.\<close>

definition start_server :: "co_json \<Rightarrow> 'pk coordinator \<Rightarrow> (load_error, 'pk coordinator) outcome" where
  "start_server J srv =
     (case co_file srv of
        None \<Rightarrow> Err NoData
      | Some d \<Rightarrow> bind_outcome (LoadPersistedState J d) (\<lambda>r.
          if co_Service srv \<noteq> ''AddFriend'' \<and> co_Service srv \<noteq> ''Dialing'' then Err NoData
          else Ok (srv\<lparr>co_round := r, co_onions := [], co_closed := False, co_latestMixRound := None,
            co_latestPKGRound := None, co_pos := AtTop\<rparr>)))"

section \<open>Runs\<close>

text \<open>
  The events of a coordinator: the loop, clients sending onions, a closed server, rounds that end,
  and a process that dies at any point and is started again from its file. A sleep only ends early
  when the server was closed.
\<close>

inductive co_run ::
  "('vk, 'gk) co_env \<Rightarrow> 'pk coordinator \<Rightarrow> 'pk co_event list \<Rightarrow> 'pk coordinator \<Rightarrow> bool" for E s0 where
  co_start: "co_run E s0 [] s0"
| co_loop: "co_run E s0 tr s \<Longrightarrow> loop_step E answer s = Some (s', evs) \<Longrightarrow>
    (answer = Slept False \<Longrightarrow> co_closed s) \<Longrightarrow> co_run E s0 (tr @ evs) s'"
| co_onion: "co_run E s0 tr s \<Longrightarrow> incomingOnion round onion s = (s', evs) \<Longrightarrow> co_run E s0 (tr @ evs) s'"
| co_closing: "co_run E s0 tr s \<Longrightarrow> co_Close s = (s', b) \<Longrightarrow> co_run E s0 tr s'"
| co_ended: "co_run E s0 tr s \<Longrightarrow> RoundStarted k round os \<in> set tr \<Longrightarrow> co_run E s0 (tr @ runRound result round s) s"
| co_restart: "co_run E s0 tr s \<Longrightarrow> start_server (ce_state_json E) s = Ok s' \<Longrightarrow> co_run E s0 (tr @ [Restarted]) s'"

fun pos_round :: "loop_pos \<Rightarrow> u32 option" where
  "pos_round (Persisted _ r) = Some r"
| "pos_round (Announced _ r) = Some r"
| "pos_round (PkgWait _ r) = Some r"
| "pos_round (Preparing _ r) = Some r"
| "pos_round (Opening _ r) = Some r"
| "pos_round (MixWait _ r) = Some r"
| "pos_round _ = None"

definition persists :: "'pk co_event list \<Rightarrow> u32 list" where
  "persists tr = List.map_filter (\<lambda>e. case e of RoundPersisted r \<Rightarrow> Some r | _ \<Rightarrow> None) tr"

definition announced :: "'pk co_event list \<Rightarrow> u32 list" where
  "announced tr = List.map_filter (\<lambda>e. case e of BroadcastNewRound r _ \<Rightarrow> Some r | _ \<Rightarrow> None) tr"

lemma persists_simps [simp]:
  "persists [] = []" "persists (a @ b) = persists a @ persists b"
  "persists (e # tr) = (case e of RoundPersisted r \<Rightarrow> r # persists tr | _ \<Rightarrow> persists tr)"
  by (simp_all add: persists_def List.map_filter_def split: co_event.split)

lemma announced_simps [simp]:
  "announced [] = []" "announced (a @ b) = announced a @ announced b"
  "announced (e # tr) = (case e of BroadcastNewRound r _ \<Rightarrow> r # announced tr | _ \<Rightarrow> announced tr)"
  by (simp_all add: announced_def List.map_filter_def split: co_event.split)

text \<open>
  A step of the loop, by what it does: it writes the next round, it announces the round it wrote, it
  starts a round with the collected onions, or none of these.
\<close>

definition quiet :: "'pk co_event list \<Rightarrow> bool" where
  "quiet evs \<longleftrightarrow> (\<forall>e\<in>set evs. case e of RoundPersisted _ \<Rightarrow> False | BroadcastNewRound _ _ \<Rightarrow> False
     | RoundStarted _ _ _ \<Rightarrow> False | OnionAccepted _ _ \<Rightarrow> False | Restarted \<Rightarrow> False | _ \<Rightarrow> True)"

lemma loop_step_cases:
  assumes "loop_step E answer s = Some (s', evs)"
  obtains
    (writes) conf where "co_pos s = HaveConfig conf" "evs = [RoundPersisted (co_round s + 1)]"
      "s' = s\<lparr>co_round := co_round s + 1, co_file := Some (persisted_bytes (ce_state_json E) (co_round s + 1)),
        co_pos := Persisted conf (co_round s + 1)\<rparr>"
  | (fails) conf where "co_pos s = HaveConfig conf" "evs = []" "s' = s\<lparr>co_round := co_round s + 1, co_pos := Stopped\<rparr>"
  | (announces) conf r pos where "co_pos s = Persisted conf r" "evs = [BroadcastNewRound r (lc_configHash conf)]"
      "s' = s\<lparr>co_pos := pos\<rparr>" "pos_round pos = Some r" "\<And>c r'. pos \<noteq> Persisted c r'"
  | (mixes) conf r k where "co_pos s = MixWait conf r" "evs = [RoundStarted k r (co_onions s)]"
      "s' = s\<lparr>co_onions := [], co_pos := RoundWait\<rparr>"
  | (other) "quiet evs" "co_round s' = co_round s" "co_file s' = co_file s" "co_onions s' = co_onions s"
      "pos_round (co_pos s') = None \<or> pos_round (co_pos s') = pos_round (co_pos s)"
      "\<And>c r'. co_pos s' \<noteq> Persisted c r'" "co_pos s \<noteq> Stopped"
proof (cases "co_pos s")
  case (HaveConfig conf)
  then show ?thesis using assms writes fails
    by (auto simp: loop_step_def persistLocked_def Let_def split: answer.splits if_splits)
next
  case (Persisted conf r)
  then show ?thesis using assms announces
    by (auto simp: loop_step_def split: answer.splits if_splits)
next
  case (MixWait conf r)
  then show ?thesis using assms mixes other
    by (auto simp: loop_step_def quiet_def split: answer.splits if_splits)
next
  case AtTop
  have "quiet evs" "co_round s' = co_round s" "co_file s' = co_file s" "co_onions s' = co_onions s"
    "pos_round (co_pos s') = None" "\<And>c r'. co_pos s' \<noteq> Persisted c r'"
    using assms AtTop
    by (auto simp: loop_step_def quiet_def split: answer.splits if_splits option.splits outcome.splits)
  then show ?thesis using AtTop other by auto
next
  case (Preparing conf r)
  have "quiet evs" "co_round s' = co_round s" "co_file s' = co_file s" "co_onions s' = co_onions s"
    "pos_round (co_pos s') = None \<or> pos_round (co_pos s') = pos_round (co_pos s)" "\<And>c r'. co_pos s' \<noteq> Persisted c r'"
    using assms Preparing
    by (auto simp: loop_step_def quiet_def prepCDN_def Let_def split: answer.splits if_splits)
  then show ?thesis using Preparing other by auto
next
  case (Opening conf r)
  have "quiet evs" "co_round s' = co_round s" "co_file s' = co_file s" "co_onions s' = co_onions s"
    "pos_round (co_pos s') = None \<or> pos_round (co_pos s') = pos_round (co_pos s)" "\<And>c r'. co_pos s' \<noteq> Persisted c r'"
    using assms Opening
    by (auto simp: loop_step_def quiet_def Let_def split: answer.splits option.splits)
  then show ?thesis using Opening other by auto
qed (use assms other in \<open>auto simp: loop_step_def quiet_def after_sleep_def split: answer.splits if_splits option.splits\<close>)

section \<open>Round numbers\<close>

text \<open>The rounds written are consecutive, the file has the last one, and only the last is announced.\<close>

definition numbered :: "u32 \<Rightarrow> 'pk co_event list \<Rightarrow> bool" where
  "numbered r0 tr \<longleftrightarrow> persists tr = map (\<lambda>i. r0 + word_of_nat (Suc i)) [0..<length (persists tr)]"

definition round_inv :: "co_json \<Rightarrow> u32 \<Rightarrow> 'pk co_event list \<Rightarrow> 'pk coordinator \<Rightarrow> bool" where
  "round_inv J r0 tr s \<longleftrightarrow> numbered r0 tr \<and>
     co_file s = Some (persisted_bytes J (r0 + word_of_nat (length (persists tr)))) \<and>
     (co_pos s \<noteq> Stopped \<longrightarrow> co_round s = r0 + word_of_nat (length (persists tr))) \<and>
     subseq (announced tr) (persists tr) \<and>
     (\<forall>c r. co_pos s = Persisted c r \<longrightarrow> (\<exists>rs. persists tr = rs @ [r] \<and> subseq (announced tr) rs))"

lemma quiet_silent: "quiet evs \<Longrightarrow> persists evs = [] \<and> announced evs = []"
  by (induction evs) (auto simp: quiet_def split: co_event.splits)

lemma numbered_silent: "persists evs = [] \<Longrightarrow> numbered r0 (tr @ evs) = numbered r0 tr"
  by (simp add: numbered_def)

lemma numbered_snoc: "numbered r0 tr \<Longrightarrow> r = r0 + word_of_nat (length (persists tr)) + 1 \<Longrightarrow> numbered r0 (tr @ [RoundPersisted r])"
  by (simp add: numbered_def)

lemma round_inv_quiet:
  assumes "round_inv J r0 tr s" and "persists evs = []" and "announced evs = []" and "co_file s' = co_file s"
    and "co_round s' = co_round s" and "\<And>c r. co_pos s' = Persisted c r \<Longrightarrow> co_pos s = Persisted c r"
    and "co_pos s = Stopped \<Longrightarrow> co_pos s' = Stopped"
  shows "round_inv J r0 (tr @ evs) s'"
  using assms by (auto simp: round_inv_def numbered_def)

lemma incomingOnion_frame:
  "incomingOnion round onion s = (s', evs) \<Longrightarrow> persists evs = [] \<and> announced evs = [] \<and> co_file s' = co_file s \<and>
     co_round s' = co_round s \<and> co_pos s' = co_pos s"
  by (auto simp: incomingOnion_def split: if_splits)

lemma runRound_frame: "persists (runRound result round s) = [] \<and> announced (runRound result round s) = []"
  by (simp add: runRound_def split: option.split)

lemma round_inv_step:
  assumes "round_inv (ce_state_json E) r0 tr s" and "loop_step E answer s = Some (s', evs)"
  shows "round_inv (ce_state_json E) r0 (tr @ evs) s'"
  using assms(2)
proof (cases rule: loop_step_cases)
  case (writes conf)
  have p: "co_round s = r0 + word_of_nat (length (persists tr))" "numbered r0 tr" "subseq (announced tr) (persists tr)"
    using assms(1) writes(1) by (auto simp: round_inv_def)
  have "subseq (announced tr) (persists tr @ [co_round s + 1])"
    using p(3) by (simp add: subseq_rev_drop_many)
  then show ?thesis
    using p numbered_snoc [OF p(2), of "co_round s + 1"] writes(2,3) by (auto simp: round_inv_def ac_simps)
next
  case (fails conf)
  then show ?thesis using assms(1) by (auto simp: round_inv_def)
next
  case (announces conf r pos)
  obtain rs where rs: "persists tr = rs @ [r]" "subseq (announced tr) rs"
    using assms(1) announces(1) by (auto simp: round_inv_def)
  have "subseq (announced tr @ [r]) (persists tr)" using rs by (simp add: list_emb_append_mono)
  moreover have "pos \<noteq> Stopped" using announces(4) by auto
  moreover have "co_pos s \<noteq> Stopped" using announces(1) by simp
  ultimately show ?thesis
    using assms(1) announces(2,3,5) by (auto simp: round_inv_def numbered_def)
next
  case (mixes conf r k)
  then show ?thesis using assms(1) by (auto simp: round_inv_def numbered_def)
next
  case other
  then show ?thesis using round_inv_quiet [OF assms(1)] quiet_silent [OF other(1)] by blast
qed

text \<open>
  C10: no round number is used twice. However the coordinator is stopped, fails, dies and is started
  again from its file, the round numbers it writes to the file are consecutive, the rounds it
  announces are, in this order, some of those it wrote before, and no round is announced twice
  while fewer than two to the 32 were written.
\<close>

theorem rounds_never_reused:
  assumes "\<And>r. cj_dec (ce_state_json E) (cj_enc (ce_state_json E) r) = Some r"
    and "co_file s0 = Some (persisted_bytes (ce_state_json E) r0)" and "co_round s0 = r0" and "co_pos s0 = AtTop"
    and "co_run E s0 tr s"
  shows "persists tr = map (\<lambda>i. r0 + word_of_nat (Suc i)) [0..<length (persists tr)] \<and>
    subseq (announced tr) (persists tr) \<and> (length (persists tr) < 2 ^ 32 \<longrightarrow> distinct (announced tr))"
proof -
  have "round_inv (ce_state_json E) r0 tr s"
    using assms(5)
  proof (induction rule: co_run.induct)
    case co_start
    then show ?case using assms(2-4) by (simp add: round_inv_def numbered_def)
  next
    case (co_loop tr s answer s' evs)
    show ?case by (rule round_inv_step [OF co_loop.IH co_loop.hyps(2)])
  next
    case (co_onion tr s round onion s' evs)
    show ?case by (rule round_inv_quiet [OF co_onion.IH]) (use incomingOnion_frame [OF co_onion.hyps(2)] in simp_all)
  next
    case (co_closing tr s s' b)
    have "round_inv (ce_state_json E) r0 (tr @ []) s'"
      by (rule round_inv_quiet [OF co_closing.IH]) (use co_closing.hyps(2) in \<open>auto simp: co_Close_def split: if_splits\<close>)
    then show ?case by simp
  next
    case (co_ended tr s k round os result)
    show ?case by (rule round_inv_quiet [OF co_ended.IH]) (use runRound_frame [of result round s] in simp_all)
  next
    case (co_restart tr s s')
    then show ?case using ps.dec_enc [of "ce_state_json E", OF assms(1)]
      by (auto simp: start_server_def round_inv_def numbered_silent bind_outcome_Ok split: option.splits if_splits)
  qed
  then have i: "numbered r0 tr" "subseq (announced tr) (persists tr)" by (auto simp: round_inv_def)
  have "distinct (persists tr)" if n: "length (persists tr) < 2 ^ 32"
  proof -
    have "inj_on (\<lambda>i. r0 + word_of_nat (Suc i) :: u32) (set [0..<length (persists tr)])"
    proof (rule inj_onI)
      fix i j assume ij: "i \<in> set [0..<length (persists tr)]" "j \<in> set [0..<length (persists tr)]"
        and eq: "r0 + word_of_nat (Suc i) = r0 + (word_of_nat (Suc j) :: u32)"
      then have w: "(word_of_nat (Suc i) :: u32) = word_of_nat (Suc j)" by simp
      have "Suc i < 2 ^ 32" "Suc j < 2 ^ 32" using ij n by simp_all
      then have "Suc i = Suc j" using arg_cong [OF w, of unat] by (simp only: unat_of_nat_small)
      then show "i = j" by simp
    qed
    then have "distinct (map (\<lambda>i. r0 + word_of_nat (Suc i) :: u32) [0..<length (persists tr)])"
      by (simp only: distinct_map distinct_upt simp_thms)
    then show ?thesis by (rule iffD2 [OF arg_cong [OF i(1) [unfolded numbered_def], of distinct]])
  qed
  then have "length (persists tr) < 2 ^ 32 \<Longrightarrow> distinct (announced tr)" using i(2)
    by (metis subseq_conv_nths distinct_nthsI)
  then show ?thesis using i unfolding numbered_def by blast
qed

section \<open>Batches\<close>

text \<open>
  The onions a trace leaves waiting, the onions a stretch of it accepts, and a stretch in which one
  round is open: all it accepts is labelled with the round, and no batch leaves.
\<close>

definition mailbag :: "'pk co_event list \<Rightarrow> bytes list" where
  "mailbag tr = fold (\<lambda>e bag. case e of OnionAccepted _ onion \<Rightarrow> bag @ [onion] | RoundStarted _ _ _ \<Rightarrow> []
     | Restarted \<Rightarrow> [] | _ \<Rightarrow> bag) tr []"

definition accepted :: "'pk co_event list \<Rightarrow> bytes list" where
  "accepted tr = List.map_filter (\<lambda>e. case e of OnionAccepted _ onion \<Rightarrow> Some onion | _ \<Rightarrow> None) tr"

definition open_event :: "u32 \<Rightarrow> 'pk co_event \<Rightarrow> bool" where
  "open_event r e \<longleftrightarrow> (case e of OnionAccepted r' _ \<Rightarrow> r' = r | RoundPersisted _ \<Rightarrow> False | RoundStarted _ _ _ \<Rightarrow> False
     | Restarted \<Rightarrow> False | _ \<Rightarrow> True)"

definition window :: "u32 \<Rightarrow> 'pk co_event list \<Rightarrow> bytes list \<Rightarrow> bool" where
  "window r tr os \<longleftrightarrow> (\<exists>t0 t3. tr = t0 @ RoundPersisted r # t3 \<and> list_all (open_event r) t3 \<and>
     os = mailbag t0 @ accepted t3)"

lemma mailbag_snoc [simp]:
  "mailbag [] = []"
  "mailbag (tr @ [e]) = (case e of OnionAccepted _ onion \<Rightarrow> mailbag tr @ [onion] | RoundStarted _ _ _ \<Rightarrow> []
     | Restarted \<Rightarrow> [] | _ \<Rightarrow> mailbag tr)"
  by (simp_all add: mailbag_def split: co_event.split)

lemma accepted_simps [simp]:
  "accepted [] = []" "accepted (a @ b) = accepted a @ accepted b"
  "accepted (e # tr) = (case e of OnionAccepted _ onion \<Rightarrow> onion # accepted tr | _ \<Rightarrow> accepted tr)"
  by (simp_all add: accepted_def List.map_filter_def split: co_event.split)

lemma mailbag_open: "list_all (open_event r) t \<Longrightarrow> mailbag (tr @ t) = mailbag tr @ accepted t"
proof (induction t rule: rev_induct)
  case (snoc e t)
  have "mailbag (tr @ t @ [e]) = mailbag ((tr @ t) @ [e])" by simp
  then show ?case using snoc by (simp only: mailbag_snoc) (auto simp: open_event_def split: co_event.splits)
qed simp

lemma quiet_open: "quiet evs \<Longrightarrow> list_all (open_event r) evs"
  by (induction evs) (auto simp: quiet_def open_event_def split: co_event.splits)

lemma quiet_accepts_nothing: "quiet evs \<Longrightarrow> accepted evs = []"
  by (induction evs) (auto simp: quiet_def split: co_event.splits)

lemma mailbag_quiet: "quiet evs \<Longrightarrow> mailbag (tr @ evs) = mailbag tr"
  using mailbag_open [OF quiet_open] quiet_accepts_nothing by fastforce

lemma window_extend: "window r tr os \<Longrightarrow> list_all (open_event r) t \<Longrightarrow> window r (tr @ t) (os @ accepted t)"
  unfolding window_def by (metis accepted_simps(2) append_Cons append_assoc list_all_append)

lemma window_opens: "window r (tr @ [RoundPersisted r]) (mailbag tr)"
  unfolding window_def by (rule exI [of _ tr], rule exI [of _ "[]"]) simp

definition batches_ok :: "'pk co_event list \<Rightarrow> bool" where
  "batches_ok tr \<longleftrightarrow> (\<forall>t1 k r os t2. tr = t1 @ RoundStarted k r os # t2 \<longrightarrow> window r t1 os)"

definition starts_nothing :: "'pk co_event list \<Rightarrow> bool" where
  "starts_nothing tr \<longleftrightarrow> (\<forall>k r os. RoundStarted k r os \<notin> set tr)"

lemma batches_ok_more:
  assumes "batches_ok tr" and "starts_nothing evs"
  shows "batches_ok (tr @ evs)"
  unfolding batches_ok_def
proof (intro allI impI)
  fix t1 k r os t2
  assume e: "tr @ evs = t1 @ RoundStarted k r os # t2"
  then consider u where "tr = t1 @ u" "u @ evs = RoundStarted k r os # t2" | u where "tr @ u = t1" "evs = u @ RoundStarted k r os # t2"
    by (auto simp: append_eq_append_conv2)
  then show "window r t1 os"
  proof cases
    case 1
    then show ?thesis
    proof (cases u)
      case Nil
      then have "RoundStarted k r os \<in> set evs" using 1(2) by simp
      then show ?thesis using assms(2) by (simp add: starts_nothing_def)
    next
      case (Cons e v)
      then show ?thesis using assms(1) 1 by (simp add: batches_ok_def)
    qed
  next
    case 2
    then show ?thesis using assms(2) by (auto simp: starts_nothing_def)
  qed
qed

lemma batches_ok_start:
  assumes "batches_ok tr" and "window r tr os"
  shows "batches_ok (tr @ [RoundStarted k r os])"
  unfolding batches_ok_def
proof (intro allI impI)
  fix t1 k' r' os' t2
  assume e: "tr @ [RoundStarted k r os] = t1 @ RoundStarted k' r' os' # t2"
  show "window r' t1 os'"
  proof (cases t2 rule: rev_cases)
    case Nil
    then show ?thesis using e assms(2) by simp
  next
    case (snoc t x)
    then have "tr = t1 @ RoundStarted k' r' os' # t" using e by simp
    then show ?thesis using assms(1) by (simp add: batches_ok_def)
  qed
qed

definition batch_inv :: "'pk co_event list \<Rightarrow> 'pk coordinator \<Rightarrow> bool" where
  "batch_inv tr s \<longleftrightarrow> co_onions s = mailbag tr \<and> batches_ok tr \<and>
     (\<forall>r. pos_round (co_pos s) = Some r \<longrightarrow> co_round s = r \<and> window r tr (co_onions s))"

lemma batch_inv_quiet:
  assumes "batch_inv tr s" and "quiet evs" and "co_onions s' = co_onions s" and "co_round s' = co_round s"
    and "pos_round (co_pos s') = None \<or> pos_round (co_pos s') = pos_round (co_pos s)"
  shows "batch_inv (tr @ evs) s'"
proof -
  have s: "starts_nothing evs" using assms(2) by (auto simp: starts_nothing_def quiet_def)
  have w: "window r (tr @ evs) (co_onions s)" if "window r tr (co_onions s)" for r
    using window_extend [OF that quiet_open [OF assms(2)]] by (simp add: quiet_accepts_nothing [OF assms(2)])
  show ?thesis
    using assms batches_ok_more [OF _ s, of tr] w by (auto simp: batch_inv_def mailbag_quiet)
qed

lemma batch_inv_step:
  assumes "batch_inv tr s" and "loop_step E answer s = Some (s', evs)"
  shows "batch_inv (tr @ evs) s'"
  using assms(2)
proof (cases rule: loop_step_cases)
  case (writes conf)
  have "batches_ok (tr @ evs)"
    by (rule batches_ok_more) (use assms(1) writes(2) in \<open>auto simp: batch_inv_def starts_nothing_def\<close>)
  then show ?thesis using assms(1) writes window_opens [of "co_round s + 1" tr] by (simp add: batch_inv_def)
next
  case (fails conf)
  then show ?thesis using assms(1) by (simp add: batch_inv_def)
next
  case (announces conf r pos)
  show ?thesis
  proof -
    have s: "starts_nothing evs" using announces(2) by (simp add: starts_nothing_def)
    have w: "window r tr (co_onions s)" "co_round s = r" using assms(1) announces(1) by (auto simp: batch_inv_def)
    have "list_all (open_event r) evs" using announces(2) by (simp add: open_event_def)
    note window_extend [OF w(1) this]
    moreover have "mailbag (tr @ evs) = mailbag tr" using announces(2) by simp
    ultimately show ?thesis
      using assms(1) announces(2-4) w batches_ok_more [OF _ s, of tr] by (auto simp: batch_inv_def)
  qed
next
  case (mixes conf r k)
  then have "window r tr (co_onions s)" "batches_ok tr" using assms(1) by (auto simp: batch_inv_def)
  then show ?thesis using mixes by (simp add: batch_inv_def batches_ok_start)
next
  case other
  show ?thesis by (rule batch_inv_quiet [OF assms(1) other(1,4,2,5)])
qed

lemma batch_inv_onion:
  assumes "batch_inv tr s" and "incomingOnion round onion s = (s', evs)"
  shows "batch_inv (tr @ evs) s'"
proof (cases "round = co_round s")
  case True
  then have e: "evs = [OnionAccepted round onion]" "s' = s\<lparr>co_onions := co_onions s @ [onion]\<rparr>"
    using assms(2) by (auto simp: incomingOnion_def)
  have "window r (tr @ evs) (co_onions s @ [onion])" if "pos_round (co_pos s) = Some r" for r
    using assms(1) that window_extend [of r tr "co_onions s" evs] True e(1)
    by (auto simp: batch_inv_def open_event_def)
  moreover have "batches_ok (tr @ evs)"
    by (rule batches_ok_more) (use assms(1) e in \<open>auto simp: batch_inv_def starts_nothing_def\<close>)
  ultimately show ?thesis using assms(1) e by (auto simp: batch_inv_def)
next
  case False
  then have "evs = [SendWrongRound round]" "s' = s" using assms(2) by (auto simp: incomingOnion_def)
  then show ?thesis using batch_inv_quiet [OF assms(1), of evs s] by (simp add: quiet_def)
qed

lemma quiet_runRound: "quiet (runRound result round s)"
  by (simp add: runRound_def quiet_def split: option.split)

text \<open>
  C9: the batch the coordinator hands to the first mix server for a round is exactly the onions it
  accepted and has not handed over, in the order they came: those that were waiting when the round
  was opened and then those accepted since, every one of the latter labelled with this round. So no
  accepted onion is lost while the process lives, none is sent twice, and none accepted for a later
  round is sent. (The onions that were waiting are labelled with earlier rounds.)
\<close>

theorem batch_contents:
  assumes "co_onions s0 = []" and "co_pos s0 = AtTop" and "co_run E s0 (t1 @ RoundStarted k r os # t2) s"
  shows "\<exists>t0 t3. t1 = t0 @ RoundPersisted r # t3 \<and> os = mailbag t0 @ accepted t3 \<and> os = mailbag t1 \<and>
     (\<forall>r' onion. OnionAccepted r' onion \<in> set t3 \<longrightarrow> r' = r)"
proof -
  have "batch_inv (t1 @ RoundStarted k r os # t2) s"
    using assms(3)
  proof (induction rule: co_run.induct)
    case co_start
    then show ?case using assms(1,2) by (simp add: batch_inv_def batches_ok_def)
  next
    case (co_loop tr s answer s' evs)
    show ?case by (rule batch_inv_step [OF co_loop.IH co_loop.hyps(2)])
  next
    case (co_onion tr s round onion s' evs)
    show ?case by (rule batch_inv_onion [OF co_onion.IH co_onion.hyps(2)])
  next
    case (co_closing tr s s' b)
    have "batch_inv (tr @ []) s'"
      by (rule batch_inv_quiet [OF co_closing.IH]) (use co_closing.hyps(2) in \<open>auto simp: co_Close_def quiet_def split: if_splits\<close>)
    then show ?case by simp
  next
    case (co_ended tr s k round os result)
    show ?case by (rule batch_inv_quiet [OF co_ended.IH]) (simp_all add: quiet_runRound)
  next
    case (co_restart tr s s')
    then have "batches_ok (tr @ [Restarted])"
      by (intro batches_ok_more) (simp_all add: batch_inv_def starts_nothing_def)
    then show ?case using co_restart(2)
      by (auto simp: start_server_def batch_inv_def bind_outcome_Ok split: option.splits if_splits)
  qed
  then have "window r t1 os" by (auto simp: batch_inv_def batches_ok_def)
  then obtain t0 t3 where w: "t1 = t0 @ RoundPersisted r # t3" "list_all (open_event r) t3" "os = mailbag t0 @ accepted t3"
    by (auto simp: window_def)
  have "mailbag t1 = mailbag (t0 @ [RoundPersisted r]) @ accepted t3"
    using mailbag_open [OF w(2), of "t0 @ [RoundPersisted r]"] w(1) by simp
  then have "os = mailbag t1" using w(3) by simp
  moreover have "r' = r" if "OnionAccepted r' onion \<in> set t3" for r' onion
    using w(2) that by (auto simp: list_all_iff open_event_def)
  ultimately show ?thesis using w by blast
qed

section \<open>A sample run\<close>

text \<open>The inputs of a run in which no sleep ends early: answers to the loop and onions of clients.\<close>

fun co_play :: "('vk, 'gk) co_env \<Rightarrow> ('pk answer + u32 \<times> bytes) list \<Rightarrow> 'pk coordinator \<Rightarrow>
    ('pk coordinator \<times> 'pk co_event list) option" where
  "co_play E [] s = Some (s, [])"
| "co_play E (Inl a # ins) s =
     (case loop_step E a s of None \<Rightarrow> None
      | Some (s1, evs) \<Rightarrow> (case co_play E ins s1 of None \<Rightarrow> None | Some (s2, evs') \<Rightarrow> Some (s2, evs @ evs')))"
| "co_play E (Inr (round, onion) # ins) s =
     (case incomingOnion round onion s of
        (s1, evs) \<Rightarrow> (case co_play E ins s1 of None \<Rightarrow> None | Some (s2, evs') \<Rightarrow> Some (s2, evs @ evs')))"

lemma co_play_run:
  assumes "co_run E s0 tr s" and "co_play E ins s = Some (s', evs)" and "Inl (Slept False) \<notin> set ins"
  shows "co_run E s0 (tr @ evs) s'"
  using assms
proof (induction ins arbitrary: tr s evs)
  case (Cons i ins)
  show ?case
  proof (cases i)
    case (Inl a)
    obtain s1 e1 e2 where st: "loop_step E a s = Some (s1, e1)" "co_play E ins s1 = Some (s', e2)" "evs = e1 @ e2"
      using Cons.prems(2) Inl by (auto split: option.splits)
    have "co_run E s0 (tr @ e1) s1"
      by (rule co_loop [OF Cons.prems(1) st(1)]) (use Cons.prems(3) Inl in auto)
    then show ?thesis using Cons.IH [of "tr @ e1" s1 e2] st Cons.prems(3) by simp
  next
    case (Inr p)
    obtain round onion where p: "p = (round, onion)" by (cases p)
    obtain s1 e1 e2 where st: "incomingOnion round onion s = (s1, e1)" "co_play E ins s1 = Some (s', e2)" "evs = e1 @ e2"
      using Cons.prems(2) Inr p by (auto split: option.splits prod.splits)
    show ?thesis using Cons.IH [OF co_onion [OF Cons.prems(1) st(1)] st(2)] st(3) Cons.prems(3) by simp
  qed
qed simp

definition demo_co_env :: "(bytes, bytes) co_env" where
  "demo_co_env = \<lparr>ce_cfg = demo_env (\<lambda>_. Some []) (\<lambda>_. []), ce_sd_json = (\<lambda>_. []),
     ce_state_json = \<lparr>cj_enc = be32, cj_dec = (\<lambda>b. Some (get_be32 b))\<rparr>, ce_co_base32 = bytes_str\<rparr>"

definition demo_server :: "nat coordinator" where
  "demo_server = \<lparr>co_Service = ''Dialing'', co_NumMailboxes = 1, co_round = 5, co_onions = [], co_closed = False,
     co_latestMixRound = None, co_latestPKGRound = None, co_pos = AtTop,
     co_file = Some (persisted_bytes (ce_state_json demo_co_env) 5)\<rparr>"

definition demo_dialing :: DialingConfig where
  "demo_dialing = \<lparr>dc_Version = 1, dc_Coordinator = \<lparr>ka_Key = replicate 32 1, ka_Address = ''c''\<rparr>,
     dc_MixServers = [\<lparr>ka_Key = [4], ka_Address = ''m''\<rparr>], dc_CDNServer = \<lparr>ka_Key = [3], ka_Address = ''d''\<rparr>\<rparr>"

definition demo_inputs :: "(nat answer + u32 \<times> bytes) list" where
  "demo_inputs = [Inr (5, [7]), Inl (GotConfig (Some ((demo_config 1 '''' 1 Map.empty)\<lparr>sc_Inner := Some (InnerDialing demo_dialing)\<rparr>))), Inl (Wrote True), Inl Go,
     Inr (5, [8]), Inr (6, [9]), Inl (CdnStatus (Some 200)), Inl (GotMix (Some ([[1]], [[2]]))), Inl (Slept True)]"

lemma demo_loop_conf:
  "loop_config (ce_cfg demo_co_env) (ce_sd_json demo_co_env) demo_server
     ((demo_config 1 '''' 1 Map.empty)\<lparr>sc_Inner := Some (InnerDialing demo_dialing)\<rparr>) =
   Ok \<lparr>lc_configHash = bytes_str (replicate 32 0), lc_mixServers = dc_MixServers demo_dialing,
     lc_cdnServer = dc_CDNServer demo_dialing, lc_pkgServers = [],
     lc_rawServiceData = ServiceData_Marshal (\<lambda>_. []) \<lparr>sd_CDNKey = [3], sd_CDNAddress = ''d'', sd_NumMailboxes = 1\<rparr>\<rparr>"
  by (simp add: loop_config_def config_Hash_def SigningMessage_def demo_co_env_def demo_env_def demo_server_def fixed_def
      demo_dialing_def)

lemma demo_co_run:
  obtains t1 s where
    "co_run demo_co_env demo_server (t1 @ RoundStarted \<lparr>ka_Key = [4], ka_Address = ''m''\<rparr> 6 [[7], [9]] # []) s"
    "persists (t1 @ RoundStarted \<lparr>ka_Key = [4], ka_Address = ''m''\<rparr> 6 [[7], [9]] # []) = [6]"
    "announced (t1 @ RoundStarted \<lparr>ka_Key = [4], ka_Address = ''m''\<rparr> 6 [[7], [9]] # []) = [6]"
    "OnionAccepted 5 [7] \<in> set t1" "SendWrongRound 5 \<in> set t1"
proof -
  let ?m = "\<lparr>mr_MixSettings = mix_settings demo_server \<lparr>lc_configHash = bytes_str (replicate 32 0),
      lc_mixServers = dc_MixServers demo_dialing, lc_cdnServer = dc_CDNServer demo_dialing, lc_pkgServers = [],
      lc_rawServiceData = ServiceData_Marshal (\<lambda>_. []) \<lparr>sd_CDNKey = [3], sd_CDNAddress = ''d'', sd_NumMailboxes = 1\<rparr>\<rparr>
      6 [[1]], mr_MixSignatures = [[2]]\<rparr>"
  let ?cdn = "prepCDN bytes_str \<lparr>ka_Key = [3], ka_Address = ''d''\<rparr> \<lparr>ka_Key = [4], ka_Address = ''m''\<rparr> ''Dialing'' 6"
  let ?t = "[OnionAccepted 5 [7], RoundPersisted 6, BroadcastNewRound 6 (bytes_str (replicate 32 0)), SendWrongRound 5,
      OnionAccepted 6 [9], PostNewBucket (fst ?cdn) (snd ?cdn), BroadcastMix ?m]"
  have "\<exists>s. co_play demo_co_env demo_inputs demo_server =
      Some (s, ?t @ [RoundStarted \<lparr>ka_Key = [4], ka_Address = ''m''\<rparr> 6 [[7], [9]]])"
    using demo_loop_conf
    by (simp add: demo_inputs_def loop_step_def incomingOnion_def demo_server_def persistLocked_def Let_def
        loop_config_def demo_dialing_def demo_co_env_def mix_settings_def prepCDN_def after_sleep_def)
  then obtain s where p: "co_play demo_co_env demo_inputs demo_server =
      Some (s, ?t @ [RoundStarted \<lparr>ka_Key = [4], ka_Address = ''m''\<rparr> 6 [[7], [9]]])" by blast
  show thesis
    by (rule that [of ?t s]) (use co_play_run [OF co_start p] in \<open>simp_all add: demo_inputs_def\<close>)
qed

lemma rounds_never_reused_witness:
  "\<exists>tr s. co_run demo_co_env demo_server tr s \<and> persists tr = [6] \<and> announced tr = [6] \<and>
     persists tr = map (\<lambda>i. 5 + word_of_nat (Suc i)) [0..<length (persists tr)] \<and> distinct (announced tr)"
proof -
  obtain t1 s where r: "co_run demo_co_env demo_server (t1 @ RoundStarted \<lparr>ka_Key = [4], ka_Address = ''m''\<rparr> 6 [[7], [9]] # []) s"
    and p: "persists (t1 @ RoundStarted \<lparr>ka_Key = [4], ka_Address = ''m''\<rparr> 6 [[7], [9]] # []) = [6]"
      "announced (t1 @ RoundStarted \<lparr>ka_Key = [4], ka_Address = ''m''\<rparr> 6 [[7], [9]] # []) = [6]"
    by (rule demo_co_run)
  let ?tr = "t1 @ RoundStarted \<lparr>ka_Key = [4], ka_Address = ''m''\<rparr> 6 [[7], [9]] # []"
  have "cj_dec (ce_state_json demo_co_env) (cj_enc (ce_state_json demo_co_env) x) = Some x" for x
    by (simp add: demo_co_env_def)
  moreover have "co_file demo_server = Some (persisted_bytes (ce_state_json demo_co_env) 5)" "co_round demo_server = 5"
    "co_pos demo_server = AtTop" by (simp_all add: demo_server_def)
  ultimately have "persists ?tr = map (\<lambda>i. 5 + word_of_nat (Suc i)) [0..<length (persists ?tr)]"
    using rounds_never_reused [OF _ _ _ _ r] by blast
  then show ?thesis using r p by (intro exI [of _ ?tr] exI [of _ s]) simp
qed

lemma batch_contents_witness:
  "\<exists>t1 s t0 t3. co_run demo_co_env demo_server (t1 @ RoundStarted \<lparr>ka_Key = [4], ka_Address = ''m''\<rparr> 6 [[7], [9]] # []) s \<and>
     t1 = t0 @ RoundPersisted 6 # t3 \<and> [[7], [9]] = mailbag t0 @ accepted t3"
proof -
  obtain t1 s where r: "co_run demo_co_env demo_server (t1 @ RoundStarted \<lparr>ka_Key = [4], ka_Address = ''m''\<rparr> 6 [[7], [9]] # []) s"
    by (rule demo_co_run)
  have "co_onions demo_server = []" "co_pos demo_server = AtTop" by (simp_all add: demo_server_def)
  from batch_contents [OF this r] show ?thesis using r by blast
qed

end
