(* ===== verification/Intro.thy ===== *)
theory Intro
  imports PkgServer Identity
begin

text \<open>
  The add-friend introductions (src/intro.go): the 228-byte form the client sends, and the hybrid
  form of 6580 bytes with its two signatures. BLS, Ed25519 and ML-DSA are parameters.
\<close>

section \<open>The classical introduction\<close>

record introduction =
  in_Username :: bytes
  in_DHPublicKey :: bytes
  in_DialingRound :: u32
  in_LongTermKey :: bytes
  in_Signature :: bytes
  in_ServerMultisig :: bytes

definition sizeIntro :: nat where "sizeIntro = 64 + 32 + 4 + 32 + 64 + 32"

definition introduction_MarshalBinary :: "introduction \<Rightarrow> bytes" where
  "introduction_MarshalBinary i = concat [in_Username i, in_DHPublicKey i, be32 (in_DialingRound i),
     in_LongTermKey i, in_Signature i, in_ServerMultisig i]"

text \<open>\<open>binary.Read\<close> needs the size of the struct and leaves what follows.\<close>

definition introduction_UnmarshalBinary :: "bytes \<Rightarrow> (unit, introduction) outcome" where
  "introduction_UnmarshalBinary d =
     (if length d < sizeIntro then Err ()
      else (case split_fields [64, 32, 4, 32, 64, 32] d of
              [u, dh, r, k, s, m] \<Rightarrow>
                Ok \<lparr>in_Username = u, in_DHPublicKey = dh, in_DialingRound = get_be32 r, in_LongTermKey = k,
                  in_Signature = s, in_ServerMultisig = m\<rparr>
            | _ \<Rightarrow> Err ()))"

definition introduction_msg :: "introduction \<Rightarrow> bytes" where
  "introduction_msg i = str_bytes ''Introduction'' @ in_Username i @ in_DHPublicKey i @ be32 (in_DialingRound i)"

definition introduction_Sign :: "(bytes \<Rightarrow> bytes \<Rightarrow> bytes) \<Rightarrow> bytes \<Rightarrow> introduction \<Rightarrow> introduction" where
  "introduction_Sign ed_sign key i = i\<lparr>in_Signature := copy_into (in_Signature i) (ed_sign key (introduction_msg i))\<rparr>"

text \<open>What the key generators attested to: the username and the long-term key, under each of their keys.\<close>

definition attestation_msgs ::
  "('mpk, 'msk, 'bpk, 'bsk) pkg_env \<Rightarrow> bytes \<Rightarrow> bytes \<Rightarrow> 'bpk list \<Rightarrow> bytes list" where
  "attestation_msgs E username longTermKey serverKeys = map (\<lambda>key. Attestation_Marshal E key username longTermKey) serverKeys"

text \<open>\<open>bls_verify\<close> is \<open>bls.VerifyCompressed\<close>.\<close>

definition introduction_Verify ::
  "('mpk, 'msk, 'bpk, 'bsk) pkg_env \<Rightarrow> ('bpk list \<Rightarrow> bytes list \<Rightarrow> bytes \<Rightarrow> bool) \<Rightarrow> 'bpk list \<Rightarrow> introduction \<Rightarrow> bool" where
  "introduction_Verify E bls_verify serverKeys i =
     (let msgs = attestation_msgs E (in_Username i) (in_LongTermKey i) serverKeys;
          ok1 = bls_verify serverKeys msgs (in_ServerMultisig i);
          ok2 = pe_ed_verify E (in_LongTermKey i) (introduction_msg i) (in_Signature i)
      in ok1 \<and> ok2)"

section \<open>The hybrid introduction\<close>

definition introductionV2Version :: byte where "introductionV2Version = 2"

definition SizeIntroV2 :: nat where
  "SizeIntroV2 = 1 + 64 + 32 + pqkem_CiphertextSize + 4 + 32 + pqsig_PublicKeySize + 64 + pqsig_SignatureSize + 32 + 2"

definition introductionSigPrefix :: string where "introductionSigPrefix = ''NeverlurIntroductionV2''"

record introductionV2 =
  v2_Version :: byte
  v2_Username :: bytes
  v2_DHPublicKey :: bytes
  v2_MLKEMCiphertext :: bytes
  v2_DialingRound :: u32
  v2_LongTermKey :: bytes
  v2_LongTermKeyPQ :: bytes
  v2_Signature :: bytes
  v2_SignaturePQ :: bytes
  v2_ServerMultisig :: bytes
  v2_Reserved :: bytes

datatype intro_error =
  ErrIntroV2Version byte | ErrIntroV2Size nat | ProducedBytes nat | ErrNoPrivateKey | Ed25519Length nat
| PqSign pq_error | PqLength nat | Ed25519NotVerified | BadPqKey pq_error | PqNotVerified | MultisigNotVerified

definition v2_layout :: "nat list" where
  "v2_layout = [1, 64, 32, pqkem_CiphertextSize, 4, 32, pqsig_PublicKeySize, 64, pqsig_SignatureSize, 32, 2]"

definition v2_bytes :: "introductionV2 \<Rightarrow> bytes" where
  "v2_bytes i = concat [[v2_Version i], v2_Username i, v2_DHPublicKey i, v2_MLKEMCiphertext i, be32 (v2_DialingRound i),
     v2_LongTermKey i, v2_LongTermKeyPQ i, v2_Signature i, v2_SignaturePQ i, v2_ServerMultisig i, v2_Reserved i]"

text \<open>Marshaling sets the version of the value it is called on.\<close>

definition introductionV2_MarshalBinary :: "introductionV2 \<Rightarrow> introductionV2 \<times> (intro_error, bytes) outcome" where
  "introductionV2_MarshalBinary i =
     (let i' = i\<lparr>v2_Version := introductionV2Version\<rparr>; buf = v2_bytes i'
      in (i', if length buf \<noteq> SizeIntroV2 then Err (ProducedBytes (length buf)) else Ok buf))"

definition introductionV2_UnmarshalBinary :: "bytes \<Rightarrow> (intro_error, introductionV2) outcome" where
  "introductionV2_UnmarshalBinary d =
     (if length d \<noteq> SizeIntroV2 then Err (ErrIntroV2Size (length d))
      else if d ! 0 \<noteq> introductionV2Version then Err (ErrIntroV2Version (d ! 0))
      else (case split_fields v2_layout d of
              [v, u, dh, ct, r, k, kpq, s, spq, m, z] \<Rightarrow>
                Ok \<lparr>v2_Version = hd v, v2_Username = u, v2_DHPublicKey = dh, v2_MLKEMCiphertext = ct,
                  v2_DialingRound = get_be32 r, v2_LongTermKey = k, v2_LongTermKeyPQ = kpq, v2_Signature = s,
                  v2_SignaturePQ = spq, v2_ServerMultisig = m, v2_Reserved = z\<rparr>
            | _ \<Rightarrow> Err (ErrIntroV2Size (length d))))"

definition signedMsg :: "(bytes \<Rightarrow> bytes) \<Rightarrow> introductionV2 \<Rightarrow> bytes" where
  "signedMsg sha512 i =
     (let keyHash = fixed 64 (sha512 (v2_LongTermKey i @ v2_LongTermKeyPQ i))
      in str_bytes introductionSigPrefix @ [v2_Version i] @ v2_Username i @ v2_DHPublicKey i @ v2_MLKEMCiphertext i @
         be32 (v2_DialingRound i) @ keyHash)"

text \<open>
  \<open>Sign\<close> with what it leaves in the introduction. A nil identity and nil keys are \<open>None\<close>;
  \<open>ed25519.Sign\<close> panics on a key that does not have 64 bytes. \<open>coins\<close> are ML-DSA's.
\<close>

definition introductionV2_Sign ::
  "(bytes \<Rightarrow> bytes) \<Rightarrow> (bytes \<Rightarrow> bytes \<Rightarrow> bytes) \<Rightarrow> ('vk, 'gk) mldsa \<Rightarrow> bytes \<Rightarrow>
   ('vk, 'gk, 'pk, 'sk) HybridIdentity option \<Rightarrow> introductionV2 \<Rightarrow> introductionV2 \<times> (intro_error, unit) outcome" where
  "introductionV2_Sign sha512 ed_sign D coins ident i =
     (case (Option.bind ident EdPriv, Option.bind ident PQPriv) of
        (Some edPriv, Some pqPriv) \<Rightarrow>
          (let i1 = i\<lparr>v2_Version := introductionV2Version\<rparr>; msg = signedMsg sha512 i1; sigEd = ed_sign edPriv msg in
           if length edPriv \<noteq> 64 then (i1, Panic)
           else if length sigEd \<noteq> length (v2_Signature i1) then (i1, Err (Ed25519Length (length sigEd)))
           else (let i2 = i1\<lparr>v2_Signature := copy_into (v2_Signature i1) sigEd\<rparr> in
             case pqsig_Sign D coins (Some pqPriv) msg of
               Err e \<Rightarrow> (i2, Err (PqSign e)) | Panic \<Rightarrow> (i2, Panic)
             | Ok sigPQ \<Rightarrow>
                 if length sigPQ \<noteq> length (v2_SignaturePQ i2) then (i2, Err (PqLength (length sigPQ)))
                 else (i2\<lparr>v2_SignaturePQ := copy_into (v2_SignaturePQ i2) sigPQ\<rparr>, Ok ())))
      | _ \<Rightarrow> (i, Err ErrNoPrivateKey))"

definition introductionV2_Verify ::
  "(bytes \<Rightarrow> bytes) \<Rightarrow> ('mpk, 'msk, 'bpk, 'bsk) pkg_env \<Rightarrow> ('vk, 'gk) mldsa \<Rightarrow>
   ('bpk list \<Rightarrow> bytes list \<Rightarrow> bytes \<Rightarrow> bool) \<Rightarrow> 'bpk list \<Rightarrow> introductionV2 \<Rightarrow> (intro_error, unit) outcome" where
  "introductionV2_Verify sha512 E D bls_verify serverKeys i =
     (if v2_Version i \<noteq> introductionV2Version then Err (ErrIntroV2Version (v2_Version i))
      else (let msg = signedMsg sha512 i in
        if \<not> pe_ed_verify E (v2_LongTermKey i) msg (v2_Signature i) then Err Ed25519NotVerified
        else (case pqsig_UnpackPublicKey D (v2_LongTermKeyPQ i) of
                Err e \<Rightarrow> Err (BadPqKey e) | Panic \<Rightarrow> Panic
              | Ok pqPub \<Rightarrow>
                  if \<not> pqsig_Verify D (Some pqPub) msg (v2_SignaturePQ i) then Err PqNotVerified
                  else if \<not> bls_verify serverKeys (attestation_msgs E (v2_Username i) (v2_LongTermKey i) serverKeys)
                              (v2_ServerMultisig i) then Err MultisigNotVerified
                  else Ok ())))"

section \<open>Lemmas\<close>

text \<open>The fields have the sizes of their arrays.\<close>

definition introduction_wf :: "introduction \<Rightarrow> bool" where
  "introduction_wf i \<longleftrightarrow> map length [in_Username i, in_DHPublicKey i, in_LongTermKey i, in_Signature i, in_ServerMultisig i] =
     [64, 32, 32, 64, 32]"

definition v2_wf :: "introductionV2 \<Rightarrow> bool" where
  "v2_wf i \<longleftrightarrow> map length [v2_Username i, v2_DHPublicKey i, v2_MLKEMCiphertext i, v2_LongTermKey i, v2_LongTermKeyPQ i,
     v2_Signature i, v2_SignaturePQ i, v2_ServerMultisig i, v2_Reserved i] =
     [64, 32, pqkem_CiphertextSize, 32, pqsig_PublicKeySize, 64, pqsig_SignatureSize, 32, 2]"

lemma introduction_parse:
  assumes "introduction_wf i"
  shows "introduction_UnmarshalBinary (introduction_MarshalBinary i @ rest) = Ok i"
proof -
  have l: "map length [in_Username i, in_DHPublicKey i, be32 (in_DialingRound i), in_LongTermKey i, in_Signature i,
      in_ServerMultisig i] = [64, 32, 4, 32, 64, 32]" using assms by (simp add: introduction_wf_def)
  have "\<not> length (introduction_MarshalBinary i @ rest) < sizeIntro"
    using l by (simp add: introduction_MarshalBinary_def sizeIntro_def)
  then show ?thesis
    using split_fields_concat [OF l, of rest] by (simp add: introduction_UnmarshalBinary_def introduction_MarshalBinary_def del: split_fields.simps)
qed

interpretation intro1: codec introduction_MarshalBinary introduction_UnmarshalBinary introduction_wf
  using introduction_parse [where rest = "[]"] by unfold_locales simp

lemma introduction_parsed_wf: "introduction_UnmarshalBinary d = Ok i \<Longrightarrow> introduction_wf i"
  by (auto simp: introduction_UnmarshalBinary_def sizeIntro_def introduction_wf_def split: if_splits)
lemma v2_layout_lengths:
  "v2_wf i \<Longrightarrow> map length [[v2_Version i], v2_Username i, v2_DHPublicKey i, v2_MLKEMCiphertext i, be32 (v2_DialingRound i),
     v2_LongTermKey i, v2_LongTermKeyPQ i, v2_Signature i, v2_SignaturePQ i, v2_ServerMultisig i, v2_Reserved i] = v2_layout"
  by (simp add: v2_wf_def v2_layout_def)

lemma sum_v2_layout: "sum_list v2_layout = SizeIntroV2"
  by (simp add: v2_layout_def SizeIntroV2_def)

lemma length_v2_bytes: "v2_wf i \<Longrightarrow> length (v2_bytes i) = SizeIntroV2"
  unfolding v2_bytes_def length_concat by (simp only: v2_layout_lengths sum_v2_layout)

lemma v2_fields: "v2_wf i \<Longrightarrow> split_fields v2_layout (v2_bytes i) = [[v2_Version i], v2_Username i, v2_DHPublicKey i,
    v2_MLKEMCiphertext i, be32 (v2_DialingRound i), v2_LongTermKey i, v2_LongTermKeyPQ i, v2_Signature i,
    v2_SignaturePQ i, v2_ServerMultisig i, v2_Reserved i]"
  unfolding v2_bytes_def using split_fields_concat [OF v2_layout_lengths, of i "[]"] by (simp only: append_Nil2)

lemma v2_first: "v2_bytes i ! 0 = v2_Version i"
  by (simp add: v2_bytes_def)

lemma v2_parse: "v2_wf i \<Longrightarrow> v2_Version i = introductionV2Version \<Longrightarrow> introductionV2_UnmarshalBinary (v2_bytes i) = Ok i"
  by (simp add: introductionV2_UnmarshalBinary_def length_v2_bytes v2_first v2_fields)

lemma v2_parsed:
  assumes "introductionV2_UnmarshalBinary d = Ok i"
  shows "v2_wf i \<and> v2_Version i = introductionV2Version \<and> v2_bytes i = d"
proof -
  have l: "length d = SizeIntroV2" and v: "d ! 0 = introductionV2Version"
    using assms by (auto simp: introductionV2_UnmarshalBinary_def split: if_splits)
  obtain v u dh ct r k kpq s spq m z where f: "split_fields v2_layout d = [v, u, dh, ct, r, k, kpq, s, spq, m, z]"
    by (simp add: v2_layout_def)
  have i: "i = \<lparr>v2_Version = hd v, v2_Username = u, v2_DHPublicKey = dh, v2_MLKEMCiphertext = ct,
      v2_DialingRound = get_be32 r, v2_LongTermKey = k, v2_LongTermKeyPQ = kpq, v2_Signature = s,
      v2_SignaturePQ = spq, v2_ServerMultisig = m, v2_Reserved = z\<rparr>"
    using assms l v by (simp add: introductionV2_UnmarshalBinary_def f)
  have n: "map length [v, u, dh, ct, r, k, kpq, s, spq, m, z] = v2_layout"
    using length_split_fields [of v2_layout d] l by (simp add: f sum_v2_layout)
  have c: "concat [v, u, dh, ct, r, k, kpq, s, spq, m, z] = d"
    using concat_split_fields [of v2_layout d] l by (simp only: f sum_v2_layout) simp
  obtain b where b: "v = [b]" using n by (auto simp: v2_layout_def length_Suc_conv)
  have "be32 (get_be32 r) = r" using n by (simp add: v2_layout_def be32_get_be32)
  then have "v2_bytes i = d" using c b by (simp add: i v2_bytes_def)
  moreover have "v2_wf i" using n by (simp add: i v2_wf_def v2_layout_def)
  moreover have "v2_Version i = introductionV2Version" using v c b by (auto simp: i)
  ultimately show ?thesis by simp
qed

section \<open>Properties\<close>

text \<open>
  C39: the hybrid format is exact. What parses is a version 2 introduction with fields of the right
  sizes and is its own encoding, byte for byte; and every such introduction parses from its encoding.
  So no other length or version is read, nothing is filled in or ignored, and no two inputs give one
  introduction.
\<close>

theorem intro_v2_exact:
  "introductionV2_UnmarshalBinary d = Ok i \<longleftrightarrow>
     v2_wf i \<and> v2_Version i = 2 \<and> introductionV2_MarshalBinary i = (i, Ok d)"
proof
  assume "introductionV2_UnmarshalBinary d = Ok i"
  then have "v2_wf i" "v2_Version i = introductionV2Version" "v2_bytes i = d" using v2_parsed by auto
  moreover from this have "i\<lparr>v2_Version := introductionV2Version\<rparr> = i" by (cases i) simp
  then have "introductionV2_MarshalBinary i = (i, if length (v2_bytes i) \<noteq> SizeIntroV2
      then Err (ProducedBytes (length (v2_bytes i))) else Ok (v2_bytes i))"
    by (simp only: introductionV2_MarshalBinary_def Let_def)
  ultimately show "v2_wf i \<and> v2_Version i = 2 \<and> introductionV2_MarshalBinary i = (i, Ok d)"
    using length_v2_bytes [of i] by (simp add: introductionV2Version_def)
next
  assume a: "v2_wf i \<and> v2_Version i = 2 \<and> introductionV2_MarshalBinary i = (i, Ok d)"
  then have e: "i\<lparr>v2_Version := introductionV2Version\<rparr> = i" by (cases i) (simp add: introductionV2Version_def)
  have "introductionV2_MarshalBinary i = (i, Ok d)" using a by simp
  then have "v2_bytes i = d"
    unfolding introductionV2_MarshalBinary_def Let_def e by (auto split: if_splits)
  then show "introductionV2_UnmarshalBinary d = Ok i" using a v2_parse [of i] by (simp add: introductionV2Version_def)
qed

text \<open>
  The signed bytes of two introductions only agree if version, username, X25519 key, ML-KEM
  ciphertext and dialing round do, and the hash of both long-term keys; only the signatures, the
  multisignature and the padding are not covered.
\<close>

theorem intro_v2_binding:
  assumes "v2_wf i" and "v2_wf j" and "signedMsg sha512 i = signedMsg sha512 j"
  shows "(v2_Version i, v2_Username i, v2_DHPublicKey i, v2_MLKEMCiphertext i, v2_DialingRound i) =
     (v2_Version j, v2_Username j, v2_DHPublicKey j, v2_MLKEMCiphertext j, v2_DialingRound j) \<and>
     fixed 64 (sha512 (v2_LongTermKey i @ v2_LongTermKeyPQ i)) = fixed 64 (sha512 (v2_LongTermKey j @ v2_LongTermKeyPQ j))"
proof -
  have l: "length (v2_Username i) = length (v2_Username j)" "length (v2_DHPublicKey i) = length (v2_DHPublicKey j)"
    "length (v2_MLKEMCiphertext i) = length (v2_MLKEMCiphertext j)" "length (v2_LongTermKey i) = length (v2_LongTermKey j)"
    using assms(1,2) by (simp_all add: v2_wf_def)
  show ?thesis using assms(3) l by (auto simp: signedMsg_def Let_def append_split_eq)
qed

lemma signedMsg_signatures [simp]:
  "signedMsg sha512 (i\<lparr>v2_Signature := s\<rparr>) = signedMsg sha512 i"
  "signedMsg sha512 (i\<lparr>v2_SignaturePQ := s\<rparr>) = signedMsg sha512 i"
  by (simp_all add: signedMsg_def)

text \<open>
  C35: an introduction signed by a hybrid identity whose public halves it carries is signed without
  an error, comes out of its encoding as it was signed, and is accepted by the receiver exactly when
  the key generators' multisignature is: \<open>Verify\<close> fails with the multisignature error and no other.
\<close>

theorem intro_v2_signed_accepted:
  assumes "ident = Some hid" and "EdPriv hid = Some edPriv" and "PQPriv hid = Some pqPriv" and "length edPriv = 64"
    and "\<And>msg. length (ed_sign edPriv msg) = 64 \<and> pe_ed_verify E edPub msg (ed_sign edPriv msg)"
    and "\<And>msg. \<exists>s. dsa_SignTo D pqPriv msg (Some coins) = Some s \<and> length s = pqsig_SignatureSize \<and> dsa_Verify D pqPub msg s"
    and "dsa_UnpackPub D (v2_LongTermKeyPQ i) = pqPub" and "v2_LongTermKey i = edPub" and "v2_wf i"
    and "introductionV2_Sign sha512 ed_sign D coins ident i = (i', r)"
  shows "r = Ok () \<and> (\<exists>d. introductionV2_MarshalBinary i' = (i', Ok d) \<and> introductionV2_UnmarshalBinary d = Ok i') \<and>
     introductionV2_Verify sha512 E D bls_verify keys i' =
       (if bls_verify keys (attestation_msgs E (v2_Username i) edPub keys) (v2_ServerMultisig i) then Ok ()
        else Err MultisigNotVerified)"
proof -
  let ?i1 = "i\<lparr>v2_Version := introductionV2Version\<rparr>"
  let ?msg = "signedMsg sha512 ?i1"
  obtain s where s: "dsa_SignTo D pqPriv ?msg (Some coins) = Some s" "length s = pqsig_SignatureSize" "dsa_Verify D pqPub ?msg s"
    using assms(6) by blast
  have l: "length (v2_Signature i) = 64" "length (v2_SignaturePQ i) = pqsig_SignatureSize"
    "length (v2_LongTermKeyPQ i) = pqsig_PublicKeySize" using assms(9) by (simp_all add: v2_wf_def)
  have r: "i' = ?i1\<lparr>v2_Signature := ed_sign edPriv ?msg, v2_SignaturePQ := s\<rparr>" "r = Ok ()"
    using assms(10) assms(1-4) assms(5) [of ?msg] s l
    by (simp_all add: introductionV2_Sign_def pqsig_Sign_def sign_buffer_def Let_def)
  have w: "v2_wf i'" "v2_Version i' = introductionV2Version"
    using assms(5) [of ?msg] assms(9) s(2) by (simp_all add: r(1) v2_wf_def)
  have m: "signedMsg sha512 i' = ?msg" by (simp add: r(1))
  have "introductionV2_UnmarshalBinary (v2_bytes i') = Ok i'" using v2_parse [OF w] .
  moreover have "introductionV2_MarshalBinary i' = (i', Ok (v2_bytes i'))"
    using length_v2_bytes [OF w(1)] w(2) by (cases i') (simp add: introductionV2_MarshalBinary_def Let_def)
  moreover have "introductionV2_Verify sha512 E D bls_verify keys i' =
       (if bls_verify keys (attestation_msgs E (v2_Username i) edPub keys) (v2_ServerMultisig i) then Ok ()
        else Err MultisigNotVerified)"
    using assms(5) [of ?msg] assms(7,8) s(2,3) l w(2) m
    by (simp add: introductionV2_Verify_def Let_def pqsig_UnpackPublicKey_def pqsig_Verify_def) (simp add: r(1))
  ultimately show ?thesis using r(2) by blast
qed

section \<open>Instances\<close>

definition demo_v2 :: introductionV2 where
  "demo_v2 = \<lparr>v2_Version = 0, v2_Username = replicate 64 1, v2_DHPublicKey = replicate 32 2,
     v2_MLKEMCiphertext = replicate 1088 3, v2_DialingRound = 7, v2_LongTermKey = replicate 32 9,
     v2_LongTermKeyPQ = replicate 1952 4, v2_Signature = replicate 64 0, v2_SignaturePQ = replicate 3309 0,
     v2_ServerMultisig = replicate 32 5, v2_Reserved = [0, 0]\<rparr>"

definition demo_hybrid :: "(bytes, bytes, nat, nat) HybridIdentity" where
  "demo_hybrid = \<lparr>EdPub = replicate 32 9, EdPriv = Some (replicate 64 9), PQPub = Some (replicate 32 4),
     PQPriv = Some (replicate 32 4), MLKEMPub = Some 0, MLKEMPriv = Some 0, Created = 3\<rparr>"

definition demo_intro_env :: "(bytes, bytes, bytes, bytes) pkg_env" where
  "demo_intro_env = demo_pkg_env\<lparr>pe_ed_verify := (\<lambda>k m s. s = fixed 64 (k @ m))\<rparr>"

definition demo_ed_sign :: "bytes \<Rightarrow> bytes \<Rightarrow> bytes" where
  "demo_ed_sign priv msg = fixed 64 (take 32 priv @ msg)"

lemma demo_v2_wf: "v2_wf demo_v2"
  by (simp add: v2_wf_def demo_v2_def pq_sizes)

lemma intro_v2_signed_accepted_witness:
  "\<exists>i' d. introductionV2_Sign (\<lambda>b. b) demo_ed_sign toy_dsa [] (Some demo_hybrid) demo_v2 = (i', Ok ()) \<and>
     introductionV2_UnmarshalBinary d = Ok i' \<and>
     introductionV2_Verify (\<lambda>b. b) demo_intro_env toy_dsa (\<lambda>_ _ _. True) [[1], [2]] i' = Ok ()"
proof -
  obtain i' r where s: "introductionV2_Sign (\<lambda>b. b) demo_ed_sign toy_dsa [] (Some demo_hybrid) demo_v2 = (i', r)"
    by (cases "introductionV2_Sign (\<lambda>b. b) demo_ed_sign toy_dsa [] (Some demo_hybrid) demo_v2") auto
  have "r = Ok () \<and> (\<exists>d. introductionV2_MarshalBinary i' = (i', Ok d) \<and> introductionV2_UnmarshalBinary d = Ok i') \<and>
     introductionV2_Verify (\<lambda>b. b) demo_intro_env toy_dsa (\<lambda>_ _ _. True) [[1], [2]] i' =
       (if (\<lambda>_ _ _. True) [[1], [2]] (attestation_msgs demo_intro_env (v2_Username demo_v2) (replicate 32 9) [[1], [2]])
          (v2_ServerMultisig demo_v2) then Ok () else Err MultisigNotVerified)"
    by (rule intro_v2_signed_accepted [OF refl _ _ _ _ _ _ _ demo_v2_wf s, where pqPub = "replicate 32 4" and edPriv = "replicate 64 9" and pqPriv = "replicate 32 4"])
      (simp_all add: demo_hybrid_def demo_ed_sign_def demo_intro_env_def toy_dsa_def pq_sizes demo_v2_def)
  then show ?thesis using s by auto
qed

lemma intro_v2_binding_witness:
  "v2_DialingRound demo_v2 = v2_DialingRound (demo_v2\<lparr>v2_Signature := replicate 64 8\<rparr>)"
  using intro_v2_binding [of demo_v2 "demo_v2\<lparr>v2_Signature := replicate 64 8\<rparr>" "\<lambda>b. b"]
  by (simp add: v2_wf_def demo_v2_def pq_sizes)

end
