(* ===== verification/Client.thy ===== *)
theory Client
  imports Keywheel Intro PkgClient ConfigServer Coordinator
begin

text \<open>
  The client of the library (src/client.go, src/friend.go, src/friendrequest.go, src/persist.go,
  src/bootstrap.go): its address book, the queues of friend requests and calls, the keywheel, and the
  two files it writes. A pointer is a number: requests are immutable and stand in the queues with
  theirs, calls and friends are objects in a store. A method that holds the mutex is one step.
\<close>

section \<open>Objects\<close>

type_synonym ref = nat

record Friend =
  fr_Username :: string
  fr_LongTermKey :: bytes
  fr_extraData :: bytes

record OutgoingFriendRequest =
  or_Username :: string
  or_ExpectedKey :: bytes
  or_Confirmation :: bool
  or_DialRound :: u32

record sentFriendRequest =
  sr_Username :: string
  sr_ExpectedKey :: bytes
  sr_Confirmation :: bool
  sr_DialRound :: u32
  sr_SentRound :: u32
  sr_DHPublicKey :: bytes
  sr_DHPrivateKey :: bytes

record IncomingFriendRequest =
  ir_Username :: string
  ir_LongTermKey :: bytes
  ir_DHPublicKey :: bytes
  ir_DialRound :: u32
  ir_Verifiers :: "keyAddr list"

record IncomingCall =
  ic_Username :: string
  ic_Intent :: int
  ic_Round :: u32
  ic_SessionKey :: "bytes option"

record OutgoingCall =
  oc_Username :: string
  oc_Created :: int
  oc_intent :: int
  oc_sentRound :: u32
  oc_dialToken :: "bytes option"
  oc_sessionKey :: "bytes option"

text \<open>
  What the client keeps of a round. \<open>PrivateKeys\<close> is nil until the extraction begins; a key or a
  signature that could not be had is \<open>None\<close> (the zero value in Go).
\<close>

record ('mpk, 'bpk) addFriendRoundState =
  as_Config :: AddFriendConfig
  as_ConfigParent :: SignedConfig
  as_ServerMasterKeys :: "'mpk list"
  as_PrivateKeys :: "bytes option list option"
  as_ServerBLSKeys :: "'bpk list"
  as_IdentitySigs :: "bytes option list"
  as_ExtractSuccess :: bool

record dialingRoundState =
  ds_Config :: DialingConfig
  ds_ConfigParent :: SignedConfig

record ('mpk, 'bpk) client =
  c_Username :: string
  c_LongTermPublicKey :: bytes
  c_LongTermPrivateKey :: bytes
  c_PKGLoginKey :: bytes
  c_wheel :: wheel
  c_lastDialingRound :: u32
  c_addFriendRounds :: "u32 \<rightharpoonup> ('mpk, 'bpk) addFriendRoundState"
  c_addFriendConfigHash :: string
  c_addFriendConfig :: "SignedConfig option"
  c_dialingRounds :: "u32 \<rightharpoonup> dialingRoundState"
  c_dialingConfigHash :: string
  c_dialingConfig :: "SignedConfig option"
  c_friends :: "string \<rightharpoonup> ref"
  c_incoming :: "(ref \<times> IncomingFriendRequest) list"
  c_outgoing :: "(ref \<times> OutgoingFriendRequest) list"
  c_sent :: "(ref \<times> sentFriendRequest) list"
  c_outgoingCalls :: "ref list"
  c_friendStore :: "ref \<rightharpoonup> Friend"
  c_callStore :: "ref \<rightharpoonup> OutgoingCall"
  c_next :: ref
  c_clientFile :: "bytes option"
  c_wheelFile :: "bytes option"

datatype client_err =
  DifferentConfigs u32 | FetchingConfig client_error | CheckStatusFailed string | RoundNotConfigured u32
| PKGSettingsNotVerified u32 | ExtractFailed u32 extract_error | InvalidAttestation string | ServiceDataError sd_error
| MixNotVerified u32 bytes | IncompleteExtraction u32 | FetchingMailbox | MalformedMailbox u32 u32 nat | DecodingFilter bloom_error

text \<open>What the client tells the application and sends to the coordinator, in order.\<close>

datatype client_event =
  EvError client_err | EvConfirmedFriend ref | EvSentFriendRequest OutgoingFriendRequest
| EvReceivedFriendRequest ref IncomingFriendRequest | EvSendingCall ref | EvReceivedCall IncomingCall
| EvNewConfig "SignedConfig list" | EvSendOnion u32 bytes

section \<open>Persistence\<close>

record persistedFriend =
  pf_Username :: string
  pf_LongTermKey :: bytes
  pf_ExtraData :: bytes

record persistedState =
  ps_Username :: string
  ps_LongTermPublicKey :: bytes
  ps_LongTermPrivateKey :: bytes
  ps_PKGLoginKey :: bytes
  ps_AddFriendConfig :: "SignedConfig option"
  ps_DialingConfig :: "SignedConfig option"
  ps_Incoming :: "IncomingFriendRequest list"
  ps_Outgoing :: "OutgoingFriendRequest list"
  ps_Sent :: "sentFriendRequest list"
  ps_Friends :: "string \<rightharpoonup> persistedFriend"

text \<open>
  The JSON of the client state and of the keywheel's map, the paths (an empty path persists
  nothing), and the hash of a configuration.
\<close>

record ('vk, 'gk) persist_env =
  pe_enc :: "persistedState \<Rightarrow> bytes"
  pe_dec :: "bytes \<Rightarrow> persistedState option"
  pe_wheel_enc :: "wheel \<Rightarrow> bytes"
  pe_wheel_dec :: "bytes \<Rightarrow> wheel option"
  pe_ClientPath :: string
  pe_KeywheelPath :: string
  pe_cfg :: "('vk, 'gk) cfg_env"

text \<open>Whether each of the two atomic writes succeeds.\<close>

record write_answer =
  wa_client :: bool
  wa_wheel :: bool

definition persisted_friend :: "Friend \<Rightarrow> persistedFriend" where
  "persisted_friend f = \<lparr>pf_Username = fr_Username f, pf_LongTermKey = fr_LongTermKey f, pf_ExtraData = fr_extraData f\<rparr>"

definition persisted_state :: "('mpk, 'bpk) client \<Rightarrow> persistedState" where
  "persisted_state c = \<lparr>ps_Username = c_Username c, ps_LongTermPublicKey = c_LongTermPublicKey c,
     ps_LongTermPrivateKey = c_LongTermPrivateKey c, ps_PKGLoginKey = c_PKGLoginKey c,
     ps_AddFriendConfig = c_addFriendConfig c, ps_DialingConfig = c_dialingConfig c,
     ps_Incoming = map snd (c_incoming c), ps_Outgoing = map snd (c_outgoing c), ps_Sent = map snd (c_sent c),
     ps_Friends = (\<lambda>u. Option.bind (c_friends c u) (\<lambda>r. map_option persisted_friend (c_friendStore c r)))\<rparr>"

definition persistClientLocked ::
  "('vk, 'gk) persist_env \<Rightarrow> write_answer \<Rightarrow> ('mpk, 'bpk) client \<Rightarrow> ('mpk, 'bpk) client \<times> bool" where
  "persistClientLocked P a c =
     (if pe_ClientPath P = [] then (c, True)
      else if wa_client a then (c\<lparr>c_clientFile := Some (pe_enc P (persisted_state c))\<rparr>, True)
      else (c, False))"

definition persistKeywheelLocked ::
  "('vk, 'gk) persist_env \<Rightarrow> write_answer \<Rightarrow> ('mpk, 'bpk) client \<Rightarrow> ('mpk, 'bpk) client \<times> bool" where
  "persistKeywheelLocked P a c =
     (if pe_KeywheelPath P = [] then (c, True)
      else if wa_wheel a then (c\<lparr>c_wheelFile := Some (wheel_MarshalBinary (pe_wheel_enc P) (c_wheel c))\<rparr>, True)
      else (c, False))"

definition persistLocked_client ::
  "('vk, 'gk) persist_env \<Rightarrow> write_answer \<Rightarrow> ('mpk, 'bpk) client \<Rightarrow> ('mpk, 'bpk) client \<times> bool" where
  "persistLocked_client P a c =
     (case persistClientLocked P a c of
        (c1, ok1) \<Rightarrow> (case persistKeywheelLocked P a c1 of (c2, ok2) \<Rightarrow> (c2, ok1 \<and> ok2)))"

text \<open>Loading a list of objects: each gets a pointer of its own.\<close>

definition number_from :: "ref \<Rightarrow> 'a list \<Rightarrow> (ref \<times> 'a) list" where
  "number_from n xs = List.enumerate n xs"

datatype load_client_error = CannotReadClient | BadClientJSON | CannotReadKeywheel | BadKeywheel wheel_error

text \<open>A configuration that is missing in the file is nil, and hashing it panics.\<close>

definition hash_config :: "('vk, 'gk) persist_env \<Rightarrow> SignedConfig option \<Rightarrow> ('e, string) outcome" where
  "hash_config P c = (case c of None \<Rightarrow> Panic
     | Some c \<Rightarrow> (case config_Hash (pe_cfg P) c of Ok h \<Rightarrow> Ok h | _ \<Rightarrow> Panic))"

text \<open>\<open>order\<close> lists the usernames of the friends map as the loop over it yields them.\<close>

definition loaded_client ::
  "string \<Rightarrow> string \<Rightarrow> string list \<Rightarrow> persistedState \<Rightarrow> ('mpk, 'bpk) client \<Rightarrow> ('mpk, 'bpk) client" where
  "loaded_client afHash dialHash order st c =
     (let n0 = c_next c; n1 = n0 + length (ps_Incoming st); n2 = n1 + length (ps_Outgoing st);
          n3 = n2 + length (ps_Sent st);
          friends = filter (\<lambda>(r, u). ps_Friends st u \<noteq> None) (number_from n3 order)
      in c\<lparr>c_Username := ps_Username st, c_LongTermPublicKey := ps_LongTermPublicKey st,
          c_LongTermPrivateKey := ps_LongTermPrivateKey st, c_PKGLoginKey := ps_PKGLoginKey st,
          c_addFriendConfig := ps_AddFriendConfig st, c_addFriendConfigHash := afHash,
          c_dialingConfig := ps_DialingConfig st, c_dialingConfigHash := dialHash,
          c_incoming := number_from n0 (ps_Incoming st), c_outgoing := number_from n1 (ps_Outgoing st),
          c_sent := number_from n2 (ps_Sent st),
          c_friends := map_of (map (\<lambda>(r, u). (u, r)) friends),
          c_friendStore := map_of (map (\<lambda>(r, u). (r, (let f = the (ps_Friends st u) in
             \<lparr>fr_Username = pf_Username f, fr_LongTermKey = pf_LongTermKey f, fr_extraData = pf_ExtraData f\<rparr>))) friends),
          c_next := n3 + length order\<rparr>)"

definition loadStateLocked ::
  "('vk, 'gk) persist_env \<Rightarrow> string list \<Rightarrow> persistedState \<Rightarrow> ('mpk, 'bpk) client \<Rightarrow> ('e, ('mpk, 'bpk) client) outcome" where
  "loadStateLocked P order st c =
     bind_outcome (hash_config P (ps_AddFriendConfig st)) (\<lambda>afHash.
     bind_outcome (hash_config P (ps_DialingConfig st)) (\<lambda>dialHash.
       Ok (loaded_client afHash dialHash order st c)))"

text \<open>The zero client with the files of the disk.\<close>

definition new_client :: "bytes option \<Rightarrow> bytes option \<Rightarrow> ('mpk, 'bpk) client" where
  "new_client clientFile wheelFile =
     \<lparr>c_Username = [], c_LongTermPublicKey = [], c_LongTermPrivateKey = [], c_PKGLoginKey = [], c_wheel = Map.empty,
      c_lastDialingRound = 0, c_addFriendRounds = Map.empty, c_addFriendConfigHash = [], c_addFriendConfig = None,
      c_dialingRounds = Map.empty, c_dialingConfigHash = [], c_dialingConfig = None, c_friends = Map.empty,
      c_incoming = [], c_outgoing = [], c_sent = [], c_outgoingCalls = [], c_friendStore = Map.empty,
      c_callStore = Map.empty, c_next = 0, c_clientFile = clientFile, c_wheelFile = wheelFile\<rparr>"

definition LoadClient ::
  "('vk, 'gk) persist_env \<Rightarrow> (persistedState \<Rightarrow> string list) \<Rightarrow> bytes option \<Rightarrow> bytes option \<Rightarrow>
   (load_client_error, ('mpk, 'bpk) client) outcome" where
  "LoadClient P order clientFile wheelFile =
     (case clientFile of None \<Rightarrow> Err CannotReadClient
      | Some clientData \<Rightarrow>
          (case pe_dec P clientData of None \<Rightarrow> Err BadClientJSON
           | Some st \<Rightarrow>
               (case wheelFile of None \<Rightarrow> Err CannotReadKeywheel
                | Some keywheelData \<Rightarrow>
                    (case wheel_UnmarshalBinary (pe_wheel_dec P) keywheelData of
                       Err e \<Rightarrow> Err (BadKeywheel e) | Panic \<Rightarrow> Panic
                     | Ok w \<Rightarrow> loadStateLocked P (order st) st ((new_client clientFile wheelFile)\<lparr>c_wheel := w\<rparr>)))))"

text \<open>\<open>Bootstrap\<close> validates both configurations and takes them.\<close>

definition Bootstrap ::
  "('vk, 'gk) persist_env \<Rightarrow> SignedConfig \<Rightarrow> SignedConfig \<Rightarrow> ('mpk, 'bpk) client \<Rightarrow> (cfg_error, ('mpk, 'bpk) client) outcome" where
  "Bootstrap P addFriendConfig dialingConfig c =
     bind_outcome (config_Validate addFriendConfig) (\<lambda>_.
     bind_outcome (config_Validate dialingConfig) (\<lambda>_.
     bind_outcome (hash_config P (Some addFriendConfig)) (\<lambda>afHash.
     bind_outcome (hash_config P (Some dialingConfig)) (\<lambda>dialHash.
       Ok (c\<lparr>c_addFriendConfig := Some addFriendConfig, c_addFriendConfigHash := afHash,
         c_dialingConfig := Some dialingConfig, c_dialingConfigHash := dialHash\<rparr>)))))"

section \<open>Friend requests\<close>

definition SendFriendRequest ::
  "('vk, 'gk) persist_env \<Rightarrow> write_answer \<Rightarrow> string \<Rightarrow> bytes \<Rightarrow> ('mpk, 'bpk) client \<Rightarrow> ('mpk, 'bpk) client \<times> ref \<times> bool" where
  "SendFriendRequest P a username key c =
     (let req = \<lparr>or_Username = username, or_ExpectedKey = key, or_Confirmation = False, or_DialRound = 0\<rparr>;
          c1 = c\<lparr>c_outgoing := c_outgoing c @ [(c_next c, req)], c_next := Suc (c_next c)\<rparr>
      in case persistLocked_client P a c1 of (c2, ok) \<Rightarrow> (c2, c_next c, ok))"

datatype queue_error = ErrTooLate | PersistError

text \<open>The last index whose pointer is this one, and the queue without it.\<close>

definition drop_ref :: "ref \<Rightarrow> (ref \<times> 'a) list \<Rightarrow> (ref \<times> 'a) list option" where
  "drop_ref r reqs =
     (case filter (\<lambda>i. fst (reqs ! i) = r) [0..<length reqs] of
        [] \<Rightarrow> None | is \<Rightarrow> Some (take (last is) reqs @ drop (Suc (last is)) reqs))"

definition Cancel ::
  "('vk, 'gk) persist_env \<Rightarrow> write_answer \<Rightarrow> ref \<Rightarrow> ('mpk, 'bpk) client \<Rightarrow> ('mpk, 'bpk) client \<times> (queue_error, unit) outcome" where
  "Cancel P a r c =
     (case drop_ref r (c_outgoing c) of
        None \<Rightarrow> (c, Err ErrTooLate)
      | Some reqs \<Rightarrow>
          (case persistLocked_client P a (c\<lparr>c_outgoing := reqs\<rparr>) of
             (c', ok) \<Rightarrow> (c', if ok then Ok () else Err PersistError)))"

definition confirmation :: "IncomingFriendRequest \<Rightarrow> OutgoingFriendRequest" where
  "confirmation r = \<lparr>or_Username = ir_Username r, or_ExpectedKey = [], or_Confirmation = True, or_DialRound = ir_DialRound r\<rparr>"

definition Approve ::
  "('vk, 'gk) persist_env \<Rightarrow> write_answer \<Rightarrow> IncomingFriendRequest \<Rightarrow> ('mpk, 'bpk) client \<Rightarrow> ('mpk, 'bpk) client \<times> ref \<times> bool" where
  "Approve P a r c =
     (let c1 = c\<lparr>c_outgoing := c_outgoing c @ [(c_next c, confirmation r)], c_next := Suc (c_next c)\<rparr>
      in case persistLocked_client P a c1 of (c2, ok) \<Rightarrow> (c2, c_next c, ok))"

definition Reject ::
  "('vk, 'gk) persist_env \<Rightarrow> write_answer \<Rightarrow> ref \<Rightarrow> ('mpk, 'bpk) client \<Rightarrow> ('mpk, 'bpk) client \<times> (queue_error, unit) outcome" where
  "Reject P a r c =
     (case drop_ref r (c_incoming c) of
        None \<Rightarrow> (c, Err ErrTooLate)
      | Some reqs \<Rightarrow>
          (case persistLocked_client P a (c\<lparr>c_incoming := reqs\<rparr>) of
             (c', ok) \<Rightarrow> (c', if ok then Ok () else Err PersistError)))"

definition GetOutgoingFriendRequests :: "('mpk, 'bpk) client \<Rightarrow> (ref \<times> OutgoingFriendRequest) list" where
  "GetOutgoingFriendRequests c = c_outgoing c"

definition GetSentFriendRequests :: "('mpk, 'bpk) client \<Rightarrow> OutgoingFriendRequest list" where
  "GetSentFriendRequests c = map (\<lambda>(_, req). \<lparr>or_Username = sr_Username req, or_ExpectedKey = sr_ExpectedKey req,
     or_Confirmation = sr_Confirmation req, or_DialRound = sr_DialRound req\<rparr>) (c_sent c)"

definition GetIncomingFriendRequests :: "('mpk, 'bpk) client \<Rightarrow> (ref \<times> IncomingFriendRequest) list" where
  "GetIncomingFriendRequests c = c_incoming c"
section \<open>Friends\<close>

text \<open>\<open>order\<close> is the iteration order of the map.\<close>

definition GetFriends :: "string list \<Rightarrow> ('mpk, 'bpk) client \<Rightarrow> ref list" where
  "GetFriends order c = List.map_filter (c_friends c) order"

definition GetFriend :: "string \<Rightarrow> ('mpk, 'bpk) client \<Rightarrow> ref option" where
  "GetFriend username c = c_friends c username"

text \<open>The methods of a friend take the object of its pointer, which need not be in the book any more.\<close>

definition friend_Remove ::
  "('vk, 'gk) persist_env \<Rightarrow> write_answer \<Rightarrow> Friend \<Rightarrow> ('mpk, 'bpk) client \<Rightarrow> ('mpk, 'bpk) client \<times> bool" where
  "friend_Remove P a f c =
     persistLocked_client P a (c\<lparr>c_friends := (c_friends c)(fr_Username f := None),
       c_wheel := wheel_Remove (fr_Username f) (c_wheel c),
       c_outgoingCalls := filter (\<lambda>r. map_option oc_Username (c_callStore c r) \<noteq> Some (fr_Username f)) (c_outgoingCalls c)\<rparr>)"

definition SetExtraData ::
  "('vk, 'gk) persist_env \<Rightarrow> write_answer \<Rightarrow> ref \<Rightarrow> bytes \<Rightarrow> ('mpk, 'bpk) client \<Rightarrow> ('mpk, 'bpk) client \<times> bool" where
  "SetExtraData P a r data c =
     persistLocked_client P a (c\<lparr>c_friendStore := (c_friendStore c)(r := map_option (fr_extraData_update (\<lambda>_. data)) (c_friendStore c r))\<rparr>)"

definition ExtraData :: "ref \<Rightarrow> ('mpk, 'bpk) client \<Rightarrow> bytes option" where
  "ExtraData r c = map_option fr_extraData (c_friendStore c r)"

definition UnsafeKeywheelState :: "Friend \<Rightarrow> ('mpk, 'bpk) client \<Rightarrow> u32 \<times> bytes option" where
  "UnsafeKeywheelState f c = UnsafeGet (c_wheel c) (fr_Username f)"

definition friend_SessionKey :: "hmac \<Rightarrow> Friend \<Rightarrow> u32 \<Rightarrow> ('mpk, 'bpk) client \<Rightarrow> bytes option" where
  "friend_SessionKey H f round c = SessionKey H (c_wheel c) (fr_Username f) round"

definition IntentMax :: int where "IntentMax = 3"

text \<open>A negative intent passes. A friend without a key gives nil.\<close>

definition Call :: "int \<Rightarrow> Friend \<Rightarrow> int \<Rightarrow> ('mpk, 'bpk) client \<Rightarrow> (unit, ('mpk, 'bpk) client \<times> ref option) outcome" where
  "Call now f intent c =
     (if intent \<ge> IntentMax then Panic
      else if \<not> Exists (c_wheel c) (fr_Username f) then Ok (c, None)
      else Ok (c\<lparr>c_callStore := (c_callStore c)(c_next c \<mapsto> \<lparr>oc_Username = fr_Username f, oc_Created = now,
                   oc_intent = intent, oc_sentRound = 0, oc_dialToken = None, oc_sessionKey = None\<rparr>),
                 c_outgoingCalls := c_outgoingCalls c @ [c_next c], c_next := Suc (c_next c)\<rparr>, Some (c_next c)))"

section \<open>Calls\<close>

definition Sent :: "OutgoingCall \<Rightarrow> bool" where "Sent r \<longleftrightarrow> oc_sentRound r \<noteq> 0"

definition call_Round :: "OutgoingCall \<Rightarrow> u32" where "call_Round r = oc_sentRound r"

definition call_Intent :: "OutgoingCall \<Rightarrow> int" where "call_Intent r = oc_intent r"

definition UpdateIntent :: "int \<Rightarrow> OutgoingCall \<Rightarrow> OutgoingCall \<times> (queue_error, unit) outcome" where
  "UpdateIntent intent r =
     (if oc_dialToken r \<noteq> None then (r, Err ErrTooLate) else (r\<lparr>oc_intent := intent\<rparr>, Ok ()))"

record computeKeysResult =
  ck_token :: "bytes option"
  ck_sessionKey :: "bytes option"

text \<open>A call gets its token and key once, when it was sent.\<close>

definition computeKeys :: "hmac \<Rightarrow> wheel \<Rightarrow> OutgoingCall \<Rightarrow> OutgoingCall \<times> computeKeysResult" where
  "computeKeys H w r =
     (if oc_sentRound r = 0 \<or> oc_dialToken r \<noteq> None
      then (r, \<lparr>ck_token = oc_dialToken r, ck_sessionKey = oc_sessionKey r\<rparr>)
      else (let dialToken = OutgoingDialToken H w (oc_Username r) (oc_sentRound r) (oc_intent r);
                sessionKey = SessionKey H w (oc_Username r) (oc_sentRound r)
            in (r\<lparr>oc_dialToken := dialToken, oc_sessionKey := sessionKey\<rparr>,
                \<lparr>ck_token = dialToken, ck_sessionKey = sessionKey\<rparr>)))"

definition call_SessionKey :: "hmac \<Rightarrow> wheel \<Rightarrow> OutgoingCall \<Rightarrow> OutgoingCall \<times> bytes option" where
  "call_SessionKey H w r = (case computeKeys H w r of (r', k) \<Rightarrow> (r', ck_sessionKey k))"

definition call_Cancel :: "ref \<Rightarrow> ('mpk, 'bpk) client \<Rightarrow> ('mpk, 'bpk) client \<times> (queue_error, unit) outcome" where
  "call_Cancel r c =
     (case drop_ref r (map (\<lambda>x. (x, ())) (c_outgoingCalls c)) of
        None \<Rightarrow> (c, Err ErrTooLate)
      | Some calls \<Rightarrow> (c\<lparr>c_outgoingCalls := map fst calls\<rparr>, Ok ()))"

section \<open>Mailboxes\<close>

text \<open>Numbers from one; the empty username gets the dummy mailbox. No mailboxes is a division by zero.\<close>

definition usernameToMailbox :: "(bytes \<Rightarrow> bytes) \<Rightarrow> string \<Rightarrow> u32 \<Rightarrow> ('e, u32) outcome" where
  "usernameToMailbox sha256 username numMailboxes =
     (if numMailboxes = 0 then Panic
      else (let k = get_be32 (take 4 (fixed 32 (sha256 (str_bytes username)))); mbox = k mod numMailboxes + 1
            in if username = [] then Ok 0 else Ok mbox))"

text \<open>\<open>set_query\<close> sets a value in the query of a URL, \<open>http_get\<close> gives the body for the key of the server.\<close>

definition fetchMailbox ::
  "(string \<Rightarrow> string \<Rightarrow> string \<Rightarrow> string option) \<Rightarrow> (bytes \<Rightarrow> string \<Rightarrow> bytes option) \<Rightarrow> keyAddr \<Rightarrow> string \<Rightarrow> u32 \<Rightarrow> bytes option" where
  "fetchMailbox set_query http_get cdn baseURL mailboxID =
     Option.bind (set_query baseURL ''key'' (show_nat (unat mailboxID))) (http_get (ka_Key cdn))"

end
