(* ===== verification/ClientAddFriend.thy ===== *)
theory ClientAddFriend
  imports Client
begin

text \<open>
  The client's side of the add-friend protocol (src/addfriend.go): a new round and its config, the
  extraction of the identity keys, the onion with the next friend request, and the scan of the
  mailbox. The mutex is taken and given back several times in the last two; each stretch under it is
  a definition of its own, so that they can be interleaved. IBE, BLS, NaCl boxes, onions and the
  HTTP requests are parameters, and so is all randomness.
\<close>

section \<open>The environment\<close>

record ('mpk, 'msk, 'bpk, 'bsk, 'vk, 'gk) cl_env =
  cl_persist :: "('vk, 'gk) persist_env"
  cl_pkg :: "('mpk, 'msk, 'bpk, 'bsk) pkg_env"
  cl_hmac :: hmac
  cl_siphash :: siphash
  cl_sha256 :: "bytes \<Rightarrow> bytes"
  cl_mix_json :: "pb_settings \<Rightarrow> bytes"
  cl_sd_json :: "bytes \<Rightarrow> ServiceData option"
  cl_precompute :: "bytes \<Rightarrow> bytes \<Rightarrow> bytes"
  cl_ibe_overhead :: nat
  cl_aggregate_master :: "'mpk list \<Rightarrow> 'mpk"
  cl_aggregate_private :: "bytes list \<Rightarrow> bytes"
  cl_ibe_encrypt :: "'mpk \<Rightarrow> bytes \<Rightarrow> bytes \<Rightarrow> bytes \<Rightarrow> bytes"
  cl_ibe_open :: "bytes \<Rightarrow> bytes \<Rightarrow> bytes option"
  cl_bls_aggregate :: "bytes list \<Rightarrow> bytes"
  cl_bls_verify :: "'bpk \<Rightarrow> bytes \<Rightarrow> bytes \<Rightarrow> bool"
  cl_bls_verify_compressed :: "'bpk list \<Rightarrow> bytes list \<Rightarrow> bytes \<Rightarrow> bool"
  cl_onion_seal :: "bytes \<Rightarrow> bytes \<Rightarrow> bytes list \<Rightarrow> bytes \<Rightarrow> bytes"
  cl_box_open :: "bytes \<Rightarrow> bytes \<Rightarrow> bytes \<Rightarrow> bytes option"
  cl_valid_key :: "bytes \<Rightarrow> bool"
  cl_set_query :: "string \<Rightarrow> string \<Rightarrow> string \<Rightarrow> string option"

text \<open>A handler ends with the new client and its events, or crashes the process.\<close>

type_synonym ('mpk, 'bpk) handled = "(unit, ('mpk, 'bpk) client \<times> client_event list) outcome"

section \<open>A new round\<close>

definition as_AddFriendConfig :: "SignedConfig \<Rightarrow> AddFriendConfig option" where
  "as_AddFriendConfig c = (case sc_Inner c of Some (InnerAddFriend a) \<Rightarrow> Some a | _ \<Rightarrow> None)"

definition pkg_client_of :: "('mpk, 'bpk) client \<Rightarrow> pkg_client" where
  "pkg_client_of c = \<lparr>cl_Username = c_Username c, cl_LoginKey = c_PKGLoginKey c,
     cl_LoginPublic = ed_Public (c_PKGLoginKey c), cl_UserLongTermKey = c_LongTermPublicKey c\<rparr>"

text \<open>\<open>status\<close> is what \<open>CheckStatus\<close> gave for a server: no error, an error of the server, another error.\<close>

datatype status_answer = StatusOk | StatusError ErrorCode | StatusFailed

definition status_events :: "(keyAddr \<Rightarrow> status_answer) \<Rightarrow> keyAddr list \<Rightarrow> client_event list" where
  "status_events status servers = concat (map (\<lambda>s. case status s of
       StatusOk \<Rightarrow> []
     | StatusError e \<Rightarrow> if e = ErrNotRegistered then [] else [EvError (CheckStatusFailed (ka_Address s))]
     | StatusFailed \<Rightarrow> [EvError (CheckStatusFailed (ka_Address s))]) servers)"

definition loadAddFriendConfig ::
  "('mpk, 'msk, 'bpk, 'bsk, 'vk, 'gk) cl_env \<Rightarrow> (keyAddr \<Rightarrow> status_answer) \<Rightarrow> write_answer \<Rightarrow> SignedConfig \<Rightarrow> ('mpk, 'bpk) client \<Rightarrow>
   (unit, ('mpk, 'bpk) client \<times> client_event list \<times> AddFriendConfig) outcome" where
  "loadAddFriendConfig E status a newConfig c =
     bind_outcome (hash_config (cl_persist E) (Some newConfig)) (\<lambda>hash.
       case as_AddFriendConfig newConfig of
         None \<Rightarrow> Panic
       | Some innerConfig \<Rightarrow>
           (case persistLocked_client (cl_persist E) a
                   (c\<lparr>c_addFriendConfig := Some newConfig, c_addFriendConfigHash := hash\<rparr>) of
              (c', ok) \<Rightarrow> if ok then Ok (c', status_events status (af_PKGServers innerConfig), innerConfig) else Panic))"

definition new_addfriend_state :: "AddFriendConfig \<Rightarrow> SignedConfig \<Rightarrow> ('mpk, 'bpk) addFriendRoundState" where
  "new_addfriend_state conf parent = \<lparr>as_Config = conf, as_ConfigParent = parent, as_ServerMasterKeys = [],
     as_PrivateKeys = None, as_ServerBLSKeys = [], as_IdentitySigs = [], as_ExtractSuccess = False\<rparr>"

text \<open>\<open>chain\<close> is the answer of the config server to the request for the announced config.\<close>

definition newAddFriendRound ::
  "('mpk, 'msk, 'bpk, 'bsk, 'vk, 'gk) cl_env \<Rightarrow> int \<Rightarrow> SignedConfig option list http_result \<Rightarrow> (keyAddr \<Rightarrow> status_answer) \<Rightarrow>
   write_answer \<Rightarrow> u32 \<Rightarrow> string \<Rightarrow> ('mpk, 'bpk) client \<Rightarrow> ('mpk, 'bpk) handled" where
  "newAddFriendRound E now chain status a round configHash c =
     (case c_addFriendRounds c round of
        Some st \<Rightarrow>
          bind_outcome (hash_config (cl_persist E) (Some (as_ConfigParent st))) (\<lambda>h.
            Ok (c, if h \<noteq> configHash then [EvError (DifferentConfigs round)] else []))
      | None \<Rightarrow>
          (case c_addFriendConfig c of
             None \<Rightarrow> Panic
           | Some current \<Rightarrow>
               if configHash = c_addFriendConfigHash c
               then (case as_AddFriendConfig current of
                       None \<Rightarrow> Panic
                     | Some conf \<Rightarrow> Ok (c\<lparr>c_addFriendRounds := (c_addFriendRounds c)(round \<mapsto> new_addfriend_state conf current)\<rparr>, []))
               else (case FetchAndVerifyChain (pe_cfg (cl_persist E)) now chain current configHash of
                       Err e \<Rightarrow> Ok (c, [EvError (FetchingConfig e)])
                     | Panic \<Rightarrow> Panic
                     | Ok configs \<Rightarrow>
                         bind_outcome (loadAddFriendConfig E status a (hd configs) c) (\<lambda>(c', evs, conf).
                           Ok (c'\<lparr>c_addFriendRounds := (c_addFriendRounds c')(round \<mapsto> new_addfriend_state conf (hd configs))\<rparr>,
                               EvNewConfig configs # evs)))))"

section \<open>Extracting the keys of a round\<close>

text \<open>
  One server: the key, the signature, and an error. The requests change a world \<open>'w\<close>;
  \<open>box_key i\<close> is the fresh box key of request \<open>i\<close>, \<open>ask s\<close> sends the request to server \<open>s\<close>. The
  goroutines of the servers are waited for; they are run in the order they are started.
\<close>

definition extract_one ::
  "('mpk, 'msk, 'bpk, 'bsk, 'vk, 'gk) cl_env \<Rightarrow> (keyAddr \<Rightarrow> extractArgs \<Rightarrow> 'w \<Rightarrow> 'w \<times> extractReply option) \<Rightarrow> bytes \<times> bytes \<Rightarrow>
   u32 \<Rightarrow> ('mpk, 'bpk) client \<Rightarrow> keyAddr \<Rightarrow> 'bpk \<Rightarrow> 'w \<Rightarrow> 'w \<times> (client_err, bytes option \<times> bytes option \<times> client_err option) outcome" where
  "extract_one E ask box_key round c server blsKey w =
     (case client_Extract (cl_pkg E) (cl_box_open E) (cl_valid_key E) (ask server) (pkg_client_of c) box_key
             (ka_Key server) round w of
        (w', Panic) \<Rightarrow> (w', Panic)
      | (w', Err e) \<Rightarrow> (w', Ok (None, None, Some (ExtractFailed round e)))
      | (w', Ok r) \<Rightarrow>
          (w', Ok (if \<not> cl_bls_verify E blsKey
                        (Attestation_Marshal (cl_pkg E) blsKey (ValidUsernameToIdentity (c_Username c)) (c_LongTermPublicKey c))
                        (er_IdentitySig r)
                   then (Some (er_PrivateKey r), None, Some (InvalidAttestation (ka_Address server)))
                   else (Some (er_PrivateKey r), Some (er_IdentitySig r), None))))"

fun extract_all ::
  "('mpk, 'msk, 'bpk, 'bsk, 'vk, 'gk) cl_env \<Rightarrow> (keyAddr \<Rightarrow> extractArgs \<Rightarrow> 'w \<Rightarrow> 'w \<times> extractReply option) \<Rightarrow> (nat \<Rightarrow> bytes \<times> bytes) \<Rightarrow>
   u32 \<Rightarrow> ('mpk, 'bpk) client \<Rightarrow> nat \<Rightarrow> (keyAddr \<times> 'bpk) list \<Rightarrow> 'w \<Rightarrow>
   'w \<times> (client_err, (bytes option \<times> bytes option \<times> client_err option) list) outcome" where
  "extract_all E ask box_key round c i [] w = (w, Ok [])"
| "extract_all E ask box_key round c i ((server, blsKey) # rest) w =
     (case extract_one E ask (box_key i) round c server blsKey w of
        (w', Ok r) \<Rightarrow>
          (case extract_all E ask box_key round c (Suc i) rest w' of
             (w'', Ok rs) \<Rightarrow> (w'', Ok (r # rs)) | (w'', Err e) \<Rightarrow> (w'', Err e) | (w'', Panic) \<Rightarrow> (w'', Panic))
      | (w', Err e) \<Rightarrow> (w', Err e) | (w', Panic) \<Rightarrow> (w', Panic))"

text \<open>\<open>settings\<close> are the key generators' settings of the message.\<close>

definition extractPKGKeys ::
  "('mpk, 'msk, 'bpk, 'bsk, 'vk, 'gk) cl_env \<Rightarrow> (keyAddr \<Rightarrow> extractArgs \<Rightarrow> 'w \<Rightarrow> 'w \<times> extractReply option) \<Rightarrow> (nat \<Rightarrow> bytes \<times> bytes) \<Rightarrow>
   u32 \<Rightarrow> (string \<rightharpoonup> ('mpk, 'bpk) RevealReply) \<Rightarrow> ('mpk, 'bpk) client \<Rightarrow> 'w \<Rightarrow> 'w \<times> ('mpk, 'bpk) handled" where
  "extractPKGKeys E ask box_key round settings c w =
     (case c_addFriendRounds c round of
        None \<Rightarrow> (w, Ok (c, [EvError (RoundNotConfigured round)]))
      | Some st \<Rightarrow>
          if as_PrivateKeys st \<noteq> None then (w, Ok (c, []))
          else (let servers = af_PKGServers (as_Config st) in
            case RoundSettings_Verify (cl_pkg E) settings round (map ka_Key servers) of
              Ok True \<Rightarrow>
                (let reveals = map (\<lambda>s. the (settings (hex_encode (ka_Key s)))) servers;
                     blsKeys = map rr_BLSPublicKey reveals
                 in case extract_all E ask box_key round c 0 (zip servers blsKeys) w of
                      (w', Ok rs) \<Rightarrow>
                        (let errs = List.map_filter (\<lambda>(_, _, e). e) rs;
                             st' = st\<lparr>as_ServerMasterKeys := map rr_MasterPublicKey reveals, as_PrivateKeys := Some (map fst rs),
                               as_ServerBLSKeys := blsKeys, as_IdentitySigs := map (fst \<circ> snd) rs, as_ExtractSuccess := (errs = [])\<rparr>
                         in (w', Ok (c\<lparr>c_addFriendRounds := (c_addFriendRounds c)(round \<mapsto> st')\<rparr>, map EvError errs)))
                    | (w', _) \<Rightarrow> (w', Panic))
            | Ok False \<Rightarrow> (w, Ok (c, [EvError (PKGSettingsNotVerified round)]))
            | _ \<Rightarrow> (w, Panic)))"
section \<open>Making friends\<close>

definition matchToIncoming :: "sentFriendRequest \<Rightarrow> ('mpk, 'bpk) client \<Rightarrow> (ref \<times> IncomingFriendRequest) option" where
  "matchToIncoming sentReq c =
     find (\<lambda>(_, inReq). ir_Username inReq = sr_Username sentReq \<and> ir_DialRound inReq = sr_DialRound sentReq) (c_incoming c)"

definition matchToSent :: "IncomingFriendRequest \<Rightarrow> ('mpk, 'bpk) client \<Rightarrow> (ref \<times> sentFriendRequest) option" where
  "matchToSent inReq c =
     find (\<lambda>(_, sentReq). ir_Username inReq = sr_Username sentReq \<and> ir_DialRound inReq = sr_DialRound sentReq) (c_sent c)"

text \<open>Both requests leave their queues, if they are there.\<close>

definition newFriend ::
  "('mpk, 'msk, 'bpk, 'bsk, 'vk, 'gk) cl_env \<Rightarrow> ref \<times> IncomingFriendRequest \<Rightarrow> ref \<times> sentFriendRequest \<Rightarrow>
   ('mpk, 'bpk) client \<Rightarrow> ('mpk, 'bpk) client \<times> client_event list" where
  "newFriend E inReq sentReq c =
     (let sharedKey = cl_precompute E (ir_DHPublicKey (snd inReq)) (sr_DHPrivateKey (snd sentReq));
          u = ir_Username (snd inReq); f = c_next c
      in (c\<lparr>c_wheel := Put u (ir_DialRound (snd inReq)) sharedKey (c_wheel c),
            c_friends := (c_friends c)(u \<mapsto> f),
            c_friendStore := (c_friendStore c)(f \<mapsto>
              \<lparr>fr_Username = u, fr_LongTermKey = ir_LongTermKey (snd inReq), fr_extraData = []\<rparr>),
            c_incoming := filter (\<lambda>(r, _). r \<noteq> fst inReq) (c_incoming c),
            c_sent := filter (\<lambda>(r, _). r \<noteq> fst sentReq) (c_sent c),
            c_next := Suc f\<rparr>, [EvConfirmedFriend f]))"

text \<open>What is done with a request that was sent, and with one that was received: two stretches each.\<close>

definition record_sent ::
  "('mpk, 'msk, 'bpk, 'bsk, 'vk, 'gk) cl_env \<Rightarrow> (ref \<times> IncomingFriendRequest) option \<Rightarrow> ref \<times> sentFriendRequest \<Rightarrow>
   ('mpk, 'bpk) client \<Rightarrow> ('mpk, 'bpk) client \<times> client_event list" where
  "record_sent E matched sentReq c =
     (case matched of Some inReq \<Rightarrow> newFriend E inReq sentReq c
      | None \<Rightarrow> (c\<lparr>c_sent := c_sent c @ [sentReq]\<rparr>, []))"

definition record_received ::
  "('mpk, 'msk, 'bpk, 'bsk, 'vk, 'gk) cl_env \<Rightarrow> (ref \<times> sentFriendRequest) option \<Rightarrow> ref \<times> IncomingFriendRequest \<Rightarrow>
   ('mpk, 'bpk) client \<Rightarrow> ('mpk, 'bpk) client \<times> client_event list" where
  "record_received E matched req c =
     (case matched of Some sentReq \<Rightarrow> newFriend E req sentReq c
      | None \<Rightarrow> (c\<lparr>c_incoming := c_incoming c @ [req]\<rparr>, [EvReceivedFriendRequest (fst req) (snd req)]))"

section \<open>Sending\<close>

definition nextOutgoingFriendRequest :: "('mpk, 'bpk) client \<Rightarrow> ('mpk, 'bpk) client \<times> OutgoingFriendRequest" where
  "nextOutgoingFriendRequest c =
     (case c_outgoing c of
        (_, req) # rest \<Rightarrow> (c\<lparr>c_outgoing := rest\<rparr>, req)
      | [] \<Rightarrow> (c, \<lparr>or_Username = [], or_ExpectedKey = [], or_Confirmation = False, or_DialRound = 0\<rparr>))"

text \<open>\<open>dh\<close> is the fresh key pair.\<close>

definition genIntro ::
  "('mpk, 'msk, 'bpk, 'bsk, 'vk, 'gk) cl_env \<Rightarrow> bytes \<times> bytes \<Rightarrow> u32 \<Rightarrow> ('mpk, 'bpk) addFriendRoundState \<Rightarrow>
   OutgoingFriendRequest \<Rightarrow> ('mpk, 'bpk) client \<Rightarrow> introduction \<times> sentFriendRequest" where
  "genIntro E dh round st out c =
     (let dialRound = (if or_Confirmation out then or_DialRound out else c_lastDialingRound c);
          sent = \<lparr>sr_Username = or_Username out, sr_ExpectedKey = or_ExpectedKey out, sr_Confirmation = or_Confirmation out,
            sr_DialRound = dialRound, sr_SentRound = round, sr_DHPublicKey = fst dh, sr_DHPrivateKey = snd dh\<rparr>;
          intro = \<lparr>in_Username = fixed 64 (ValidUsernameToIdentity (c_Username c)), in_DHPublicKey = fixed 32 (fst dh),
            in_DialingRound = dialRound, in_LongTermKey = fixed 32 (c_LongTermPublicKey c), in_Signature = fixed 64 [],
            in_ServerMultisig = fixed 32 (cl_bls_aggregate E (map the (as_IdentitySigs st)))\<rparr>
      in (introduction_Sign (pe_ed_sign (cl_pkg E)) (c_LongTermPrivateKey c) intro, sent))"

text \<open>A mixer without a signature in the list is an index out of range.\<close>

fun verify_mixers ::
  "('mpk, 'msk, 'bpk, 'bsk, 'vk, 'gk) cl_env \<Rightarrow> u32 \<Rightarrow> bytes \<Rightarrow> keyAddr list \<Rightarrow> bytes list \<Rightarrow> (client_err, unit) outcome" where
  "verify_mixers E round msg [] sigs = Ok ()"
| "verify_mixers E round msg (mixer # mixers) sigs =
     (case sigs of
        [] \<Rightarrow> Panic
      | sig # sigs' \<Rightarrow>
          bind_outcome (pkg_ed_verify (cl_pkg E) (ka_Key mixer) msg sig) (\<lambda>ok.
            if \<not> ok then Err (MixNotVerified round (ka_Key mixer)) else verify_mixers E round msg mixers sigs'))"

text \<open>What the round's message must pass before anything is sent: its service data and the signatures.\<close>

definition check_mix_round ::
  "('mpk, 'msk, 'bpk, 'bsk, 'vk, 'gk) cl_env \<Rightarrow> keyAddr list \<Rightarrow> MixRound \<Rightarrow> (client_err, ServiceData) outcome" where
  "check_mix_round E mixers v =
     (case ServiceData_Unmarshal (cl_sd_json E) (rs_RawServiceData (mr_MixSettings v)) of
        Err e \<Rightarrow> Err (ServiceDataError e) | Panic \<Rightarrow> Panic
      | Ok serviceData \<Rightarrow>
          bind_outcome (verify_mixers E (rs_Round (mr_MixSettings v))
              (RoundSettings_SigningMessage (cl_mix_json E) (mr_MixSettings v)) mixers (mr_MixSignatures v)) (\<lambda>_.
            Ok serviceData))"

text \<open>The message for the mixnet. Cover traffic carries zeros; a ciphertext of another size panics.\<close>

definition addfriend_message ::
  "('mpk, 'msk, 'bpk, 'bsk, 'vk, 'gk) cl_env \<Rightarrow> bytes \<Rightarrow> ServiceData \<Rightarrow> ('mpk, 'bpk) addFriendRoundState \<Rightarrow> introduction \<Rightarrow> string \<Rightarrow>
   (unit, MixMessage) outcome" where
  "addfriend_message E coins serviceData st intro username =
     (let masterKey = cl_aggregate_master E (as_ServerMasterKeys st);
          encIntro = cl_ibe_encrypt E masterKey (ValidUsernameToIdentity username) (introduction_MarshalBinary intro) coins;
          size = SizeEncryptedIntro (cl_ibe_overhead E)
      in bind_outcome (usernameToMailbox (cl_sha256 E) username (sd_NumMailboxes serviceData)) (\<lambda>mailbox.
           if length encIntro \<noteq> size then Panic
           else Ok \<lparr>mm_Mailbox = mailbox, mm_Payload = (if username \<noteq> [] then encIntro else replicate size 0)\<rparr>))"

text \<open>\<open>coins\<close> are those of the encryption and of the onion.\<close>

definition sendAddFriendOnion ::
  "('mpk, 'msk, 'bpk, 'bsk, 'vk, 'gk) cl_env \<Rightarrow> bytes \<times> bytes \<Rightarrow> bytes \<times> bytes \<Rightarrow> write_answer \<Rightarrow> MixRound \<Rightarrow>
   ('mpk, 'bpk) client \<Rightarrow> ('mpk, 'bpk) handled" where
  "sendAddFriendOnion E dh coins a v c =
     (let round = rs_Round (mr_MixSettings v) in
      case c_addFriendRounds c round of
        None \<Rightarrow> Ok (c, [EvError (RoundNotConfigured round)])
      | Some st \<Rightarrow>
          (case check_mix_round E (af_MixServers (as_Config st)) v of
             Err e \<Rightarrow> Ok (c, [EvError e]) | Panic \<Rightarrow> Panic
           | Ok serviceData \<Rightarrow>
               if \<not> as_ExtractSuccess st then Ok (c, [EvError (IncompleteExtraction round)])
               else (case nextOutgoingFriendRequest c of (c1, outgoingReq) \<Rightarrow>
                 (case genIntro E dh round st outgoingReq c1 of (intro, sentReq) \<Rightarrow>
                   bind_outcome (addfriend_message E (fst coins) serviceData st intro (sr_Username sentReq)) (\<lambda>m.
                     let onion = cl_onion_seal E (MixMessage_MarshalBinary (SizeEncryptedIntro (cl_ibe_overhead E)) m)
                           (ForwardNonce round) (rs_OnionKeys (mr_MixSettings v)) (snd coins);
                         (c2, evs) = (if sr_Username sentReq = [] then (c1, [])
                           else (let s = (c_next c1, sentReq); c1' = c1\<lparr>c_next := Suc (c_next c1)\<rparr>;
                                     (c3, es) = record_sent E (matchToIncoming sentReq c1') s c1'
                                 in (c3, EvSentFriendRequest outgoingReq # es)))
                     in case persistClientLocked (cl_persist E) a c2 of
                          (c4, ok) \<Rightarrow> if ok then Ok (c4, EvSendOnion round onion # evs) else Panic)))))"

section \<open>Receiving\<close>

text \<open>One decrypted introduction: what it is as a request, if it verifies.\<close>

definition read_introduction ::
  "('mpk, 'msk, 'bpk, 'bsk, 'vk, 'gk) cl_env \<Rightarrow> keyAddr list \<Rightarrow> 'bpk list \<Rightarrow> bytes \<Rightarrow> IncomingFriendRequest option" where
  "read_introduction E verifiers multisigKeys msg =
     (case introduction_UnmarshalBinary msg of
        Ok intro \<Rightarrow>
          if introduction_Verify (cl_pkg E) (cl_bls_verify_compressed E) multisigKeys intro
          then Some \<lparr>ir_Username = IdentityToUsername (in_Username intro), ir_LongTermKey = in_LongTermKey intro,
            ir_DHPublicKey = in_DHPublicKey intro, ir_DialRound = in_DialingRound intro, ir_Verifiers = verifiers\<rparr>
          else None
      | _ \<Rightarrow> None)"

definition decodeAddFriendMessage ::
  "('mpk, 'msk, 'bpk, 'bsk, 'vk, 'gk) cl_env \<Rightarrow> bytes \<Rightarrow> keyAddr list \<Rightarrow> 'bpk list \<Rightarrow> ('mpk, 'bpk) client \<Rightarrow>
   ('mpk, 'bpk) client \<times> client_event list" where
  "decodeAddFriendMessage E msg verifiers multisigKeys c =
     (case read_introduction E verifiers multisigKeys msg of
        None \<Rightarrow> (c, [])
      | Some req \<Rightarrow>
          (let c' = c\<lparr>c_next := Suc (c_next c)\<rparr> in record_received E (matchToSent req c') (c_next c, req) c'))"

text \<open>The loop over the encrypted introductions, in the order the workers take them.\<close>

fun scan_intros ::
  "('mpk, 'msk, 'bpk, 'bsk, 'vk, 'gk) cl_env \<Rightarrow> bytes \<Rightarrow> keyAddr list \<Rightarrow> 'bpk list \<Rightarrow> bytes list \<Rightarrow> ('mpk, 'bpk) client \<Rightarrow>
   ('mpk, 'bpk) client \<times> client_event list" where
  "scan_intros E privKey verifiers multisigKeys [] c = (c, [])"
| "scan_intros E privKey verifiers multisigKeys (ctxt # ctxts) c =
     (case cl_ibe_open E privKey ctxt of
        None \<Rightarrow> scan_intros E privKey verifiers multisigKeys ctxts c
      | Some msg \<Rightarrow>
          (case decodeAddFriendMessage E msg verifiers multisigKeys c of
             (c1, evs) \<Rightarrow> (case scan_intros E privKey verifiers multisigKeys ctxts c1 of (c2, evs') \<Rightarrow> (c2, evs @ evs'))))"

definition chunks :: "nat \<Rightarrow> bytes \<Rightarrow> bytes list" where
  "chunks n d = map (\<lambda>i. take n (drop (i * n) d)) [0..<length d div n]"

text \<open>\<open>http_get\<close> fetches the mailbox; \<open>workers\<close> gives the order in which the introductions are taken.\<close>

definition scanMailbox ::
  "('mpk, 'msk, 'bpk, 'bsk, 'vk, 'gk) cl_env \<Rightarrow> (bytes \<Rightarrow> string \<Rightarrow> bytes option) \<Rightarrow> (bytes list \<Rightarrow> bytes list) \<Rightarrow> write_answer \<Rightarrow>
   u32 \<Rightarrow> string \<Rightarrow> u32 \<Rightarrow> ('mpk, 'bpk) client \<Rightarrow> ('mpk, 'bpk) handled" where
  "scanMailbox E http_get workers a round url numMailboxes c =
     (case c_addFriendRounds c round of
        None \<Rightarrow> Ok (c, [])
      | Some st \<Rightarrow>
          bind_outcome (usernameToMailbox (cl_sha256 E) (c_Username c) numMailboxes) (\<lambda>mailboxID.
            let size = SizeEncryptedIntro (cl_ibe_overhead E) in
            case fetchMailbox (cl_set_query E) http_get (af_CDNServer (as_Config st)) url mailboxID of
              None \<Rightarrow> Ok (c, [EvError FetchingMailbox])
            | Some mailbox \<Rightarrow>
                if length mailbox = 0 \<or> length mailbox mod size \<noteq> 0
                then Ok (c, [EvError (MalformedMailbox round mailboxID (length mailbox))])
                else if \<not> as_ExtractSuccess st then Ok (c, [EvError (IncompleteExtraction round)])
                else (let privKey = cl_aggregate_private E (map the (the (as_PrivateKeys st)));
                          (c', evs) = scan_intros E privKey (af_PKGServers (as_Config st)) (as_ServerBLSKeys st)
                            (workers (chunks size mailbox)) c
                      in case persistClientLocked (cl_persist E) a c' of
                           (c'', ok) \<Rightarrow> if ok then Ok (c'', evs) else Panic)))"

section \<open>An instance\<close>

text \<open>
  An environment for evaluating the properties: a key is its own public half and a shared key the sum
  of two, the encryption and the onion are the plaintext, a signature is the key with the message.
\<close>

definition demo_persist :: "(bytes, bytes) persist_env" where
  "demo_persist = \<lparr>pe_enc = (\<lambda>_. []), pe_dec = (\<lambda>_. None), pe_wheel_enc = (\<lambda>_. []), pe_wheel_dec = (\<lambda>_. None),
     pe_ClientPath = [], pe_KeywheelPath = [], pe_cfg = demo_env (\<lambda>_. Some []) (\<lambda>_. [])\<rparr>"

definition demo_cl_env :: "(bytes, bytes, bytes, bytes, bytes, bytes) cl_env" where
  "demo_cl_env = \<lparr>cl_persist = demo_persist, cl_pkg = demo_intro_env\<lparr>pe_ed_sign := demo_ed_sign\<rparr>, cl_hmac = (\<lambda>k m. m @ k),
     cl_siphash = (\<lambda>_ _ _. (0, 0)), cl_sha256 = (\<lambda>b. b), cl_mix_json = (\<lambda>_. []),
     cl_sd_json = (\<lambda>_. Some \<lparr>sd_CDNKey = [3], sd_CDNAddress = ''d'', sd_NumMailboxes = 1\<rparr>), cl_precompute = map2 (+),
     cl_ibe_overhead = 0, cl_aggregate_master = concat, cl_aggregate_private = concat, cl_ibe_encrypt = (\<lambda>_ _ m _. m),
     cl_ibe_open = (\<lambda>_. Some), cl_bls_aggregate = concat, cl_bls_verify = (\<lambda>_ _ _. True),
     cl_bls_verify_compressed = (\<lambda>_ _ _. True), cl_onion_seal = (\<lambda>m _ _ _. m), cl_box_open = (\<lambda>m _ _. Some m),
     cl_valid_key = (\<lambda>_. True), cl_set_query = (\<lambda>u k v. Some (u @ ''?'' @ k @ ''='' @ v))\<rparr>"

definition demo_mix_round :: "u32 \<Rightarrow> MixRound" where
  "demo_mix_round round = \<lparr>mr_MixSettings = \<lparr>rs_Service = ''S'', rs_Round = round, rs_OnionKeys = [[1]], rs_RawServiceData = [0],
     rs_ServiceData = None\<rparr>, mr_MixSignatures = [fixed 64 (replicate 32 4 @ str_bytes ''RoundSettings'')]\<rparr>"

definition demo_mixers :: "keyAddr list" where "demo_mixers = [\<lparr>ka_Key = replicate 32 4, ka_Address = ''m''\<rparr>]"

lemma demo_check_mix:
  "check_mix_round demo_cl_env demo_mixers (demo_mix_round n) = Ok \<lparr>sd_CDNKey = [3], sd_CDNAddress = ''d'', sd_NumMailboxes = 1\<rparr>"
  by (simp add: check_mix_round_def demo_mix_round_def demo_mixers_def demo_cl_env_def demo_intro_env_def ServiceData_Unmarshal_def
      ServiceDataVersion_def pkg_ed_verify_def RoundSettings_SigningMessage_def)

definition demo_party :: "string \<Rightarrow> byte \<Rightarrow> (bytes, bytes) client" where
  "demo_party name key = (new_client None None)\<lparr>c_Username := name, c_LongTermPublicKey := replicate 32 key,
     c_LongTermPrivateKey := replicate 64 key\<rparr>"

end
