(* ===== verification/ClientDialing.thy ===== *)
theory ClientDialing
  imports ClientAddFriend
begin

text \<open>
  The client's side of the dialing protocol (src/dialing.go): a new round, the onion with the next
  call, and the scan of the Bloom filter, which ends with the erasure of the round's keys.
\<close>

section \<open>A new round\<close>

definition as_DialingConfig :: "SignedConfig \<Rightarrow> DialingConfig option" where
  "as_DialingConfig c = (case sc_Inner c of Some (InnerDialing d) \<Rightarrow> Some d | _ \<Rightarrow> None)"

definition newDialingRound ::
  "('mpk, 'msk, 'bpk, 'bsk, 'vk, 'gk) cl_env \<Rightarrow> int \<Rightarrow> SignedConfig option list http_result \<Rightarrow> write_answer \<Rightarrow> u32 \<Rightarrow> string \<Rightarrow>
   ('mpk, 'bpk) client \<Rightarrow> ('mpk, 'bpk) handled" where
  "newDialingRound E now chain a round configHash c =
     (case c_dialingRounds c round of
        Some st \<Rightarrow>
          bind_outcome (hash_config (cl_persist E) (Some (ds_ConfigParent st))) (\<lambda>h.
            Ok (c, if h \<noteq> configHash then [EvError (DifferentConfigs round)] else []))
      | None \<Rightarrow>
          (case c_dialingConfig c of
             None \<Rightarrow> Panic
           | Some current \<Rightarrow>
               if configHash = c_dialingConfigHash c
               then (case as_DialingConfig current of
                       None \<Rightarrow> Panic
                     | Some conf \<Rightarrow> Ok (c\<lparr>c_dialingRounds := (c_dialingRounds c)(round \<mapsto> \<lparr>ds_Config = conf, ds_ConfigParent = current\<rparr>)\<rparr>, []))
               else (case FetchAndVerifyChain (pe_cfg (cl_persist E)) now chain current configHash of
                       Err e \<Rightarrow> Ok (c, [EvError (FetchingConfig e)])
                     | Panic \<Rightarrow> Panic
                     | Ok configs \<Rightarrow>
                         (case persistLocked_client (cl_persist E) a
                                 (c\<lparr>c_dialingConfig := Some (hd configs), c_dialingConfigHash := configHash\<rparr>) of
                            (c', ok) \<Rightarrow>
                              if \<not> ok then Panic
                              else (case as_DialingConfig (hd configs) of
                                      None \<Rightarrow> Panic
                                    | Some conf \<Rightarrow> Ok (c'\<lparr>c_dialingRounds := (c_dialingRounds c')(round \<mapsto>
                                          \<lparr>ds_Config = conf, ds_ConfigParent = hd configs\<rparr>)\<rparr>, [EvNewConfig configs]))))))"

section \<open>Sending\<close>

definition nextOutgoingCall :: "('mpk, 'bpk) client \<Rightarrow> ('mpk, 'bpk) client \<times> ref option" where
  "nextOutgoingCall c =
     (case c_outgoingCalls c of call # rest \<Rightarrow> (c\<lparr>c_outgoingCalls := rest\<rparr>, Some call) | [] \<Rightarrow> (c, None))"

definition update_call :: "ref \<Rightarrow> (OutgoingCall \<Rightarrow> OutgoingCall) \<Rightarrow> ('mpk, 'bpk) client \<Rightarrow> ('mpk, 'bpk) client" where
  "update_call r f c = c\<lparr>c_callStore := (c_callStore c)(r := map_option f (c_callStore c r))\<rparr>"

text \<open>
  The message of a call: its token, for the mailbox of the friend. A token that could not be
  computed is nil, and slicing it panics. \<open>app\<close> is what the application does in \<open>SendingCall\<close>.
\<close>

definition call_message ::
  "('mpk, 'msk, 'bpk, 'bsk, 'vk, 'gk) cl_env \<Rightarrow> (ref \<Rightarrow> ('mpk, 'bpk) client \<Rightarrow> ('mpk, 'bpk) client) \<Rightarrow> u32 \<Rightarrow> ServiceData \<Rightarrow> ref \<Rightarrow>
   ('mpk, 'bpk) client \<Rightarrow> (unit, ('mpk, 'bpk) client \<times> MixMessage) outcome" where
  "call_message E app round serviceData call c =
     (let c1 = app call (update_call call (oc_sentRound_update (\<lambda>_. round)) c) in
      case c_callStore c1 call of
        None \<Rightarrow> Panic
      | Some oc \<Rightarrow>
          (case computeKeys (cl_hmac E) (c_wheel c1) oc of
             (oc', keys) \<Rightarrow>
               (case ck_token keys of
                  None \<Rightarrow> Panic
                | Some token \<Rightarrow>
                    bind_outcome (usernameToMailbox (cl_sha256 E) (oc_Username oc') (sd_NumMailboxes serviceData)) (\<lambda>mailbox.
                      Ok (update_call call (\<lambda>_. oc') c1, \<lparr>mm_Mailbox = mailbox, mm_Payload = fixed SizeToken token\<rparr>)))))"

definition sendDialingOnion ::
  "('mpk, 'msk, 'bpk, 'bsk, 'vk, 'gk) cl_env \<Rightarrow> (ref \<Rightarrow> ('mpk, 'bpk) client \<Rightarrow> ('mpk, 'bpk) client) \<Rightarrow> bytes \<Rightarrow> MixRound \<Rightarrow>
   ('mpk, 'bpk) client \<Rightarrow> ('mpk, 'bpk) handled" where
  "sendDialingOnion E app coins v c =
     (let round = rs_Round (mr_MixSettings v) in
      case c_dialingRounds c round of
        None \<Rightarrow> Ok (c, [EvError (RoundNotConfigured round)])
      | Some st \<Rightarrow>
          (case check_mix_round E (dc_MixServers (ds_Config st)) v of
             Err e \<Rightarrow> Ok (c, [EvError e]) | Panic \<Rightarrow> Panic
           | Ok serviceData \<Rightarrow>
               (case nextOutgoingCall (c\<lparr>c_lastDialingRound := round\<rparr>) of
                  (c1, call) \<Rightarrow>
                    bind_outcome (case call of
                        None \<Rightarrow> Ok (c1, \<lparr>mm_Mailbox = 0, mm_Payload = fixed SizeToken []\<rparr>)
                      | Some r \<Rightarrow> call_message E app round serviceData r c1) (\<lambda>(c2, m).
                      Ok (c2, (case call of None \<Rightarrow> [] | Some r \<Rightarrow> [EvSendingCall r]) @
                        [EvSendOnion round (cl_onion_seal E (MixMessage_MarshalBinary SizeToken m) (ForwardNonce round)
                           (rs_OnionKeys (mr_MixSettings v)) coins)])))))"

section \<open>Receiving\<close>

text \<open>The tokens of one friend: those in the filter are calls.\<close>

fun test_tokens ::
  "('mpk, 'msk, 'bpk, 'bsk, 'vk, 'gk) cl_env \<Rightarrow> Filter \<Rightarrow> u32 \<Rightarrow> wheel \<Rightarrow> string \<Rightarrow> nat \<Rightarrow> bytes list \<Rightarrow> (bloom_error, client_event list) outcome" where
  "test_tokens E flt round w from intent [] = Ok []"
| "test_tokens E flt round w from intent (token # tokens) =
     bind_outcome (bloom_Test (cl_siphash E) token flt) (\<lambda>hit.
     bind_outcome (test_tokens E flt round w from (Suc intent) tokens) (\<lambda>evs.
       Ok ((if hit then [EvReceivedCall \<lparr>ic_Username = from, ic_Intent = int intent, ic_Round = round,
              ic_SessionKey = SessionKey (cl_hmac E) w from round\<rparr>] else []) @ evs)))"

fun test_users ::
  "('mpk, 'msk, 'bpk, 'bsk, 'vk, 'gk) cl_env \<Rightarrow> Filter \<Rightarrow> u32 \<Rightarrow> wheel \<Rightarrow> UserDialTokens list \<Rightarrow> (bloom_error, client_event list) outcome" where
  "test_users E flt round w [] = Ok []"
| "test_users E flt round w (user # users) =
     bind_outcome (test_tokens E flt round w (FromUsername user) 0 (Tokens user)) (\<lambda>evs.
     bind_outcome (test_users E flt round w users) (\<lambda>evs'. Ok (evs @ evs')))"

text \<open>
  A filter that does not decode is reported and scanned as the empty filter it was made as. \<open>order\<close>
  lists the keywheel's friends as its loop yields them.
\<close>

definition empty_filter :: Filter where "empty_filter = \<lparr>numHashes = 0, filter_data = []\<rparr>"

definition scanBloomFilter ::
  "('mpk, 'msk, 'bpk, 'bsk, 'vk, 'gk) cl_env \<Rightarrow> (bytes \<Rightarrow> string \<Rightarrow> bytes option) \<Rightarrow> (wheel \<Rightarrow> string list) \<Rightarrow> write_answer \<Rightarrow>
   u32 \<Rightarrow> string \<Rightarrow> u32 \<Rightarrow> ('mpk, 'bpk) client \<Rightarrow> ('mpk, 'bpk) handled" where
  "scanBloomFilter E http_get order a round url numMailboxes c =
     (case c_dialingRounds c round of
        None \<Rightarrow> Ok (c, [])
      | Some st \<Rightarrow>
          bind_outcome (usernameToMailbox (cl_sha256 E) (c_Username c) numMailboxes) (\<lambda>mailboxID.
            case fetchMailbox (cl_set_query E) http_get (dc_CDNServer (ds_Config st)) url mailboxID of
              None \<Rightarrow> Ok (c, [EvError FetchingMailbox])
            | Some mailbox \<Rightarrow>
                (let (flt, errs) = (case bloom_UnmarshalBinary mailbox of
                         Ok f \<Rightarrow> (f, []) | Err e \<Rightarrow> (empty_filter, [EvError (DecodingFilter e)]) | Panic \<Rightarrow> (empty_filter, []));
                     allTokens = IncomingDialTokens (cl_hmac E) (c_wheel c) (order (c_wheel c)) (c_Username c) round (nat IntentMax)
                 in case test_users E flt round (c_wheel c) allTokens of
                      Ok calls \<Rightarrow>
                        (case persistKeywheelLocked (cl_persist E) a (c\<lparr>c_wheel := EraseKeys (cl_hmac E) round (c_wheel c)\<rparr>) of
                           (c', ok) \<Rightarrow> if ok then Ok (c', errs @ calls) else Panic)
                    | _ \<Rightarrow> Panic)))"
section \<open>Lemmas\<close>

definition mailbox_of :: "(bytes \<Rightarrow> bytes) \<Rightarrow> string \<Rightarrow> u32 \<Rightarrow> u32" where
  "mailbox_of sha256 u n = get_be32 (take 4 (fixed 32 (sha256 (str_bytes u)))) mod n + 1"

lemma usernameToMailbox_Ok: "n \<noteq> 0 \<Longrightarrow> u \<noteq> [] \<Longrightarrow> usernameToMailbox sha256 u n = Ok (mailbox_of sha256 u n)"
  by (simp add: usernameToMailbox_def mailbox_of_def Let_def)

lemma mailbox_of_bounds: "n \<noteq> 0 \<Longrightarrow> 1 \<le> mailbox_of sha256 u n \<and> mailbox_of sha256 u n \<le> n"
proof -
  assume n: "n \<noteq> 0"
  let ?k = "get_be32 (take 4 (fixed 32 (sha256 (str_bytes u)))) mod n"
  have "?k < n" using n by (simp add: word_mod_less_divisor word_gt_0)
  then have "unat (?k + 1) = Suc (unat ?k)" by (rule unat_Suc_below)
  then show ?thesis using \<open>?k < n\<close> by (simp add: mailbox_of_def word_le_nat_alt word_less_nat_alt)
qed

lemma tested_wf: "bloom_Test sip x f = Ok b \<Longrightarrow> filter_wf f"
  by (cases "map (hash_word sip x) [0..<nat (numHashes f)]")
    (auto simp: filter_wf_def bloom_Test_def bloom_hash_words split: if_splits)

definition call_event ::
  "('mpk, 'msk, 'bpk, 'bsk, 'vk, 'gk) cl_env \<Rightarrow> u32 \<Rightarrow> wheel \<Rightarrow> string \<Rightarrow> nat \<Rightarrow> client_event" where
  "call_event E round w from intent = EvReceivedCall \<lparr>ic_Username = from, ic_Intent = int intent, ic_Round = round,
     ic_SessionKey = SessionKey (cl_hmac E) w from round\<rparr>"

lemma shifted_set:
  "{g (i + j) |j. j < Suc n \<and> P j} = (if P 0 then {g i} else {}) \<union> {g (Suc i + j) |j. j < n \<and> P (Suc j)}"
  for i n :: nat
proof (intro equalityI subsetI)
  fix x assume "x \<in> {g (i + j) |j. j < Suc n \<and> P j}"
  then obtain j where "x = g (i + j)" "j < Suc n" "P j" by blast
  then show "x \<in> (if P 0 then {g i} else {}) \<union> {g (Suc i + j) |j. j < n \<and> P (Suc j)}"
    by (cases j) auto
next
  fix x assume x: "x \<in> (if P 0 then {g i} else {}) \<union> {g (Suc i + j) |j. j < n \<and> P (Suc j)}"
  then consider "P 0" "x = g i" | j where "x = g (i + Suc j)" "j < n" "P (Suc j)" by (auto split: if_splits)
  then show "x \<in> {g (i + j) |j. j < Suc n \<and> P j}"
  proof cases
    case 1
    then show ?thesis by (intro CollectI exI [of _ 0]) simp
  next
    case (2 j)
    then show ?thesis by (intro CollectI exI [of _ "Suc j"]) simp
  qed
qed

lemma test_tokens_value:
  assumes "filter_wf f"
  shows "\<exists>evs. test_tokens E f n w from i toks = Ok evs \<and>
    set evs = {call_event E n w from (i + j) |j. j < length toks \<and> bloom_Test (cl_siphash E) (toks ! j) f = Ok True}"
proof (induction toks arbitrary: i)
  case (Cons t toks)
  obtain hit where h: "bloom_Test (cl_siphash E) t f = Ok hit" using bloom_Test_value [OF assms] by blast
  obtain evs where e: "test_tokens E f n w from (Suc i) toks = Ok evs"
    "set evs = {call_event E n w from (Suc i + j) |j. j < length toks \<and> bloom_Test (cl_siphash E) (toks ! j) f = Ok True}"
    using Cons.IH by blast
  have "{call_event E n w from (i + j) |j. j < length (t # toks) \<and> bloom_Test (cl_siphash E) ((t # toks) ! j) f = Ok True} =
      (if hit then {call_event E n w from i} else {}) \<union> set evs"
    using shifted_set [of "call_event E n w from" i "length toks" "\<lambda>j. bloom_Test (cl_siphash E) ((t # toks) ! j) f = Ok True"]
    unfolding e(2) by (simp add: h)
  moreover have "test_tokens E f n w from i (t # toks) = Ok ((if hit then [call_event E n w from i] else []) @ evs)"
    using h e(1) by (simp add: call_event_def)
  moreover have "set ((if hit then [call_event E n w from i] else []) @ evs) =
      (if hit then {call_event E n w from i} else {}) \<union> set evs" by simp
  ultimately show ?case by (metis (no_types, lifting))
qed auto

lemma test_users_value:
  assumes "filter_wf f"
  shows "\<exists>evs. test_users E f n w users = Ok evs \<and>
    set evs = {call_event E n w (FromUsername u) j |u j. u \<in> set users \<and> j < length (Tokens u) \<and>
      bloom_Test (cl_siphash E) (Tokens u ! j) f = Ok True}"
proof (induction users)
  case (Cons u users)
  then obtain evs where e: "test_users E f n w users = Ok evs"
    "set evs = {call_event E n w (FromUsername u) j |u j. u \<in> set users \<and> j < length (Tokens u) \<and>
      bloom_Test (cl_siphash E) (Tokens u ! j) f = Ok True}" by blast
  obtain evs0 where t: "test_tokens E f n w (FromUsername u) 0 (Tokens u) = Ok evs0"
    "set evs0 = {call_event E n w (FromUsername u) (0 + j) |j. j < length (Tokens u) \<and>
      bloom_Test (cl_siphash E) (Tokens u ! j) f = Ok True}" using test_tokens_value [OF assms] by blast
  show ?case using e t by auto
qed simp

text \<open>The calls a scan reports, once the mailbox was fetched.\<close>

lemma scan_reports:
  assumes "c_dialingRounds b n = Some st" and "num \<noteq> 0" and "c_Username b \<noteq> []"
    and "fetchMailbox (cl_set_query E) http_get (dc_CDNServer (ds_Config st)) url (mailbox_of (cl_sha256 E) (c_Username b) num)
      = Some mailbox"
    and "bloom_UnmarshalBinary mailbox = Ok f" and "filter_wf f" and "wa_wheel ans"
  shows "\<exists>b' evs. scanBloomFilter E http_get order ans n url num b = Ok (b', evs) \<and>
    c_wheel b' = EraseKeys (cl_hmac E) n (c_wheel b) \<and>
    set evs = {call_event E n (c_wheel b) (FromUsername u) j |u j.
      u \<in> set (IncomingDialTokens (cl_hmac E) (c_wheel b) (order (c_wheel b)) (c_Username b) n 3) \<and>
      j < length (Tokens u) \<and> bloom_Test (cl_siphash E) (Tokens u ! j) f = Ok True}"
proof -
  let ?b = "b\<lparr>c_wheel := EraseKeys (cl_hmac E) n (c_wheel b)\<rparr>"
  obtain evs where e: "test_users E f n (c_wheel b)
      (IncomingDialTokens (cl_hmac E) (c_wheel b) (order (c_wheel b)) (c_Username b) n 3) = Ok evs"
    "set evs = {call_event E n (c_wheel b) (FromUsername u) j |u j.
      u \<in> set (IncomingDialTokens (cl_hmac E) (c_wheel b) (order (c_wheel b)) (c_Username b) n 3) \<and>
      j < length (Tokens u) \<and> bloom_Test (cl_siphash E) (Tokens u ! j) f = Ok True}"
    using test_users_value [OF assms(6)] by blast
  obtain b' where b': "persistKeywheelLocked (cl_persist E) ans ?b = (b', True)" "c_wheel b' = c_wheel ?b"
    using assms(7) by (cases "pe_KeywheelPath (cl_persist E) = []") (simp_all add: persistKeywheelLocked_def)
  have "scanBloomFilter E http_get order ans n url num b = Ok (b', evs)"
    using assms(1-5) e(1) b'(1)
    by (simp add: scanBloomFilter_def usernameToMailbox_Ok IntentMax_def)
  then show ?thesis using e(2) b'(2) by auto
qed

text \<open>The onion of a call whose intent the application fixed when it was told.\<close>

definition fix_intent :: "int \<Rightarrow> ref \<Rightarrow> ('mpk, 'bpk) client \<Rightarrow> ('mpk, 'bpk) client" where
  "fix_intent intent r = update_call r (oc_intent_update (\<lambda>_. intent))"

definition dial_onion ::
  "('mpk, 'msk, 'bpk, 'bsk, 'vk, 'gk) cl_env \<Rightarrow> bytes \<Rightarrow> MixRound \<Rightarrow> u32 \<Rightarrow> bytes \<Rightarrow> bytes" where
  "dial_onion E coins v mailbox token = cl_onion_seal E
     (MixMessage_MarshalBinary SizeToken \<lparr>mm_Mailbox = mailbox, mm_Payload = token\<rparr>)
     (ForwardNonce (rs_Round (mr_MixSettings v))) (rs_OnionKeys (mr_MixSettings v)) coins"

lemma dial_sends:
  assumes "rs_Round (mr_MixSettings v) = n" and "n \<noteq> 0" and "c_dialingRounds a n = Some st"
    and "check_mix_round E (dc_MixServers (ds_Config st)) v = Ok sd" and "sd_NumMailboxes sd \<noteq> 0"
    and "c_outgoingCalls a = r # rest" and "c_callStore a r = Some call" and "oc_Username call = bob" and "bob \<noteq> []"
    and "oc_dialToken call = None" and "wheel_secret (cl_hmac E) (c_wheel a) bob n = Some s"
  shows "\<exists>a' call'. sendDialingOnion E (fix_intent intent) coins v a =
      Ok (a', [EvSendingCall r, EvSendOnion n (dial_onion E coins v (mailbox_of (cl_sha256 E) bob (sd_NumMailboxes sd))
        (hash2 (cl_hmac E) s n bob intent))]) \<and>
    c_callStore a' r = Some call' \<and> oc_sessionKey call' = Some (hash3 (cl_hmac E) s n) \<and> oc_sentRound call' = n \<and>
    c_outgoingCalls a' = rest \<and> c_wheel a' = c_wheel a"
  using assms
  by (simp add: sendDialingOnion_def Let_def nextOutgoingCall_def call_message_def fix_intent_def update_call_def
      computeKeys_def OutgoingDialToken_secret SessionKey_secret usernameToMailbox_Ok dial_onion_def SizeToken_def)

text \<open>A filter with the token of a call of a friend makes the scan report the call.\<close>

lemma scan_finds_call:
  assumes "c_dialingRounds b n = Some st" and "num \<noteq> 0" and "c_Username b = bob" and "bob \<noteq> []"
    and "fetchMailbox (cl_set_query E) http_get (dc_CDNServer (ds_Config st)) url (mailbox_of (cl_sha256 E) bob num) = Some mailbox"
    and "bloom_UnmarshalBinary mailbox = Ok f"
    and "bloom_Test (cl_siphash E) (hash2 (cl_hmac E) s n bob (int intent)) f = Ok True" and "intent < 3"
    and "wheel_secret (cl_hmac E) (c_wheel b) alice n = Some s" and "alice \<in> set (order (c_wheel b))" and "wa_wheel ans"
  shows "\<exists>b' evs. scanBloomFilter E http_get order ans n url num b = Ok (b', evs) \<and>
    EvReceivedCall \<lparr>ic_Username = alice, ic_Intent = int intent, ic_Round = n,
      ic_SessionKey = Some (hash3 (cl_hmac E) s n)\<rparr> \<in> set evs \<and>
    c_wheel b' = EraseKeys (cl_hmac E) n (c_wheel b)"
proof -
  have u: "\<lparr>FromUsername = alice, Tokens = map (\<lambda>i. hash2 (cl_hmac E) s n bob (int i)) [0..<3]\<rparr>
      \<in> set (IncomingDialTokens (cl_hmac E) (c_wheel b) (order (c_wheel b)) bob n 3)"
    by (rule in_IncomingDialTokens [OF assms(9,10)])
  have e: "call_event E n (c_wheel b) alice intent = EvReceivedCall \<lparr>ic_Username = alice, ic_Intent = int intent, ic_Round = n,
      ic_SessionKey = Some (hash3 (cl_hmac E) s n)\<rparr>"
    by (simp add: call_event_def SessionKey_secret assms(9))
  have n: "c_Username b \<noteq> []" "fetchMailbox (cl_set_query E) http_get (dc_CDNServer (ds_Config st)) url
      (mailbox_of (cl_sha256 E) (c_Username b) num) = Some mailbox" using assms(3-5) by simp_all
  obtain b' evs where s: "scanBloomFilter E http_get order ans n url num b = Ok (b', evs)"
    "c_wheel b' = EraseKeys (cl_hmac E) n (c_wheel b)"
    "set evs = {call_event E n (c_wheel b) (FromUsername u) j |u j.
      u \<in> set (IncomingDialTokens (cl_hmac E) (c_wheel b) (order (c_wheel b)) (c_Username b) n 3) \<and>
      j < length (Tokens u) \<and> bloom_Test (cl_siphash E) (Tokens u ! j) f = Ok True}"
    using scan_reports [where order = order, OF assms(1,2) n assms(6) tested_wf [OF assms(7)] assms(11)] by blast
  have "call_event E n (c_wheel b) alice intent \<in> set evs"
    unfolding s(3) using u assms(3,7,8) by force
  then show ?thesis using s(1,2) e by metis
qed

section \<open>Properties\<close>

text \<open>
  C2: a call reaches the friend. Two clients hold the same secret of a round under each other's
  names (what the add-friend protocol leaves). When the caller's first call in the queue is to the
  other, the round's message passes the checks and the application fixes the intent as it is told,
  the caller sends one onion, which hides the call's token for the friend's mailbox. When a filter
  fetched from this mailbox contains the token, the friend's scan reports a call from the caller
  with this intent, with the session key the caller's call object holds; and afterwards the friend's
  keywheel has forgotten the keys of this round and all before, and none of the later ones.
\<close>

theorem call_reaches_friend:
  assumes "rs_Round (mr_MixSettings v) = n" and "n \<noteq> 0" and "n + 1 \<noteq> 0"
    and "c_dialingRounds a n = Some st" and "check_mix_round E (dc_MixServers (ds_Config st)) v = Ok sd" and "sd_NumMailboxes sd \<noteq> 0"
    and "c_outgoingCalls a = r # rest" and "c_callStore a r = Some call" and "oc_Username call = bob" and "oc_dialToken call = None"
    and "wheel_secret (cl_hmac E) (c_wheel a) bob n = Some s" and "wheel_secret (cl_hmac E) (c_wheel b) alice n = Some s"
    and "c_Username b = bob" and "bob \<noteq> []" and "c_dialingRounds b n = Some st'" and "alice \<in> set (order (c_wheel b))"
    and "fetchMailbox (cl_set_query E) http_get (dc_CDNServer (ds_Config st')) url
      (mailbox_of (cl_sha256 E) bob (sd_NumMailboxes sd)) = Some mailbox"
    and "bloom_UnmarshalBinary mailbox = Ok f" and "wa_wheel ans" and "intent < 3"
    and "bloom_Test (cl_siphash E) (hash2 (cl_hmac E) s n bob (int intent)) f = Ok True"
  shows "\<exists>a' call' key b' evs. sendDialingOnion E (fix_intent (int intent)) coins v a =
      Ok (a', [EvSendingCall r, EvSendOnion n (dial_onion E coins v (mailbox_of (cl_sha256 E) bob (sd_NumMailboxes sd))
        (hash2 (cl_hmac E) s n bob (int intent)))]) \<and>
    c_callStore a' r = Some call' \<and> oc_sessionKey call' = Some key \<and>
    scanBloomFilter E http_get order ans n url (sd_NumMailboxes sd) b = Ok (b', evs) \<and>
    EvReceivedCall \<lparr>ic_Username = alice, ic_Intent = int intent, ic_Round = n, ic_SessionKey = Some key\<rparr> \<in> set evs \<and>
    (\<forall>u m. wheel_secret (cl_hmac E) (c_wheel b') u m =
       (if m \<le> n then None else wheel_secret (cl_hmac E) (c_wheel b) u m))"
proof -
  obtain a' call' where a: "sendDialingOnion E (fix_intent (int intent)) coins v a =
      Ok (a', [EvSendingCall r, EvSendOnion n (dial_onion E coins v (mailbox_of (cl_sha256 E) bob (sd_NumMailboxes sd))
        (hash2 (cl_hmac E) s n bob (int intent)))])"
    "c_callStore a' r = Some call'" "oc_sessionKey call' = Some (hash3 (cl_hmac E) s n)"
    using dial_sends [OF assms(1,2,4-9,14,10,11)] by blast
  obtain b' evs where b: "scanBloomFilter E http_get order ans n url (sd_NumMailboxes sd) b = Ok (b', evs)"
    "EvReceivedCall \<lparr>ic_Username = alice, ic_Intent = int intent, ic_Round = n,
      ic_SessionKey = Some (hash3 (cl_hmac E) s n)\<rparr> \<in> set evs"
    "c_wheel b' = EraseKeys (cl_hmac E) n (c_wheel b)"
    using scan_finds_call [where order = order, OF assms(15,6,13,14,17,18,21,20,12,16,19)] by blast
  have "wheel_secret (cl_hmac E) (c_wheel b') u m = (if m \<le> n then None else wheel_secret (cl_hmac E) (c_wheel b) u m)" for u m
    using kw.secret_erase_earlier [of m n "cl_hmac E" "c_wheel b" u] kw.secret_erase_later [of n m "cl_hmac E" "c_wheel b" u] assms(3)
    by (simp add: b(3) not_le)
  then show ?thesis using a b(1,2) by blast
qed

definition demo_dialer :: "string \<Rightarrow> string \<Rightarrow> (bytes, bytes) client" where
  "demo_dialer name friend = (demo_party name 1)\<lparr>c_wheel := Put friend 2 (replicate 32 6) Map.empty,
     c_dialingRounds := [3 \<mapsto> \<lparr>ds_Config = demo_dialing\<lparr>dc_MixServers := demo_mixers\<rparr>, ds_ConfigParent = demo_config 1 '''' 1 Map.empty\<rparr>],
     c_outgoingCalls := [0], c_next := 1, c_callStore := [0 \<mapsto> \<lparr>oc_Username = friend, oc_Created = 0, oc_intent = 0, oc_sentRound = 0,
       oc_dialToken = None, oc_sessionKey = None\<rparr>]\<rparr>"

lemma call_reaches_friend_witness:
  "\<exists>key b' evs. scanBloomFilter demo_cl_env (\<lambda>_ _. Some [0, 0, 0, 1, 1]) (\<lambda>_. [''alice'']) \<lparr>wa_client = True, wa_wheel = True\<rparr>
      3 ''u'' 1 (demo_dialer ''bob'' ''alice'') = Ok (b', evs) \<and>
     EvReceivedCall \<lparr>ic_Username = ''alice'', ic_Intent = 2, ic_Round = 3, ic_SessionKey = Some key\<rparr> \<in> set evs"
proof -
  let ?a = "demo_dialer ''alice'' ''bob''" and ?b = "demo_dialer ''bob'' ''alice''"
  let ?sd = "\<lparr>sd_CDNKey = [3], sd_CDNAddress = ''d'', sd_NumMailboxes = 1\<rparr>"
  let ?st = "\<lparr>ds_Config = demo_dialing\<lparr>dc_MixServers := demo_mixers\<rparr>, ds_ConfigParent = demo_config 1 '''' 1 Map.empty\<rparr>"
  let ?s = "roll (cl_hmac demo_cl_env) (replicate 32 6) 2 3"
  let ?call = "\<lparr>oc_Username = ''bob'', oc_Created = 0, oc_intent = 0, oc_sentRound = 0, oc_dialToken = None, oc_sessionKey = None\<rparr>"
  have w: "wheel_secret (cl_hmac demo_cl_env) (c_wheel ?a) ''bob'' 3 = Some ?s"
      "wheel_secret (cl_hmac demo_cl_env) (c_wheel ?b) ''alice'' 3 = Some ?s"
    by (simp_all add: kw.secret_put demo_dialer_def)
  have f: "bloom_UnmarshalBinary [0, 0, 0, 1, 1] = Ok \<lparr>numHashes = 1, filter_data = [1]\<rparr>"
    by (simp add: bloom_UnmarshalBinary_def get_be32_def word32_of_def)
  have t: "bloom_Test (cl_siphash demo_cl_env) (hash2 (cl_hmac demo_cl_env) ?s 3 ''bob'' (int 2)) \<lparr>numHashes = 1, filter_data = [1]\<rparr> = Ok True"
    by (simp add: bloom_Test_value filter_wf_def nbits_def demo_cl_env_def hash_word_def has_bit_def)
  have "check_mix_round demo_cl_env (dc_MixServers (ds_Config ?st)) (demo_mix_round 3) = Ok ?sd"
    using demo_check_mix by simp
  moreover have "fetchMailbox (cl_set_query demo_cl_env) (\<lambda>_ _. Some [0, 0, 0, 1, 1]) (dc_CDNServer (ds_Config ?st)) ''u''
      (mailbox_of (cl_sha256 demo_cl_env) ''bob'' (sd_NumMailboxes ?sd)) = Some [0, 0, 0, 1, 1]"
    by (simp add: fetchMailbox_def demo_cl_env_def)
  ultimately have "\<exists>a' call' key b' evs. sendDialingOnion demo_cl_env (fix_intent (int 2)) [] (demo_mix_round 3) ?a =
      Ok (a', [EvSendingCall 0, EvSendOnion 3 (dial_onion demo_cl_env [] (demo_mix_round 3)
        (mailbox_of (cl_sha256 demo_cl_env) ''bob'' (sd_NumMailboxes ?sd)) (hash2 (cl_hmac demo_cl_env) ?s 3 ''bob'' (int 2)))]) \<and>
    c_callStore a' 0 = Some call' \<and> oc_sessionKey call' = Some key \<and>
    scanBloomFilter demo_cl_env (\<lambda>_ _. Some [0, 0, 0, 1, 1]) (\<lambda>_. [''alice'']) \<lparr>wa_client = True, wa_wheel = True\<rparr> 3 ''u''
      (sd_NumMailboxes ?sd) ?b = Ok (b', evs) \<and>
    EvReceivedCall \<lparr>ic_Username = ''alice'', ic_Intent = int 2, ic_Round = 3, ic_SessionKey = Some key\<rparr> \<in> set evs \<and>
    (\<forall>u m. wheel_secret (cl_hmac demo_cl_env) (c_wheel b') u m =
       (if m \<le> 3 then None else wheel_secret (cl_hmac demo_cl_env) (c_wheel ?b) u m))"
    by (intro call_reaches_friend [where st = ?st and st' = ?st and call = ?call and rest = "[]"
          and mailbox = "[0, 0, 0, 1, 1]", OF _ _ _ _ _ _ _ _ _ _ w _ _ _ _ _ f _ _ t])
      (simp_all add: demo_dialer_def demo_mix_round_def demo_party_def new_client_def)
  then show ?thesis by force
qed

end
