(* ===== verification/Friendship.thy ===== *)
theory Friendship
  imports ClientDialing
begin

text \<open>
  The add-friend protocol between two clients: what a handler does in a run without errors, and the
  exchange of a request and its confirmation, after which both keywheels hold one secret.
\<close>

section \<open>What the handlers do\<close>

lemma persistClientLocked_file:
  "persistClientLocked P a c = (c', ok) \<Longrightarrow> \<exists>x. c' = c\<lparr>c_clientFile := x\<rparr>"
  by (auto simp: persistClientLocked_def split: if_splits intro: exI [of _ "c_clientFile c"])

lemma chunks_concat:
  assumes "n \<noteq> 0" and "\<forall>x\<in>set xs. length x = n"
  shows "chunks n (concat xs) = xs"
proof -
  have l: "length (concat xs) = length xs * n" using assms(2) by (induction xs) auto
  have "take n (drop (i * n) (concat xs)) = xs ! i" if "i < length xs" for i
    using that assms(2)
  proof (induction xs arbitrary: i)
    case (Cons x xs)
    then show ?case by (cases i) auto
  qed simp
  then show ?thesis using assms(1) by (intro nth_equalityI) (simp_all add: chunks_def l)
qed

text \<open>The introductions a private key does not open change nothing.\<close>

lemma scan_one:
  assumes "filter (\<lambda>x. cl_ibe_open E priv x \<noteq> None) xs = [ct]" and "cl_ibe_open E priv ct = Some msg"
  shows "scan_intros E priv verifiers keys xs c = decodeAddFriendMessage E msg verifiers keys c"
  using assms(1)
proof (induction xs arbitrary: c)
  case (Cons x xs)
  show ?case
  proof (cases "cl_ibe_open E priv x")
    case None
    then show ?thesis using Cons by simp
  next
    case (Some m)
    have none: "scan_intros E priv verifiers keys ys c' = (c', [])"
      if "filter (\<lambda>x. cl_ibe_open E priv x \<noteq> None) ys = []" for ys c'
      using that by (induction ys) (auto split: if_splits option.splits)
    show ?thesis using Some Cons.prems assms(2) none by (auto split: prod.split)
  qed
qed simp

lemma scanMailbox_one:
  assumes "scanMailbox E http_get workers ans n url num b = Ok (b', evs)"
    and "c_addFriendRounds b n = Some st" and "as_ExtractSuccess st"
    and "num \<noteq> 0" and "c_Username b \<noteq> []"
    and "fetchMailbox (cl_set_query E) http_get (af_CDNServer (as_Config st)) url (mailbox_of (cl_sha256 E) (c_Username b) num)
      = Some (concat intros)"
    and "\<forall>x\<in>set intros. length x = SizeEncryptedIntro (cl_ibe_overhead E)" and "intros \<noteq> []"
    and "filter (\<lambda>x. cl_ibe_open E (cl_aggregate_private E (map the (the (as_PrivateKeys st)))) x \<noteq> None) (workers intros) = [ct]"
    and "cl_ibe_open E (cl_aggregate_private E (map the (the (as_PrivateKeys st)))) ct = Some msg"
  shows "\<exists>x b2. decodeAddFriendMessage E msg (af_PKGServers (as_Config st)) (as_ServerBLSKeys st) b = (b2, evs) \<and>
    b' = b2\<lparr>c_clientFile := x\<rparr>"
proof -
  let ?size = "SizeEncryptedIntro (cl_ibe_overhead E)"
  have sz: "?size \<noteq> 0" by (simp add: SizeEncryptedIntro_def SizeIntro_def)
  have l: "length (concat intros) = length intros * ?size" using assms(7) by (induction intros) auto
  obtain b2 evs2 where d: "decodeAddFriendMessage E msg (af_PKGServers (as_Config st)) (as_ServerBLSKeys st) b = (b2, evs2)"
    by (cases "decodeAddFriendMessage E msg (af_PKGServers (as_Config st)) (as_ServerBLSKeys st) b") auto
  obtain b3 ok where p: "persistClientLocked (cl_persist E) ans b2 = (b3, ok)"
    by (cases "persistClientLocked (cl_persist E) ans b2") auto
  have "b3 = b'" "evs2 = evs"
    using assms(1-6,8) sz l scan_one [OF assms(9,10)]
    by (simp_all add: scanMailbox_def Let_def usernameToMailbox_Ok chunks_concat [OF sz assms(7)] d p split: if_splits)
  then show ?thesis using d persistClientLocked_file [OF p] by auto
qed

text \<open>A send that goes through, for a request to somebody.\<close>

lemma sendAddFriendOnion_real:
  assumes "sendAddFriendOnion E dh coins ans v a = Ok (a', evs)" and "rs_Round (mr_MixSettings v) = n"
    and "c_addFriendRounds a n = Some st" and "as_ExtractSuccess st"
    and "check_mix_round E (af_MixServers (as_Config st)) v = Ok sd"
    and "c_outgoing a = (k, out) # rest" and "or_Username out \<noteq> []"
    and "genIntro E dh n st out (a\<lparr>c_outgoing := rest\<rparr>) = (intro, sent)"
  shows "\<exists>m x a2 es. addfriend_message E (fst coins) sd st intro (or_Username out) = Ok m \<and>
    record_sent E (matchToIncoming sent (a\<lparr>c_outgoing := rest, c_next := Suc (c_next a)\<rparr>)) (c_next a, sent)
      (a\<lparr>c_outgoing := rest, c_next := Suc (c_next a)\<rparr>) = (a2, es) \<and> a' = a2\<lparr>c_clientFile := x\<rparr> \<and>
    evs = EvSendOnion n (cl_onion_seal E (MixMessage_MarshalBinary (SizeEncryptedIntro (cl_ibe_overhead E)) m)
      (ForwardNonce n) (rs_OnionKeys (mr_MixSettings v)) (snd coins)) # EvSentFriendRequest out # es"
proof -
  let ?a1 = "a\<lparr>c_outgoing := rest, c_next := Suc (c_next a)\<rparr>"
  have u: "sr_Username sent = or_Username out" using assms(8) by (auto simp: genIntro_def Let_def)
  obtain m where m: "addfriend_message E (fst coins) sd st intro (or_Username out) = Ok m"
    using assms u by (cases "addfriend_message E (fst coins) sd st intro (or_Username out)")
      (simp_all add: sendAddFriendOnion_def nextOutgoingFriendRequest_def)
  obtain a2 es where r: "record_sent E (matchToIncoming sent ?a1) (c_next a, sent) ?a1 = (a2, es)"
    by (cases "record_sent E (matchToIncoming sent ?a1) (c_next a, sent) ?a1") auto
  obtain a3 ok where p: "persistClientLocked (cl_persist E) ans a2 = (a3, ok)"
    by (cases "persistClientLocked (cl_persist E) ans a2") auto
  have "a' = a3" "evs = EvSendOnion n (cl_onion_seal E (MixMessage_MarshalBinary (SizeEncryptedIntro (cl_ibe_overhead E)) m)
      (ForwardNonce n) (rs_OnionKeys (mr_MixSettings v)) (snd coins)) # EvSentFriendRequest out # es"
    using assms u m r p by (simp_all add: sendAddFriendOnion_def nextOutgoingFriendRequest_def Let_def split: if_splits)
  then show ?thesis using m r persistClientLocked_file [OF p] by auto
qed
section \<open>Two clients\<close>

text \<open>
  A client whose name and keys are what registration accepts, and whose signatures verify; and a
  round for which a sender and a receiver are set up: both extracted their keys, what is encrypted
  under the sender's master keys for the receiver is opened by the receiver's key, and the sender's
  attestations verify under the receiver's copy of the key generators' keys.
\<close>

definition good_client :: "('mpk, 'msk, 'bpk, 'bsk, 'vk, 'gk) cl_env \<Rightarrow> ('mpk, 'bpk) client \<Rightarrow> bool" where
  "good_client E c \<longleftrightarrow> c_Username c \<noteq> [] \<and> length (c_Username c) \<le> 64 \<and> 0 \<notin> set (str_bytes (c_Username c)) \<and>
     length (c_LongTermPublicKey c) = 32 \<and>
     (\<forall>m. length (pe_ed_sign (cl_pkg E) (c_LongTermPrivateKey c) m) = 64 \<and>
        pe_ed_verify (cl_pkg E) (c_LongTermPublicKey c) m (pe_ed_sign (cl_pkg E) (c_LongTermPrivateKey c) m))"

definition receiver_key :: "('mpk, 'msk, 'bpk, 'bsk, 'vk, 'gk) cl_env \<Rightarrow> ('mpk, 'bpk) addFriendRoundState \<Rightarrow> bytes" where
  "receiver_key E st = cl_aggregate_private E (map the (the (as_PrivateKeys st)))"

definition round_between ::
  "('mpk, 'msk, 'bpk, 'bsk, 'vk, 'gk) cl_env \<Rightarrow> u32 \<Rightarrow> ('mpk, 'bpk) client \<Rightarrow> ('mpk, 'bpk) client \<Rightarrow> bool" where
  "round_between E n a b \<longleftrightarrow> (\<exists>sa sb. c_addFriendRounds a n = Some sa \<and> c_addFriendRounds b n = Some sb \<and>
     as_ExtractSuccess sa \<and> as_ExtractSuccess sb \<and>
     (\<forall>m coins. cl_ibe_open E (receiver_key E sb) (cl_ibe_encrypt E (cl_aggregate_master E (as_ServerMasterKeys sa))
        (ValidUsernameToIdentity (c_Username b)) m coins) = Some m) \<and>
     cl_bls_verify_compressed E (as_ServerBLSKeys sb)
       (attestation_msgs (cl_pkg E) (ValidUsernameToIdentity (c_Username a)) (c_LongTermPublicKey a) (as_ServerBLSKeys sb))
       (fixed 32 (cl_bls_aggregate E (map the (as_IdentitySigs sa)))))"

text \<open>
  The receiver finds one introduction it can open in its mailbox, the sender's, among others of the
  same size; \<open>workers\<close> may take them in any order.
\<close>

definition mailbox_holds ::
  "('mpk, 'msk, 'bpk, 'bsk, 'vk, 'gk) cl_env \<Rightarrow> (bytes \<Rightarrow> string \<Rightarrow> bytes option) \<Rightarrow> (bytes list \<Rightarrow> bytes list) \<Rightarrow> u32 \<Rightarrow> string \<Rightarrow>
   u32 \<Rightarrow> bytes \<Rightarrow> ('mpk, 'bpk) client \<Rightarrow> bool" where
  "mailbox_holds E http_get workers n url num ct b \<longleftrightarrow> (\<exists>st pre post. c_addFriendRounds b n = Some st \<and> num \<noteq> 0 \<and>
     fetchMailbox (cl_set_query E) http_get (af_CDNServer (as_Config st)) url (mailbox_of (cl_sha256 E) (c_Username b) num) =
       Some (concat (pre @ ct # post)) \<and>
     (\<forall>x\<in>set (pre @ ct # post). length x = SizeEncryptedIntro (cl_ibe_overhead E)) \<and>
     (\<forall>x\<in>set (pre @ post). cl_ibe_open E (receiver_key E st) x = None) \<and>
     mset (workers (pre @ ct # post)) = mset (pre @ ct # post))"

lemma IdentityToUsername_of:
  assumes "length u \<le> 64" and "(0 :: byte) \<notin> set (str_bytes u)"
  shows "IdentityToUsername (ValidUsernameToIdentity u) = u"
proof -
  have "ValidUsernameToIdentity u = str_bytes u @ replicate (64 - length u) 0"
    using assms(1) by (simp add: ValidUsernameToIdentity_def fixed_def)
  moreover have "takeWhile (\<lambda>b. b \<noteq> 0) (str_bytes u @ replicate (64 - length u) 0) =
      str_bytes u @ takeWhile (\<lambda>b. b \<noteq> 0) (replicate (64 - length u) 0)"
    by (rule takeWhile_append2) (use assms(2) in auto)
  moreover have "takeWhile (\<lambda>b. b \<noteq> 0) (replicate n 0) = ([] :: bytes)" for n by (cases n) simp_all
  ultimately show ?thesis by (simp add: IdentityToUsername_def)
qed

lemma read_generated:
  assumes "good_client E a" and "length (fst dh) = 32" and "genIntro E dh n sa out a = (intro, sent)"
    and "cl_bls_verify_compressed E keys (attestation_msgs (cl_pkg E) (ValidUsernameToIdentity (c_Username a)) (c_LongTermPublicKey a) keys)
       (fixed 32 (cl_bls_aggregate E (map the (as_IdentitySigs sa))))"
  shows "read_introduction E verifiers keys (introduction_MarshalBinary intro) =
    Some \<lparr>ir_Username = c_Username a, ir_LongTermKey = c_LongTermPublicKey a, ir_DHPublicKey = fst dh,
      ir_DialRound = sr_DialRound sent, ir_Verifiers = verifiers\<rparr>"
proof -
  have g: "length (c_Username a) \<le> 64" "0 \<notin> set (str_bytes (c_Username a))" "length (c_LongTermPublicKey a) = 32"
    "\<And>m. length (pe_ed_sign (cl_pkg E) (c_LongTermPrivateKey a) m) = 64"
    "\<And>m. pe_ed_verify (cl_pkg E) (c_LongTermPublicKey a) m (pe_ed_sign (cl_pkg E) (c_LongTermPrivateKey a) m)"
    using assms(1) by (auto simp: good_client_def)
  have idl: "length (ValidUsernameToIdentity (c_Username a)) = 64" by (simp add: ValidUsernameToIdentity_def)
  have "introduction_wf intro"
    using assms(2,3) g(3,4) by (auto simp: genIntro_def Let_def introduction_wf_def introduction_Sign_def)
  then have "introduction_UnmarshalBinary (introduction_MarshalBinary intro) = Ok intro" by (rule intro1.dec_enc)
  moreover have "introduction_Verify (cl_pkg E) (cl_bls_verify_compressed E) keys intro"
    using assms(2-4) g(3-5) idl
    by (auto simp: genIntro_def Let_def introduction_Verify_def introduction_Sign_def introduction_msg_def)
  moreover have "in_Username intro = ValidUsernameToIdentity (c_Username a)" "in_LongTermKey intro = c_LongTermPublicKey a"
    "in_DHPublicKey intro = fst dh" "in_DialingRound intro = sr_DialRound sent"
    using assms(2,3) g(3) idl by (auto simp: genIntro_def Let_def introduction_Sign_def)
  ultimately show ?thesis
    by (simp add: read_introduction_def IdentityToUsername_of [OF g(1,2)])
qed

text \<open>The ciphertext of a request, and what the receiver makes of it.\<close>

definition request_ciphertext ::
  "('mpk, 'msk, 'bpk, 'bsk, 'vk, 'gk) cl_env \<Rightarrow> bytes \<times> bytes \<Rightarrow> bytes \<Rightarrow> u32 \<Rightarrow> OutgoingFriendRequest \<Rightarrow> ('mpk, 'bpk) client \<Rightarrow> bytes" where
  "request_ciphertext E dh coins n out a = (let sa = the (c_addFriendRounds a n) in
     cl_ibe_encrypt E (cl_aggregate_master E (as_ServerMasterKeys sa)) (ValidUsernameToIdentity (or_Username out))
       (introduction_MarshalBinary (fst (genIntro E dh n sa out a))) coins)"

definition dial_round_of :: "OutgoingFriendRequest \<Rightarrow> ('mpk, 'bpk) client \<Rightarrow> u32" where
  "dial_round_of out a = (if or_Confirmation out then or_DialRound out else c_lastDialingRound a)"

lemma genIntro_queue: "genIntro E dh n sa out (a\<lparr>c_outgoing := rest\<rparr>) = genIntro E dh n sa out a"
  by (simp add: genIntro_def Let_def)

lemma receives:
  assumes "scanMailbox E http_get workers ans n url num b = Ok (b', evs)" and "round_between E n a b"
    and "mailbox_holds E http_get workers n url num (request_ciphertext E dh coins n out a) b"
    and "or_Username out = c_Username b" and "good_client E a" and "good_client E b" and "length (fst dh) = 32"
  shows "\<exists>x b2 req. record_received E (matchToSent req (b\<lparr>c_next := Suc (c_next b)\<rparr>)) (c_next b, req) (b\<lparr>c_next := Suc (c_next b)\<rparr>) = (b2, evs) \<and>
    b' = b2\<lparr>c_clientFile := x\<rparr> \<and> ir_Username req = c_Username a \<and> ir_LongTermKey req = c_LongTermPublicKey a \<and>
    ir_DHPublicKey req = fst dh \<and> ir_DialRound req = dial_round_of out a"
proof -
  let ?ct = "request_ciphertext E dh coins n out a"
  obtain sa sb where r: "c_addFriendRounds a n = Some sa" "c_addFriendRounds b n = Some sb" "as_ExtractSuccess sb"
    "\<And>m coins. cl_ibe_open E (receiver_key E sb) (cl_ibe_encrypt E (cl_aggregate_master E (as_ServerMasterKeys sa))
        (ValidUsernameToIdentity (c_Username b)) m coins) = Some m"
    "cl_bls_verify_compressed E (as_ServerBLSKeys sb)
       (attestation_msgs (cl_pkg E) (ValidUsernameToIdentity (c_Username a)) (c_LongTermPublicKey a) (as_ServerBLSKeys sb))
       (fixed 32 (cl_bls_aggregate E (map the (as_IdentitySigs sa))))"
    using assms(2) by (auto simp: round_between_def)
  obtain pre post where m: "num \<noteq> 0"
    "fetchMailbox (cl_set_query E) http_get (af_CDNServer (as_Config sb)) url (mailbox_of (cl_sha256 E) (c_Username b) num) =
       Some (concat (pre @ ?ct # post))"
    "\<forall>x\<in>set (pre @ ?ct # post). length x = SizeEncryptedIntro (cl_ibe_overhead E)"
    "\<forall>x\<in>set (pre @ post). cl_ibe_open E (receiver_key E sb) x = None"
    "mset (workers (pre @ ?ct # post)) = mset (pre @ ?ct # post)"
    using assms(3) r(2) by (auto simp: mailbox_holds_def)
  obtain intro sent where g: "genIntro E dh n sa out a = (intro, sent)" by (cases "genIntro E dh n sa out a") auto
  have o: "cl_ibe_open E (receiver_key E sb) ?ct = Some (introduction_MarshalBinary intro)"
    using r(1,4) assms(4) g by (simp add: request_ciphertext_def)
  have "mset (filter (\<lambda>x. cl_ibe_open E (receiver_key E sb) x \<noteq> None) (workers (pre @ ?ct # post))) = {#?ct#}"
  proof -
    have "filter (\<lambda>x. cl_ibe_open E (receiver_key E sb) x \<noteq> None) (pre @ ?ct # post) = [?ct]"
      using m(4) o by (simp add: filter_empty_conv)
    then show ?thesis using m(5) by (metis mset_filter mset_single_iff)
  qed
  then have f: "filter (\<lambda>x. cl_ibe_open E (receiver_key E sb) x \<noteq> None) (workers (pre @ ?ct # post)) = [?ct]"
    by (simp only: mset_single_iff)
  have u: "c_Username b \<noteq> []" using assms(6) by (simp add: good_client_def)
  obtain x b2 where d: "decodeAddFriendMessage E (introduction_MarshalBinary intro) (af_PKGServers (as_Config sb)) (as_ServerBLSKeys sb) b = (b2, evs)"
    "b' = b2\<lparr>c_clientFile := x\<rparr>"
    using scanMailbox_one [OF assms(1) r(2,3) m(1) u m(2,3) _ f [unfolded receiver_key_def] o [unfolded receiver_key_def]] by auto
  let ?req = "\<lparr>ir_Username = c_Username a, ir_LongTermKey = c_LongTermPublicKey a, ir_DHPublicKey = fst dh,
      ir_DialRound = sr_DialRound sent, ir_Verifiers = af_PKGServers (as_Config sb)\<rparr>"
  have "record_received E (matchToSent ?req (b\<lparr>c_next := Suc (c_next b)\<rparr>)) (c_next b, ?req) (b\<lparr>c_next := Suc (c_next b)\<rparr>) = (b2, evs)"
    using d(1) by (simp add: decodeAddFriendMessage_def read_generated [OF assms(5,7) g r(5)] Let_def)
  moreover have "sr_DialRound sent = dial_round_of out a" using g by (auto simp: genIntro_def Let_def dial_round_of_def)
  ultimately show ?thesis using d(2) by (intro exI [of _ x] exI [of _ b2] exI [of _ ?req]) simp
qed

definition same_user :: "('mpk, 'bpk) client \<Rightarrow> ('mpk, 'bpk) client \<Rightarrow> bool" where
  "same_user c c' \<longleftrightarrow> c_Username c' = c_Username c \<and> c_LongTermPublicKey c' = c_LongTermPublicKey c \<and>
     c_LongTermPrivateKey c' = c_LongTermPrivateKey c"

lemma good_client_same: "same_user c c' \<Longrightarrow> good_client E c \<Longrightarrow> good_client E c'"
  by (simp add: good_client_def same_user_def)

text \<open>A client that neither sent a request to a user nor has one from them.\<close>

definition stranger :: "string \<Rightarrow> ('mpk, 'bpk) client \<Rightarrow> bool" where
  "stranger u c \<longleftrightarrow> (\<forall>x\<in>set (c_sent c). sr_Username (snd x) \<noteq> u) \<and> (\<forall>x\<in>set (c_incoming c). ir_Username (snd x) \<noteq> u)"

text \<open>What the book and the keywheel hold about a friend.\<close>

definition befriended ::
  "('mpk, 'msk, 'bpk, 'bsk, 'vk, 'gk) cl_env \<Rightarrow> string \<Rightarrow> bytes \<Rightarrow> u32 \<Rightarrow> bytes \<Rightarrow> ('mpk, 'bpk) client \<Rightarrow> client_event list \<Rightarrow> bool" where
  "befriended E u ltk d seed c evs \<longleftrightarrow> (\<exists>f. EvConfirmedFriend f \<in> set evs \<and> c_friends c u = Some f \<and>
     c_friendStore c f = Some \<lparr>fr_Username = u, fr_LongTermKey = ltk, fr_extraData = []\<rparr>) \<and>
     (\<forall>n\<ge>d. wheel_secret (cl_hmac E) (c_wheel c) u n = Some (roll (cl_hmac E) seed d n))"

lemma newFriend_befriended:
  assumes "newFriend E inReq sentReq c = (c', evs)"
  shows "befriended E (ir_Username (snd inReq)) (ir_LongTermKey (snd inReq)) (ir_DialRound (snd inReq))
    (cl_precompute E (ir_DHPublicKey (snd inReq)) (sr_DHPrivateKey (snd sentReq))) c' evs"
  using assms by (auto simp: newFriend_def Let_def befriended_def kw.secret_put not_less)

lemma befriended_file [simp]: "befriended E u k d s (c\<lparr>c_clientFile := x\<rparr>) evs = befriended E u k d s c evs"
  by (simp add: befriended_def)

lemma befriended_more: "befriended E u k d s c evs \<Longrightarrow> befriended E u k d s c (e # evs)"
  by (auto simp: befriended_def)

text \<open>The first request of a stranger is queued, and so is the first request to one.\<close>

lemma find_none: "\<forall>x\<in>set xs. \<not> P x \<Longrightarrow> find P xs = None"
  by (simp add: find_None_iff)

lemma find_last: "\<forall>x\<in>set xs. \<not> P x \<Longrightarrow> P y \<Longrightarrow> find P (xs @ [y]) = Some y"
  by (induction xs) auto

lemma first_request_sent:
  assumes "sendAddFriendOnion E dh coins ans v a = Ok (a', evs)" and "rs_Round (mr_MixSettings v) = n"
    and "c_addFriendRounds a n = Some st" and "as_ExtractSuccess st" and "check_mix_round E (af_MixServers (as_Config st)) v = Ok sd"
    and "c_outgoing a = (k, out) # rest" and "or_Username out \<noteq> []" and "stranger (or_Username out) a"
  shows "\<exists>sent. c_sent a' = c_sent a @ [(c_next a, sent)] \<and> sr_Username sent = or_Username out \<and>
    sr_DialRound sent = dial_round_of out a \<and> sr_DHPrivateKey sent = snd dh"
proof -
  obtain intro sent where g: "genIntro E dh n st out (a\<lparr>c_outgoing := rest\<rparr>) = (intro, sent)"
    by (cases "genIntro E dh n st out (a\<lparr>c_outgoing := rest\<rparr>)") auto
  let ?a1 = "a\<lparr>c_outgoing := rest, c_next := Suc (c_next a)\<rparr>"
  have s: "sr_Username sent = or_Username out" "sr_DialRound sent = dial_round_of out a" "sr_DHPrivateKey sent = snd dh"
    using g by (auto simp: genIntro_def Let_def dial_round_of_def)
  have n: "matchToIncoming sent ?a1 = None"
    unfolding matchToIncoming_def by (rule find_none) (use assms(8) s(1) in \<open>auto simp: stranger_def\<close>)
  obtain x a2 es where r: "record_sent E (matchToIncoming sent ?a1) (c_next a, sent) ?a1 = (a2, es)" "a' = a2\<lparr>c_clientFile := x\<rparr>"
    using sendAddFriendOnion_real [OF assms(1-7) g] by blast
  then have "c_sent a' = c_sent a @ [(c_next a, sent)]" using n by (auto simp: record_sent_def)
  then show ?thesis using s by blast
qed

lemma first_request_received:
  assumes "scanMailbox E http_get workers ans n url num b = Ok (b', evs)" and "round_between E n a b"
    and "mailbox_holds E http_get workers n url num (request_ciphertext E dh coins n out a) b"
    and "or_Username out = c_Username b" and "good_client E a" and "good_client E b" and "length (fst dh) = 32"
    and "stranger (c_Username a) b"
  shows "\<exists>req. c_incoming b' = c_incoming b @ [(c_next b, req)] \<and> evs = [EvReceivedFriendRequest (c_next b) req] \<and>
    ir_Username req = c_Username a \<and> ir_LongTermKey req = c_LongTermPublicKey a \<and> ir_DHPublicKey req = fst dh \<and>
    ir_DialRound req = dial_round_of out a"
proof -
  obtain x b2 req where r: "record_received E (matchToSent req (b\<lparr>c_next := Suc (c_next b)\<rparr>)) (c_next b, req) (b\<lparr>c_next := Suc (c_next b)\<rparr>) = (b2, evs)"
    "b' = b2\<lparr>c_clientFile := x\<rparr>" "ir_Username req = c_Username a" "ir_LongTermKey req = c_LongTermPublicKey a"
    "ir_DHPublicKey req = fst dh" "ir_DialRound req = dial_round_of out a" using receives [OF assms(1-7)] by blast
  have "matchToSent req (b\<lparr>c_next := Suc (c_next b)\<rparr>) = None"
    unfolding matchToSent_def by (rule find_none) (use assms(8) r(3) in \<open>auto simp: stranger_def\<close>)
  then show ?thesis using r by (auto simp: record_received_def)
qed

text \<open>A confirmation meets the request it confirms, on either side.\<close>

lemma confirmation_sent:
  assumes "sendAddFriendOnion E dh coins ans v b = Ok (b', evs)" and "rs_Round (mr_MixSettings v) = n"
    and "c_addFriendRounds b n = Some st" and "as_ExtractSuccess st" and "check_mix_round E (af_MixServers (as_Config st)) v = Ok sd"
    and "c_outgoing b = (k, confirmation req) # rest" and "c_incoming b = old @ [(j, req)]" and "ir_Username req \<noteq> []"
    and "\<forall>x\<in>set old. ir_Username (snd x) \<noteq> ir_Username req"
  shows "befriended E (ir_Username req) (ir_LongTermKey req) (ir_DialRound req) (cl_precompute E (ir_DHPublicKey req) (snd dh)) b' evs \<and>
    (\<forall>x\<in>set (c_incoming b'). ir_Username (snd x) \<noteq> ir_Username req)"
proof -
  obtain intro sent where g: "genIntro E dh n st (confirmation req) (b\<lparr>c_outgoing := rest\<rparr>) = (intro, sent)"
    by (cases "genIntro E dh n st (confirmation req) (b\<lparr>c_outgoing := rest\<rparr>)") auto
  let ?b1 = "b\<lparr>c_outgoing := rest, c_next := Suc (c_next b)\<rparr>"
  have s: "sr_Username sent = ir_Username req" "sr_DialRound sent = ir_DialRound req" "sr_DHPrivateKey sent = snd dh"
    using g by (auto simp: genIntro_def Let_def confirmation_def)
  have "find (\<lambda>(_, inReq). ir_Username inReq = sr_Username sent \<and> ir_DialRound inReq = sr_DialRound sent) (old @ [(j, req)]) = Some (j, req)"
    by (rule find_last) (use assms(9) s in auto)
  then have "matchToIncoming sent ?b1 = Some (j, req)" by (simp add: matchToIncoming_def assms(7))
  then have rec: "record_sent E (matchToIncoming sent ?b1) (c_next b, sent) ?b1 = newFriend E (j, req) (c_next b, sent) ?b1"
    by (simp add: record_sent_def)
  have u: "or_Username (confirmation req) \<noteq> []" using assms(8) by (simp add: confirmation_def)
  obtain x b2 es where r: "newFriend E (j, req) (c_next b, sent) ?b1 = (b2, es)" "b' = b2\<lparr>c_clientFile := x\<rparr>"
    "\<exists>e1 e2. evs = e1 # e2 # es"
    using sendAddFriendOnion_real [OF assms(1-6) u g] unfolding rec by blast
  have "befriended E (ir_Username req) (ir_LongTermKey req) (ir_DialRound req) (cl_precompute E (ir_DHPublicKey req) (snd dh)) b' evs"
  proof -
    obtain e1 e2 where e: "evs = e1 # e2 # es" using r(3) by blast
    show ?thesis unfolding e r(2) befriended_file
      using befriended_more [OF befriended_more [OF newFriend_befriended [OF r(1)]]] s(3) by simp
  qed
  moreover have "\<forall>x\<in>set (c_incoming b'). ir_Username (snd x) \<noteq> ir_Username req"
    using r(1,2) assms(7,9) by (auto simp: newFriend_def Let_def)
  ultimately show ?thesis by blast
qed

lemma confirmation_received:
  assumes "scanMailbox E http_get workers ans n url num a = Ok (a', evs)" and "round_between E n b a"
    and "mailbox_holds E http_get workers n url num (request_ciphertext E dh coins n out b) a"
    and "or_Username out = c_Username a" and "good_client E b" and "good_client E a" and "length (fst dh) = 32"
    and "c_sent a = old @ [(j, sent)]" and "sr_Username sent = c_Username b" and "sr_DialRound sent = dial_round_of out b"
    and "\<forall>x\<in>set old. sr_Username (snd x) \<noteq> c_Username b"
  shows "befriended E (c_Username b) (c_LongTermPublicKey b) (dial_round_of out b) (cl_precompute E (fst dh) (sr_DHPrivateKey sent)) a' evs \<and>
    (\<forall>x\<in>set (c_sent a'). sr_Username (snd x) \<noteq> c_Username b)"
proof -
  obtain x a2 req where r: "record_received E (matchToSent req (a\<lparr>c_next := Suc (c_next a)\<rparr>)) (c_next a, req) (a\<lparr>c_next := Suc (c_next a)\<rparr>) = (a2, evs)"
    "a' = a2\<lparr>c_clientFile := x\<rparr>" "ir_Username req = c_Username b" "ir_LongTermKey req = c_LongTermPublicKey b"
    "ir_DHPublicKey req = fst dh" "ir_DialRound req = dial_round_of out b" using receives [OF assms(1-7)] by blast
  have "find (\<lambda>(_, s). ir_Username req = sr_Username s \<and> ir_DialRound req = sr_DialRound s) (old @ [(j, sent)]) = Some (j, sent)"
    by (rule find_last) (use assms(9-11) r(3,6) in auto)
  then have "matchToSent req (a\<lparr>c_next := Suc (c_next a)\<rparr>) = Some (j, sent)" by (simp add: matchToSent_def assms(8))
  then have n: "newFriend E (c_next a, req) (j, sent) (a\<lparr>c_next := Suc (c_next a)\<rparr>) = (a2, evs)"
    using r(1) by (simp add: record_received_def)
  have "\<forall>x\<in>set (c_sent a'). sr_Username (snd x) \<noteq> c_Username b"
    using n r(2) assms(8,9,11) by (auto simp: newFriend_def Let_def)
  then show ?thesis using newFriend_befriended [OF n] r(2-6) by simp
qed

section \<open>Properties\<close>

text \<open>
  C1: the add-friend protocol makes friends. Alice's client sends its queued request to Bob in a
  round; Bob's client scans its mailbox, tells the application, and the application approves; in a
  later round Bob's client sends the confirmation and Alice's scans it. In between both may do
  anything else that leaves these requests queued. Then each has the other in the address book with
  the other's long-term key, the application was told, no request between them is left, and both
  keywheels hold the same seed from the same round on, so they agree on every later round. Beyond the
  laws of Diffie-Hellman, signatures and IBE this needs that neither had an older request of the
  other in a queue.
\<close>

theorem friendship_agrees:
  assumes "good_client E a0" and "good_client E b0" and "length (fst dha) = 32" and "length (fst dhb) = 32"
    and "cl_precompute E (fst dhb) (snd dha) = cl_precompute E (fst dha) (snd dhb)"
    and "stranger (c_Username b0) a0" and "stranger (c_Username a0) b0"
    and "round_between E n1 a0 b0" and "rs_Round (mr_MixSettings v1) = n1"
    and "check_mix_round E (af_MixServers (as_Config (the (c_addFriendRounds a0 n1)))) v1 = Ok sd1"
    and "c_outgoing a0 = (k, out) # rest" and "or_Username out = c_Username b0"
    and "sendAddFriendOnion E dha coinsa ansa v1 a0 = Ok (a1, evs1)"
    and "mailbox_holds E get1 workers1 n1 url1 num1 (request_ciphertext E dha (fst coinsa) n1 out a0) b0"
    and "scanMailbox E get1 workers1 ansb n1 url1 num1 b0 = Ok (b1, evs2)"
    and "same_user a0 a2" and "c_sent a2 = c_sent a1" and "same_user b0 b2" and "c_incoming b2 = c_incoming b1"
    and "EvReceivedFriendRequest j req \<in> set evs2" and "c_outgoing b2 = (k', confirmation req) # rest'"
    and "round_between E n2 b2 a2" and "rs_Round (mr_MixSettings v2) = n2"
    and "check_mix_round E (af_MixServers (as_Config (the (c_addFriendRounds b2 n2)))) v2 = Ok sd2"
    and "sendAddFriendOnion E dhb coinsb ansb' v2 b2 = Ok (b3, evs3)"
    and "mailbox_holds E get2 workers2 n2 url2 num2 (request_ciphertext E dhb (fst coinsb) n2 (confirmation req) b2) a2"
    and "scanMailbox E get2 workers2 ansa' n2 url2 num2 a2 = Ok (a3, evs4)"
  shows "befriended E (c_Username b0) (c_LongTermPublicKey b0) (dial_round_of out a0) (cl_precompute E (fst dhb) (snd dha)) a3 evs4 \<and>
    befriended E (c_Username a0) (c_LongTermPublicKey a0) (dial_round_of out a0) (cl_precompute E (fst dhb) (snd dha)) b3 evs3 \<and>
    (\<forall>x\<in>set (c_sent a3). sr_Username (snd x) \<noteq> c_Username b0) \<and>
    (\<forall>x\<in>set (c_incoming b3). ir_Username (snd x) \<noteq> c_Username a0)"
proof -
  obtain sa where sa: "c_addFriendRounds a0 n1 = Some sa" "as_ExtractSuccess sa" using assms(8) by (auto simp: round_between_def)
  obtain sb where sb: "c_addFriendRounds b2 n2 = Some sb" "as_ExtractSuccess sb" using assms(22) by (auto simp: round_between_def)
  have c1: "check_mix_round E (af_MixServers (as_Config sa)) v1 = Ok sd1" using assms(10) sa(1) by simp
  have c2: "check_mix_round E (af_MixServers (as_Config sb)) v2 = Ok sd2" using assms(24) sb(1) by simp
  have names: "c_Username a0 \<noteq> []" "or_Username out \<noteq> []" using assms(1,2,12) by (auto simp: good_client_def)
  have su: "c_Username a2 = c_Username a0" "c_Username b2 = c_Username b0" "c_LongTermPublicKey b2 = c_LongTermPublicKey b0"
    using assms(16,18) by (auto simp: same_user_def)
  have st: "stranger (or_Username out) a0" using assms(6,12) by simp
  obtain sent where s1: "c_sent a1 = c_sent a0 @ [(c_next a0, sent)]" "sr_Username sent = or_Username out"
    "sr_DialRound sent = dial_round_of out a0" "sr_DHPrivateKey sent = snd dha"
    using first_request_sent [OF assms(13,9) sa c1 assms(11) names(2) st] by blast
  obtain req' where r1: "c_incoming b1 = c_incoming b0 @ [(c_next b0, req')]" "evs2 = [EvReceivedFriendRequest (c_next b0) req']"
    "ir_Username req' = c_Username a0" "ir_LongTermKey req' = c_LongTermPublicKey a0" "ir_DHPublicKey req' = fst dha"
    "ir_DialRound req' = dial_round_of out a0"
    using first_request_received [OF assms(15,8,14,12,1,2,3,7)] by blast
  then have req: "req = req'" using assms(20) by simp
  have i2: "c_incoming b2 = c_incoming b0 @ [(c_next b0, req)]" using assms(19) r1(1) req by simp
  have "befriended E (ir_Username req) (ir_LongTermKey req) (ir_DialRound req) (cl_precompute E (ir_DHPublicKey req) (snd dhb)) b3 evs3 \<and>
    (\<forall>x\<in>set (c_incoming b3). ir_Username (snd x) \<noteq> ir_Username req)"
    by (rule confirmation_sent [OF assms(25,23) sb c2 assms(21) i2]) (use names(1) r1(3) req assms(7) in \<open>auto simp: stranger_def\<close>)
  moreover have "befriended E (c_Username b2) (c_LongTermPublicKey b2) (dial_round_of (confirmation req) b2)
      (cl_precompute E (fst dhb) (sr_DHPrivateKey sent)) a3 evs4 \<and> (\<forall>x\<in>set (c_sent a3). sr_Username (snd x) \<noteq> c_Username b2)"
    by (rule confirmation_received [OF assms(27,22,26) _ good_client_same [OF assms(18,2)] good_client_same [OF assms(16,1)] assms(4),
          of "c_sent a0" "c_next a0"])
      (use s1 r1 req su assms(6,12,17) in \<open>auto simp: stranger_def confirmation_def dial_round_of_def\<close>)
  moreover have "dial_round_of (confirmation req) b2 = dial_round_of out a0"
    using r1(6) req by (simp add: dial_round_of_def confirmation_def)
  ultimately show ?thesis using r1 req su s1(4) assms(5) by simp
qed

section \<open>An exchange\<close>

definition demo_afs :: "(bytes, bytes) addFriendRoundState" where
  "demo_afs = \<lparr>as_Config = \<lparr>af_Version = 1, af_Coordinator = \<lparr>ka_Key = [], ka_Address = []\<rparr>, af_PKGServers = [],
       af_MixServers = demo_mixers, af_CDNServer = \<lparr>ka_Key = [], ka_Address = []\<rparr>, af_Registrar = \<lparr>ka_Key = [], ka_Address = []\<rparr>\<rparr>,
     as_ConfigParent = demo_config 1 '''' 1 Map.empty, as_ServerMasterKeys = [], as_PrivateKeys = Some [],
     as_ServerBLSKeys = [], as_IdentitySigs = [], as_ExtractSuccess = True\<rparr>"

definition demo_friend :: "string \<Rightarrow> byte \<Rightarrow> (ref \<times> OutgoingFriendRequest) list \<Rightarrow> (bytes, bytes) client" where
  "demo_friend name key out = (demo_party name key)\<lparr>c_lastDialingRound := 7, c_addFriendRounds := [1 \<mapsto> demo_afs, 2 \<mapsto> demo_afs],
     c_outgoing := out, c_next := 1\<rparr>"

definition demo_friend_request :: OutgoingFriendRequest where
  "demo_friend_request = \<lparr>or_Username = ''bob'', or_ExpectedKey = [], or_Confirmation = False, or_DialRound = 0\<rparr>"

lemma demo_good: "name \<in> {''alice'', ''bob''} \<Longrightarrow> good_client demo_cl_env (demo_friend name k out)"
  by (auto simp: good_client_def demo_friend_def demo_party_def new_client_def demo_cl_env_def demo_intro_env_def demo_ed_sign_def str_bytes_def)

lemma demo_intro_length:
  "length (fst dh) = 32 \<Longrightarrow> length (introduction_MarshalBinary (fst (genIntro demo_cl_env dh n demo_afs out c))) = 228"
  by (simp add: genIntro_def Let_def introduction_MarshalBinary_def introduction_Sign_def)

lemma demo_ciphertext:
  "c_addFriendRounds a n = Some demo_afs \<Longrightarrow> length (fst dh) = 32 \<Longrightarrow> length (request_ciphertext demo_cl_env dh coins n out a) = 228"
proof -
  have "cl_ibe_encrypt demo_cl_env m i t c = t" for m i t c by (simp add: demo_cl_env_def)
  then show "c_addFriendRounds a n = Some demo_afs \<Longrightarrow> length (fst dh) = 32 \<Longrightarrow> ?thesis"
    by (simp add: request_ciphertext_def demo_intro_length)
qed

lemma demo_sends:
  assumes "c_addFriendRounds c n = Some demo_afs" and "length (fst dh) = 32" and "c_outgoing c = (k, out) # rest" and "or_Username out \<noteq> []"
  shows "\<exists>c' evs. sendAddFriendOnion demo_cl_env dh ([], []) ans (demo_mix_round n) c = Ok (c', evs)"
proof -
  let ?sd = "\<lparr>sd_CDNKey = [3], sd_CDNAddress = ''d'', sd_NumMailboxes = 1\<rparr>"
  obtain intro sent where g: "genIntro demo_cl_env dh n demo_afs out (c\<lparr>c_outgoing := rest\<rparr>) = (intro, sent)"
    by (cases "genIntro demo_cl_env dh n demo_afs out (c\<lparr>c_outgoing := rest\<rparr>)") auto
  have u: "sr_Username sent = or_Username out" using g by (auto simp: genIntro_def Let_def)
  have l: "length (introduction_MarshalBinary intro) = 228" using demo_intro_length [OF assms(2)] g by (metis fst_conv)
  have "\<exists>m. addfriend_message demo_cl_env [] ?sd demo_afs intro (or_Username out) = Ok m"
    using assms(4) l by (simp add: addfriend_message_def Let_def usernameToMailbox_Ok demo_cl_env_def SizeEncryptedIntro_def SizeIntro_def)
  moreover have "check_mix_round demo_cl_env (af_MixServers (as_Config demo_afs)) (demo_mix_round n) = Ok ?sd"
    using demo_check_mix by (simp add: demo_afs_def)
  moreover have "rs_Round (mr_MixSettings (demo_mix_round n)) = n" by (simp add: demo_mix_round_def)
  moreover have "as_ExtractSuccess demo_afs" by (simp add: demo_afs_def)
  ultimately show ?thesis
    using assms(1,3,4) g u
    by (auto simp: sendAddFriendOnion_def nextOutgoingFriendRequest_def Let_def persistClientLocked_def demo_cl_env_def demo_persist_def
        split: prod.split)
qed

lemma demo_scans:
  assumes "c_addFriendRounds c n = Some demo_afs" and "length ct = 228" and "c_Username c \<noteq> []"
  shows "\<exists>c' evs. scanMailbox demo_cl_env (\<lambda>_ _. Some ct) (\<lambda>x. x) ans n ''u'' 1 c = Ok (c', evs)"
  using assms by (auto simp: scanMailbox_def Let_def usernameToMailbox_Ok fetchMailbox_def demo_cl_env_def demo_afs_def SizeEncryptedIntro_def
      SizeIntro_def persistClientLocked_def demo_persist_def split: prod.split)

lemma demo_holds:
  assumes "c_addFriendRounds c n = Some demo_afs" and "length ct = 228"
  shows "mailbox_holds demo_cl_env (\<lambda>_ _. Some ct) (\<lambda>x. x) n ''u'' 1 ct c"
  unfolding mailbox_holds_def using assms
  by (intro exI [of _ demo_afs] exI [of _ "[]"]) (simp add: fetchMailbox_def demo_cl_env_def SizeEncryptedIntro_def SizeIntro_def)

lemma demo_between: "c_addFriendRounds a n = Some demo_afs \<Longrightarrow> c_addFriendRounds b n = Some demo_afs \<Longrightarrow> round_between demo_cl_env n a b"
  by (simp add: round_between_def demo_afs_def demo_cl_env_def)

lemma friendship_agrees_witness:
  "\<exists>a3 b3 evs3 evs4. befriended demo_cl_env ''bob'' (replicate 32 2) 7 (replicate 32 11) a3 evs4 \<and>
     befriended demo_cl_env ''alice'' (replicate 32 1) 7 (replicate 32 11) b3 evs3"
proof -
  let ?E = demo_cl_env and ?get = "\<lambda>ct (_ :: bytes) (_ :: string). Some ct"
  let ?dha = "(replicate 32 5, replicate 32 5) :: bytes \<times> bytes" and ?dhb = "(replicate 32 6, replicate 32 6) :: bytes \<times> bytes"
  let ?ans = "\<lparr>wa_client = True, wa_wheel = True\<rparr>"
  let ?a0 = "demo_friend ''alice'' 1 [(0, demo_friend_request)]" and ?b0 = "demo_friend ''bob'' 2 []"
  have rounds: "c_addFriendRounds (demo_friend u k out) 1 = Some demo_afs" "c_addFriendRounds (demo_friend u k out) 2 = Some demo_afs" for u k out
    by (simp_all add: demo_friend_def)
  have out0: "c_outgoing ?a0 = (0, demo_friend_request) # []" "or_Username demo_friend_request \<noteq> []" "or_Username demo_friend_request = c_Username ?b0"
    by (simp_all add: demo_friend_def demo_friend_request_def demo_party_def)
  have names: "c_Username ?a0 = ''alice''" "c_Username ?b0 = ''bob''" "c_LongTermPublicKey ?a0 = replicate 32 1" "c_LongTermPublicKey ?b0 = replicate 32 2"
    by (simp_all add: demo_friend_def demo_party_def)
  have good: "good_client ?E ?a0" "good_client ?E ?b0" using demo_good by auto
  have str: "stranger (c_Username ?b0) ?a0" "stranger (c_Username ?a0) ?b0" by (simp_all add: stranger_def demo_friend_def demo_party_def new_client_def)
  obtain a1 evs1 where send1: "sendAddFriendOnion ?E ?dha ([], []) ?ans (demo_mix_round 1) ?a0 = Ok (a1, evs1)"
    using demo_sends [where dh = ?dha and ans = ?ans, OF rounds(1) _ out0(1,2)] by auto
  let ?ct1 = "request_ciphertext ?E ?dha [] 1 demo_friend_request ?a0"
  have l1: "length ?ct1 = 228" by (rule demo_ciphertext [OF rounds(1)]) simp
  obtain b1 evs2 where scan1: "scanMailbox ?E (?get ?ct1) (\<lambda>x. x) ?ans 1 ''u'' 1 ?b0 = Ok (b1, evs2)"
    using demo_scans [where c = ?b0 and ans = ?ans, OF rounds(1) l1] names(2) by auto
  obtain req where r: "c_incoming b1 = c_incoming ?b0 @ [(c_next ?b0, req)]" "evs2 = [EvReceivedFriendRequest (c_next ?b0) req]"
    "ir_Username req = c_Username ?a0"
    using first_request_received [OF scan1 demo_between [OF rounds(1) rounds(1)] demo_holds [OF rounds(1) l1] out0(3) good _ str(2)] by auto
  let ?a2 = "?a0\<lparr>c_sent := c_sent a1\<rparr>" and ?b2 = "?b0\<lparr>c_incoming := c_incoming b1, c_outgoing := [(9, confirmation req)]\<rparr>"
  have rounds2: "c_addFriendRounds ?a2 2 = Some demo_afs" "c_addFriendRounds ?b2 2 = Some demo_afs" by (simp_all add: rounds)
  have out2: "c_outgoing ?b2 = (9, confirmation req) # []" "or_Username (confirmation req) \<noteq> []"
    using r(3) names(1) by (simp_all add: confirmation_def)
  obtain b3 evs3 where send2: "sendAddFriendOnion ?E ?dhb ([], []) ?ans (demo_mix_round 2) ?b2 = Ok (b3, evs3)"
    using demo_sends [where dh = ?dhb and ans = ?ans, OF rounds2(2) _ out2] by auto
  let ?ct2 = "request_ciphertext ?E ?dhb [] 2 (confirmation req) ?b2"
  have l2: "length ?ct2 = 228" by (rule demo_ciphertext [OF rounds2(2)]) simp
  obtain a3 evs4 where scan2: "scanMailbox ?E (?get ?ct2) (\<lambda>x. x) ?ans 2 ''u'' 1 ?a2 = Ok (a3, evs4)"
    using demo_scans [where c = ?a2 and ans = ?ans, OF rounds2(1) l2] names(1) by auto
  have mix: "check_mix_round ?E (af_MixServers (as_Config demo_afs)) (demo_mix_round n) = Ok \<lparr>sd_CDNKey = [3], sd_CDNAddress = ''d'', sd_NumMailboxes = 1\<rparr>" for n
    using demo_check_mix by (simp add: demo_afs_def)
  have rn: "rs_Round (mr_MixSettings (demo_mix_round n)) = n" for n by (simp add: demo_mix_round_def)
  have dh: "cl_precompute ?E (fst ?dhb) (snd ?dha) = cl_precompute ?E (fst ?dha) (snd ?dhb)"
    "cl_precompute ?E (fst ?dhb) (snd ?dha) = replicate 32 11" by (simp_all add: demo_cl_env_def zip_replicate)
  have same: "same_user ?a0 ?a2" "same_user ?b0 ?b2" by (simp_all add: same_user_def)
  have "befriended ?E (c_Username ?b0) (c_LongTermPublicKey ?b0) (dial_round_of demo_friend_request ?a0) (cl_precompute ?E (fst ?dhb) (snd ?dha)) a3 evs4 \<and>
    befriended ?E (c_Username ?a0) (c_LongTermPublicKey ?a0) (dial_round_of demo_friend_request ?a0) (cl_precompute ?E (fst ?dhb) (snd ?dha)) b3 evs3 \<and>
    (\<forall>x\<in>set (c_sent a3). sr_Username (snd x) \<noteq> c_Username ?b0) \<and> (\<forall>x\<in>set (c_incoming b3). ir_Username (snd x) \<noteq> c_Username ?a0)"
    by (rule friendship_agrees [OF good _ _ dh(1) str demo_between [OF rounds(1) rounds(1)] rn _ out0(1,3) send1
          _ scan1 same(1) _ same(2) _ _ out2(1) demo_between [OF rounds2(2,1)] rn _ send2 _ scan2])
      (use demo_holds [OF rounds(1) l1] demo_holds [OF rounds2(1) l2] r mix rounds in simp_all)
  moreover have "dial_round_of demo_friend_request ?a0 = 7"
    by (simp add: dial_round_of_def demo_friend_request_def demo_friend_def)
  ultimately show ?thesis unfolding names dh(2) by auto
qed

end
