(* ===== verification/ClientRestart.thy ===== *)
theory ClientRestart
  imports Friendship
begin

text \<open>
  What a client finds when it is loaded from its two files, and what it has lost if it stopped
  between the handlers that write them.
\<close>

section \<open>Loading\<close>




text \<open>Loading a state gives a client that would persist the same state.\<close>

lemma loaded_fields [simp]:
  "c_wheel (loaded_client h1 h2 us st c) = c_wheel c"
  "c_addFriendConfigHash (loaded_client h1 h2 us st c) = h1"
  "c_dialingConfigHash (loaded_client h1 h2 us st c) = h2"
  "c_outgoingCalls (loaded_client h1 h2 us st c) = c_outgoingCalls c"
  "c_Username (loaded_client h1 h2 us st c) = ps_Username st"
  "c_LongTermPublicKey (loaded_client h1 h2 us st c) = ps_LongTermPublicKey st"
  "c_LongTermPrivateKey (loaded_client h1 h2 us st c) = ps_LongTermPrivateKey st"
  "c_PKGLoginKey (loaded_client h1 h2 us st c) = ps_PKGLoginKey st"
  "c_addFriendConfig (loaded_client h1 h2 us st c) = ps_AddFriendConfig st"
  "c_dialingConfig (loaded_client h1 h2 us st c) = ps_DialingConfig st"
  "map snd (c_incoming (loaded_client h1 h2 us st c)) = ps_Incoming st"
  "map snd (c_outgoing (loaded_client h1 h2 us st c)) = ps_Outgoing st"
  "map snd (c_sent (loaded_client h1 h2 us st c)) = ps_Sent st"
  by (simp_all add: loaded_client_def Let_def number_from_def)


section \<open>Properties\<close>





end
