(* ===== verification/PkgHttp.thy ===== *)
theory PkgHttp
  imports PkgClient
begin

text \<open>
  The HTTP between a private key generator and its clients (src/pkg/server.go, errors.go, register.go,
  status.go, extract.go, client.go): the dispatch on the path, the limits on bodies, the codes of
  errors and their way to the client. encoding/json is the record \<open>pkg_json\<close>; the text of an error is
  what the server's argument \<open>msg\<close> gives for its code.
\<close>

section \<open>Errors\<close>

text \<open>The numbers of the codes, which JSON carries; 0 and those after the last have no name.\<close>

definition errorCodes :: "ErrorCode list" where
  "errorCodes = [ErrBadRequestJSON, ErrDatabaseError, ErrInvalidUsername, ErrInvalidLoginKey, ErrNotRegistered,
     ErrAlreadyRegistered, ErrRoundNotFound, ErrInvalidUserLongTermKey, ErrInvalidSignature, ErrInvalidToken,
     ErrExpiredToken, ErrUnauthorized, ErrBadCommitment, ErrUnknown]"

fun index_of :: "'a \<Rightarrow> 'a list \<Rightarrow> nat" where
  "index_of a [] = 0"
| "index_of a (b # bs) = (if a = b then 0 else Suc (index_of a bs))"

definition code_num :: "ErrorCode \<Rightarrow> int" where
  "code_num c = int (index_of c errorCodes) + 1"

definition code_of :: "int \<Rightarrow> ErrorCode option" where
  "code_of n = (if 1 \<le> n \<and> n \<le> 14 then Some (errorCodes ! nat (n - 1)) else None)"

record pkg_error =
  pe_Code :: int
  pe_Message :: string

fun errText :: "ErrorCode \<Rightarrow> string" where
  "errText ErrBadRequestJSON = ''invalid json in request''"
| "errText ErrDatabaseError = ''internal database error''"
| "errText ErrInvalidUsername = ''invalid username''"
| "errText ErrInvalidLoginKey = ''invalid login key''"
| "errText ErrNotRegistered = ''username not registered''"
| "errText ErrAlreadyRegistered = ''username already registered''"
| "errText ErrRoundNotFound = ''round not found''"
| "errText ErrInvalidUserLongTermKey = ''invalid user long term key''"
| "errText ErrInvalidSignature = ''invalid signature''"
| "errText ErrInvalidToken = ''invalid token''"
| "errText ErrExpiredToken = ''expired token''"
| "errText ErrUnauthorized = ''unauthorized''"
| "errText ErrBadCommitment = ''bad commitment''"
| "errText ErrUnknown = ''unknown error''"

definition pkg_error_Error :: "pkg_error \<Rightarrow> string" where
  "pkg_error_Error e =
     (case code_of (pe_Code e) of
        None \<Rightarrow> ''unknown error code''
      | Some c \<Rightarrow> if pe_Message e = '''' then errText c else errText c @ '': '' @ pe_Message e)"

text \<open>An error of Go: of this package, or any other with its text.\<close>

datatype go_error = PkgError pkg_error | OtherError string

fun errorCode :: "go_error \<Rightarrow> int" where
  "errorCode (PkgError e) = pe_Code e"
| "errorCode (OtherError _) = code_num ErrUnknown"

definition errorf :: "ErrorCode \<Rightarrow> string \<Rightarrow> pkg_error" where
  "errorf c text = \<lparr>pe_Code = code_num c, pe_Message = text\<rparr>"

record http_reply =
  hr_Status :: nat
  hr_Body :: bytes

text \<open>\<open>httpCode\<close> on any number: all but three codes are the client's fault.\<close>

definition num_httpCode :: "int \<Rightarrow> nat" where
  "num_httpCode n = (case code_of n of None \<Rightarrow> StatusBadRequest | Some c \<Rightarrow> httpCode c)"

definition httpError :: "(pkg_error \<Rightarrow> bytes) \<Rightarrow> go_error \<Rightarrow> http_reply" where
  "httpError enc err =
     (let e = (case err of PkgError e \<Rightarrow> e | OtherError text \<Rightarrow> \<lparr>pe_Code = errorCode err, pe_Message = text\<rparr>)
      in \<lparr>hr_Status = num_httpCode (pe_Code e), hr_Body = enc e\<rparr>)"

lemma code_of_num [simp]: "code_of (code_num c) = Some c"
  by (cases c) (simp_all add: code_of_def code_num_def errorCodes_def)

lemma httpCode_not_ok [simp]: "httpCode c \<noteq> 200"
  by (cases c) simp_all

text \<open>\<open>ExternalVerifier\<close>: \<open>None\<close> when the verifier cannot be reached, or its status.\<close>

definition ExternalVerifier :: "(string \<Rightarrow> string \<Rightarrow> nat option) \<Rightarrow> string \<Rightarrow> string \<Rightarrow> ErrorCode option" where
  "ExternalVerifier post username token =
     (case post username token of
        None \<Rightarrow> Some ErrUnknown
      | Some status \<Rightarrow> if status = 200 then None else Some ErrInvalidToken)"

section \<open>The server\<close>

text \<open>
  How each body and reply is written and read; a decoder of a request reads a first value from what
  it is given, and knows nothing of the server key, which JSON leaves out.
\<close>

record ('mpk, 'bpk) pkg_json =
  pj_register :: "registerArgs \<Rightarrow> bytes"
  pj_register_dec :: "bytes \<Rightarrow> registerArgs option"
  pj_status :: "statusArgs \<Rightarrow> bytes"
  pj_status_dec :: "bytes \<Rightarrow> statusArgs option"
  pj_extract :: "extractArgs \<Rightarrow> bytes"
  pj_extract_dec :: "bytes \<Rightarrow> extractArgs option"
  pj_commit_dec :: "bytes \<Rightarrow> u32 option"
  pj_reveal_dec :: "bytes \<Rightarrow> (u32 \<times> (string \<rightharpoonup> bytes)) option"
  pj_statusReply :: bytes
  pj_statusReply_dec :: "bytes \<Rightarrow> unit option"
  pj_extractReply :: "extractReply \<Rightarrow> bytes"
  pj_extractReply_dec :: "bytes \<Rightarrow> extractReply option"
  pj_commitReply :: "bytes \<Rightarrow> bytes"
  pj_RevealReply :: "('mpk, 'bpk) RevealReply \<Rightarrow> bytes"
  pj_string_dec :: "bytes \<Rightarrow> string option"
  pj_filter :: "bytes \<Rightarrow> bytes"
  pj_error :: "pkg_error \<Rightarrow> bytes"
  pj_error_dec :: "bytes \<Rightarrow> pkg_error option"

text \<open>\<open>http.MaxBytesReader\<close>: what comes after the limit is not read.\<close>

definition decode_body :: "nat \<Rightarrow> (bytes \<Rightarrow> 'a option) \<Rightarrow> bytes \<Rightarrow> 'a option" where
  "decode_body limit dec body = dec (take limit body)"

definition reply_with :: "('r \<Rightarrow> bytes) \<Rightarrow> (pkg_error \<Rightarrow> bytes) \<Rightarrow> (ErrorCode \<Rightarrow> string) \<Rightarrow> (ErrorCode, 'r) outcome \<Rightarrow> (unit, http_reply) outcome" where
  "reply_with enc enc_err msg r =
     (case r of
        Ok v \<Rightarrow> Ok \<lparr>hr_Status = 200, hr_Body = enc v\<rparr>
      | Err c \<Rightarrow> Ok (httpError enc_err (PkgError (errorf c (msg c))))
      | Panic \<Rightarrow> Panic)"

text \<open>What a request finds: the time, fresh keys, the token handler, and the sizes of filters.\<close>

record ('mpk, 'msk, 'bpk, 'bsk) moment =
  mo_now :: int
  mo_box_key :: "bytes \<times> bytes"
  mo_fresh :: "'mpk \<times> 'msk \<times> 'bpk \<times> 'bsk"
  mo_regTokenHandler :: "string \<Rightarrow> string \<Rightarrow> ErrorCode option"
  mo_sip :: siphash
  mo_optimal :: "nat \<Rightarrow> int \<times> int"
  mo_msg :: "ErrorCode \<Rightarrow> string"

definition registerHandler ::
  "('mpk, 'msk, 'bpk, 'bsk) pkg_env \<Rightarrow> 'db kv \<Rightarrow> ('mpk, 'bpk) pkg_json \<Rightarrow> ('mpk, 'msk, 'bpk, 'bsk) moment \<Rightarrow> bytes \<Rightarrow>
   ('db, 'mpk, 'msk, 'bpk, 'bsk) pkg_server \<Rightarrow> ('db, 'mpk, 'msk, 'bpk, 'bsk) pkg_server \<times> (unit, http_reply) outcome" where
  "registerHandler E K J mo body srv =
     (case decode_body 256 (pj_register_dec J) body of
        None \<Rightarrow> (srv, Ok (httpError (pj_error J) (PkgError (errorf ErrBadRequestJSON (mo_msg mo ErrBadRequestJSON)))))
      | Some args \<Rightarrow>
          (case pkg_register E K (mo_regTokenHandler mo) (mo_now mo) args srv of
             (srv', r) \<Rightarrow> (srv', reply_with (\<lambda>_. str_bytes (CHR 0x22 # ''OK'' @ [CHR 0x22])) (pj_error J) (mo_msg mo) r)))"

text \<open>An error while the registered names are read is sent as plain text.\<close>

definition userFilter_reply ::
  "('mpk, 'bpk) pkg_json \<Rightarrow> (ErrorCode \<Rightarrow> string) \<Rightarrow> (ErrorCode, bytes) outcome \<Rightarrow> (unit, http_reply) outcome" where
  "userFilter_reply J msg r =
     (case r of
        Err ErrUnknown \<Rightarrow> Ok \<lparr>hr_Status = StatusInternalServerError, hr_Body = str_bytes (msg ErrUnknown)\<rparr>
      | _ \<Rightarrow> reply_with id (pj_error J) msg r)"

definition NotFound :: http_reply where
  "NotFound = \<lparr>hr_Status = StatusNotFound, hr_Body = str_bytes (''404 page not found'' @ [CHR 0x0A])\<rparr>"

definition pkg_ServeHTTP ::
  "('mpk, 'msk, 'bpk, 'bsk) pkg_env \<Rightarrow> 'db kv \<Rightarrow> ('mpk, 'bpk) pkg_json \<Rightarrow> ('mpk, 'msk, 'bpk, 'bsk) moment \<Rightarrow> http_request \<Rightarrow>
   ('db, 'mpk, 'msk, 'bpk, 'bsk) pkg_server \<Rightarrow> ('db, 'mpk, 'msk, 'bpk, 'bsk) pkg_server \<times> (unit, http_reply) outcome" where
  "pkg_ServeHTTP E K J mo r srv =
     (let path = url_path r; body = http_body r; msg = mo_msg mo; err = pj_error J in
      if path = ''/extract'' then
        (case extractHandler E K (mo_now mo) (mo_box_key mo) (decode_body 1024 (pj_extract_dec J) body) srv of
           (srv', a) \<Rightarrow> (srv', reply_with (pj_extractReply J) err msg a))
      else if path = ''/status'' then
        (srv, reply_with (\<lambda>_. pj_statusReply J) err msg (statusHandler E K (decode_body 512 (pj_status_dec J) body) srv))
      else if path = ''/register'' then registerHandler E K J mo body srv
      else if path = ''/commit'' then
        (case commitHandler E (mo_fresh mo) r (decode_body 512 (pj_commit_dec J) body) srv of
           (srv', a) \<Rightarrow> (srv', reply_with (pj_commitReply J) err msg a))
      else if path = ''/reveal'' then
        (case revealHandler E r (decode_body (1024 * 1024) (pj_reveal_dec J) body) srv of
           (srv', a) \<Rightarrow> (srv', reply_with (pj_RevealReply J) err msg a))
      else if path = ''/registrar/userfilter'' then
        (srv, userFilter_reply J msg (userFilterHandler K (mo_sip mo) (mo_optimal mo) (pj_filter J) r srv))
      else (srv, Ok NotFound))"

section \<open>The client\<close>

datatype do_error = NoResponse | JsonUnmarshal | ErrorResponse nat bytes | ServerError pkg_error

text \<open>
  \<open>pkgRequest.Do\<close>. \<open>send path body\<close> posts to the server's address with its key pinned and gives the
  response, or \<open>None\<close> for any error; no arguments of the client fail to encode.
\<close>

definition read_reply :: "(bytes \<Rightarrow> 'r option) \<Rightarrow> (bytes \<Rightarrow> pkg_error option) \<Rightarrow> http_reply \<Rightarrow> (do_error, 'r) outcome" where
  "read_reply dec dec_err resp =
     (if hr_Status resp = 200 then (case dec (hr_Body resp) of None \<Rightarrow> Err JsonUnmarshal | Some r \<Rightarrow> Ok r)
      else (case dec_err (hr_Body resp) of
              None \<Rightarrow> Err (ErrorResponse (hr_Status resp) (hr_Body resp)) | Some e \<Rightarrow> Err (ServerError e)))"

definition pkgRequest_Do ::
  "(string \<Rightarrow> bytes \<Rightarrow> 'w \<Rightarrow> 'w \<times> http_reply option) \<Rightarrow> string \<Rightarrow> bytes \<Rightarrow> (bytes \<Rightarrow> 'r option) \<Rightarrow> (bytes \<Rightarrow> pkg_error option) \<Rightarrow>
   'w \<Rightarrow> 'w \<times> (do_error, 'r) outcome" where
  "pkgRequest_Do send path body dec dec_err w =
     (case send path body w of
        (w', None) \<Rightarrow> (w', Err NoResponse)
      | (w', Some resp) \<Rightarrow> (w', read_reply dec dec_err resp))"

type_synonym 'w sender = "string \<Rightarrow> bytes \<Rightarrow> 'w \<Rightarrow> 'w \<times> http_reply option"

definition do_Register ::
  "('mpk, 'bpk) pkg_json \<Rightarrow> 'w sender \<Rightarrow> pkg_client \<Rightarrow> string \<Rightarrow> 'w \<Rightarrow> 'w \<times> (do_error, string) outcome" where
  "do_Register J send c token =
     pkgRequest_Do send ''register'' (pj_register J (client_Register c token)) (pj_string_dec J) (pj_error_dec J)"

definition do_CheckStatus ::
  "('mpk, 'msk, 'bpk, 'bsk) pkg_env \<Rightarrow> ('mpk, 'bpk) pkg_json \<Rightarrow> 'w sender \<Rightarrow> pkg_client \<Rightarrow> bytes \<Rightarrow> bytes \<Rightarrow>
   'w \<Rightarrow> 'w \<times> (do_error, unit) outcome" where
  "do_CheckStatus E J send c server_key message =
     pkgRequest_Do send ''status'' (pj_status J (client_CheckStatus E c server_key message)) (pj_statusReply_dec J) (pj_error_dec J)"

definition do_extract ::
  "('mpk, 'bpk) pkg_json \<Rightarrow> 'w sender \<Rightarrow> extractArgs \<Rightarrow> 'w \<Rightarrow> 'w \<times> (do_error, extractReply) outcome" where
  "do_extract J send args = pkgRequest_Do send ''extract'' (pj_extract J args) (pj_extractReply_dec J) (pj_error_dec J)"

section \<open>From the server to the client\<close>

text \<open>A request over the network to a server, which a panic of its handler cuts off.\<close>

definition over_http ::
  "('mpk, 'msk, 'bpk, 'bsk) pkg_env \<Rightarrow> 'db kv \<Rightarrow> ('mpk, 'bpk) pkg_json \<Rightarrow> ('mpk, 'msk, 'bpk, 'bsk) moment \<Rightarrow>
   bytes option list \<Rightarrow> ('db, 'mpk, 'msk, 'bpk, 'bsk) pkg_server sender" where
  "over_http E K J mo peers path body srv =
     (case pkg_ServeHTTP E K J mo \<lparr>http_method = ''POST'', url_path = CHR ''/'' # path, tls_peers = Some peers,
             q_get = (\<lambda>_. ''''), http_body = body\<rparr> srv of
        (srv', Ok resp) \<Rightarrow> (srv', Some resp) | (srv', _) \<Rightarrow> (srv', None))"

text \<open>What encoding/json does for the replies and for the errors of the server.\<close>

definition json_law :: "('mpk, 'bpk) pkg_json \<Rightarrow> (ErrorCode \<Rightarrow> string) \<Rightarrow> bool" where
  "json_law J msg \<longleftrightarrow> (\<forall>c. pj_error_dec J (pj_error J (errorf c (msg c))) = Some (errorf c (msg c))) \<and>
     pj_statusReply_dec J (pj_statusReply J) = Some () \<and>
     pj_string_dec J (str_bytes (CHR 0x22 # ''OK'' @ [CHR 0x22])) = Some ''OK''"

text \<open>What the client should see of what a handler returned.\<close>

definition seen :: "(ErrorCode \<Rightarrow> string) \<Rightarrow> (ErrorCode, 'r) outcome \<Rightarrow> (do_error, 'r) outcome" where
  "seen msg r = (case r of Ok v \<Rightarrow> Ok v | Err c \<Rightarrow> Err (ServerError (errorf c (msg c))) | Panic \<Rightarrow> Err NoResponse)"

lemma reply_seen:
  assumes "\<And>v. r = Ok v \<Longrightarrow> dec (enc v) = Some (f v)" and "\<And>c. dec_err (enc_err (errorf c (msg c))) = Some (errorf c (msg c))"
  shows "(case reply_with enc enc_err msg r of Ok resp \<Rightarrow> read_reply dec dec_err resp | _ \<Rightarrow> Err NoResponse) =
    seen msg (bind_outcome r (\<lambda>v. Ok (f v)))"
  using assms
  by (cases r) (simp_all add: reply_with_def read_reply_def httpError_def num_httpCode_def errorf_def seen_def)

lemma Do_over_http:
  "pkgRequest_Do (over_http E K J mo peers) path body dec dec_err srv =
     (case pkg_ServeHTTP E K J mo \<lparr>http_method = ''POST'', url_path = CHR ''/'' # path, tls_peers = Some peers,
             q_get = (\<lambda>_. ''''), http_body = body\<rparr> srv of
        (srv', a) \<Rightarrow> (srv', case a of Ok resp \<Rightarrow> read_reply dec dec_err resp | _ \<Rightarrow> Err NoResponse))"
  by (simp add: pkgRequest_Do_def over_http_def split: prod.splits outcome.splits)

lemma register_over_http:
  assumes "json_law J (mo_msg mo)" and "length (pj_register J (client_Register c token)) \<le> 256"
    and "pj_register_dec J (pj_register J (client_Register c token)) = Some (client_Register c token)"
    and "pkg_register E K (mo_regTokenHandler mo) (mo_now mo) (client_Register c token) srv = (srv', r)"
  shows "do_Register J (over_http E K J mo peers) c token srv = (srv', seen (mo_msg mo) (bind_outcome r (\<lambda>_. Ok ''OK'')))"
  using assms reply_seen [where r = r and f = "\<lambda>_. ''OK''" and enc = "\<lambda>_. str_bytes (CHR 0x22 # ''OK'' @ [CHR 0x22])"
      and dec = "pj_string_dec J" and dec_err = "pj_error_dec J" and enc_err = "pj_error J" and msg = "mo_msg mo"]
  by (simp add: do_Register_def Do_over_http pkg_ServeHTTP_def registerHandler_def decode_body_def json_law_def)

lemma status_over_http:
  assumes "json_law J (mo_msg mo)" and "length (pj_status J a) \<le> 512"
    and "a = client_CheckStatus E c (pkg_publicKey srv) message"
    and "pj_status_dec J (pj_status J a) = Some (a\<lparr>sa_ServerSigningKey := []\<rparr>)"
  shows "do_CheckStatus E J (over_http E K J mo peers) c (pkg_publicKey srv) message srv =
    (srv, seen (mo_msg mo) (checkStatus E K a (pkg_db srv)))"
proof -
  have s: "a\<lparr>sa_ServerSigningKey := pkg_publicKey srv\<rparr> = a" using assms(3) by (simp add: client_CheckStatus_def Let_def)
  have b: "bind_outcome r Ok = r" for r :: "(ErrorCode, unit) outcome" by (cases r) simp_all
  show ?thesis
    using assms s reply_seen [where r = "checkStatus E K a (pkg_db srv)" and f = "\<lambda>_. ()" and enc = "\<lambda>_. pj_statusReply J"
        and dec = "pj_statusReply_dec J" and dec_err = "pj_error_dec J" and enc_err = "pj_error J" and msg = "mo_msg mo"]
    by (simp add: do_CheckStatus_def Do_over_http pkg_ServeHTTP_def decode_body_def json_law_def statusHandler_def b)
qed

lemma extract_over_http:
  assumes "json_law J (mo_msg mo)" and "length (pj_extract J args) \<le> 1024"
    and "xa_ServerSigningKey args = pkg_publicKey srv"
    and "pj_extract_dec J (pj_extract J args) = Some (args\<lparr>xa_ServerSigningKey := []\<rparr>)"
    and "extractHandler E K (mo_now mo) (mo_box_key mo) (Some args) srv = (srv', r)"
    and "\<And>v. r = Ok v \<Longrightarrow> pj_extractReply_dec J (pj_extractReply J v) = Some v"
  shows "do_extract J (over_http E K J mo peers) args srv = (srv', seen (mo_msg mo) r)"
proof -
  have b: "bind_outcome r Ok = r" by (cases r) simp_all
  have "args\<lparr>xa_ServerSigningKey := pkg_publicKey srv\<rparr> = args" using assms(3) by simp
  then show ?thesis
    using assms reply_seen [where r = r and f = "\<lambda>v. v" and enc = "pj_extractReply J"
        and dec = "pj_extractReply_dec J" and dec_err = "pj_error_dec J" and enc_err = "pj_error J" and msg = "mo_msg mo"]
    by (simp add: do_extract_def Do_over_http pkg_ServeHTTP_def decode_body_def json_law_def extractHandler_def b)
qed

text \<open>What one client registered, the server gives back, and nobody registers again.\<close>

lemma registered_user:
  assumes "kv_laws K view" and "\<And>k db. kv_get K k db \<noteq> None"
    and "pkg_register E K h now args srv = (srv1, Ok ())"
  shows "\<exists>i. getUser E K (ra_Username args) (pkg_db srv1) = Ok (ra_LoginKey args, i)"
    and "ra_Username args' = ra_Username args \<Longrightarrow> length (ra_LoginKey args') = 32 \<Longrightarrow>
      h' (ra_Username args') (ra_RegistrationToken args') = None \<Longrightarrow>
      pkg_register E K h' now' args' srv1 = (srv1, Err ErrAlreadyRegistered)"
proof -
  obtain i where i: "UsernameToIdentity (pe_to_lower E) (ra_Username args) = Some i" "length (ra_LoginKey args) = 32"
    using assms(3) by (auto simp: pkg_register_def split: option.splits if_splits)
  let ?k = "dbUserKey i registrationSuffix"
  have g: "kv_get K ?k (pkg_db srv1) = Some (Some (userState_Marshal (ra_LoginKey args)))"
    using register_stores [OF assms(1,3) i] kv_lawsD(1) [OF assms(1)] assms(2) by (metis option.exhaust)
  then show "\<exists>i. getUser E K (ra_Username args) (pkg_db srv1) = Ok (ra_LoginKey args, i)"
    using i by (simp add: getUser_def us.dec_enc [OF i(2)])
  show "pkg_register E K h' now' args' srv1 = (srv1, Err ErrAlreadyRegistered)"
    if "ra_Username args' = ra_Username args" "length (ra_LoginKey args') = 32"
      "h' (ra_Username args') (ra_RegistrationToken args') = None"
    using that i g by (simp add: pkg_register_def Let_def)
qed

text \<open>A request short enough for the server's limit, which reads it back as \<open>a'\<close>.\<close>

definition fits :: "nat \<Rightarrow> ('a \<Rightarrow> bytes) \<Rightarrow> (bytes \<Rightarrow> 'a option) \<Rightarrow> 'a \<Rightarrow> 'a \<Rightarrow> bool" where
  "fits limit enc dec a a' \<longleftrightarrow> length (enc a) \<le> limit \<and> dec (enc a) = Some a'"

text \<open>
  C22: registration over HTTP. When a client's Register returns without an error, its CheckStatus
  finds it registered, for whatever random message it signs, and the Register of any other client for
  the same name, though the server would take its token, comes back as the server's error with the
  number of ErrAlreadyRegistered and leaves the server as it was.
\<close>
theorem registration_over_http:
  assumes "kv_laws K view" and "\<And>k db. kv_get K k db \<noteq> None" and "json_law J (mo_msg mo)"
    and "fits 256 (pj_register J) (pj_register_dec J) (client_Register c token) (client_Register c token)"
    and "fits 256 (pj_register J) (pj_register_dec J) (client_Register c' token') (client_Register c' token')"
    and "a = client_CheckStatus E c (pkg_publicKey srv1) message"
    and "fits 512 (pj_status J) (pj_status_dec J) a (a\<lparr>sa_ServerSigningKey := []\<rparr>)"
    and "\<And>m. pe_ed_verify E (cl_LoginPublic c) m (pe_ed_sign E (cl_LoginKey c) m)"
    and "do_Register J (over_http E K J mo peers) c token srv = (srv1, Ok ''OK'')"
    and "cl_Username c' = cl_Username c" and "length (cl_LoginPublic c') = 32"
    and "mo_regTokenHandler mo (cl_Username c') token' = None"
  shows "do_CheckStatus E J (over_http E K J mo peers) c (pkg_publicKey srv1) message srv1 = (srv1, Ok ()) \<and>
    do_Register J (over_http E K J mo peers) c' token' srv1 =
      (srv1, Err (ServerError \<lparr>pe_Code = 6, pe_Message = mo_msg mo ErrAlreadyRegistered\<rparr>))"
proof -
  note f = assms(4,5,7) [unfolded fits_def, THEN conjunct1] assms(4,5,7) [unfolded fits_def, THEN conjunct2]
  obtain srv' r where r': "pkg_register E K (mo_regTokenHandler mo) (mo_now mo) (client_Register c token) srv = (srv', r)"
    by fastforce
  then have "srv' = srv1" "seen (mo_msg mo) (bind_outcome r (\<lambda>_. Ok ''OK'')) = Ok ''OK''"
    using assms(9) register_over_http [OF assms(3) f(1,4) r', of peers] by simp_all
  then have ok: "r = Ok ()" and r: "pkg_register E K (mo_regTokenHandler mo) (mo_now mo) (client_Register c token) srv = (srv1, r)"
    using r' by (cases r; simp add: seen_def)+
  note u = registered_user [OF assms(1,2) r [unfolded ok]]
  have l: "length (cl_LoginPublic c) = 32"
    using r ok by (auto simp: pkg_register_def client_Register_def split: option.splits if_splits)
  have "checkStatus E K a (pkg_db srv1) = Ok ()"
    using u(1) assms(6,8) l
    by (auto simp: checkStatus_def client_Register_def client_CheckStatus_def Let_def statusArgs_msg_def pkg_ed_verify_def)
  then have "do_CheckStatus E J (over_http E K J mo peers) c (pkg_publicKey srv1) message srv1 = (srv1, Ok ())"
    using status_over_http [OF assms(3) f(3) assms(6) f(6)] by (simp add: seen_def)
  moreover have "pkg_register E K (mo_regTokenHandler mo) (mo_now mo) (client_Register c' token') srv1 = (srv1, Err ErrAlreadyRegistered)"
    by (rule u(2)) (use assms(10-12) in \<open>simp_all add: client_Register_def\<close>)
  note register_over_http [OF assms(3) f(2,5) this]
  ultimately show ?thesis
    by (simp add: seen_def errorf_def code_num_def errorCodes_def)
qed

text \<open>Two users of one name, and a format that knows their requests.\<close>

definition demo_user2 :: registerArgs where
  "demo_user2 = demo_user\<lparr>ra_LoginKey := replicate 32 6\<rparr>"

definition demo_status :: statusArgs where
  "demo_status = client_CheckStatus demo_pkg_env demo_client (replicate 32 9) []"

definition demo_json :: "(bytes, bytes) pkg_json" where
  "demo_json = \<lparr>pj_register = (\<lambda>a. if a = demo_user then [1] else [2]),
     pj_register_dec = (\<lambda>b. Some (if b = [1] then demo_user else demo_user2)),
     pj_status = (\<lambda>_. [3]), pj_status_dec = (\<lambda>_. Some (demo_status\<lparr>sa_ServerSigningKey := []\<rparr>)),
     pj_extract = (\<lambda>_. []), pj_extract_dec = (\<lambda>_. None), pj_commit_dec = (\<lambda>_. None), pj_reveal_dec = (\<lambda>_. None),
     pj_statusReply = [4], pj_statusReply_dec = (\<lambda>_. Some ()),
     pj_extractReply = (\<lambda>_. []), pj_extractReply_dec = (\<lambda>_. None), pj_commitReply = (\<lambda>_. []), pj_RevealReply = (\<lambda>_. []),
     pj_string_dec = (\<lambda>_. Some ''OK''), pj_filter = (\<lambda>b. b),
     pj_error = (\<lambda>e. [word_of_int (pe_Code e)]), pj_error_dec = (\<lambda>b. Some \<lparr>pe_Code = uint (hd b), pe_Message = ''''\<rparr>)\<rparr>"

definition demo_moment :: "(bytes, bytes, bytes, bytes) moment" where
  "demo_moment = \<lparr>mo_now = 0, mo_box_key = ([], []), mo_fresh = ([], [], [], []), mo_regTokenHandler = (\<lambda>_ _. None),
     mo_sip = (\<lambda>_ _ _. (0, 0)), mo_optimal = (\<lambda>_. (0, 0)), mo_msg = (\<lambda>_. '''')\<rparr>"

lemma demo_json_law: "json_law demo_json (mo_msg demo_moment)"
proof -
  have "uint (word_of_int (code_num c) :: byte) = code_num c" for c
    by (cases c) (simp_all add: code_num_def errorCodes_def)
  then show ?thesis by (simp add: json_law_def demo_json_def demo_moment_def errorf_def)
qed

theorem registration_over_http_witness:
  "do_Register demo_json (over_http demo_pkg_env list_kv demo_json demo_moment []) (demo_client\<lparr>cl_LoginPublic := replicate 32 6\<rparr>) ''''
     (demo_pkg 9 demo_db) = (demo_pkg 9 demo_db, Err (ServerError \<lparr>pe_Code = 6, pe_Message = ''''\<rparr>))"
proof -
  let ?c = "demo_client" and ?c' = "demo_client\<lparr>cl_LoginPublic := replicate 32 6\<rparr>"
  have c: "client_Register ?c '''' = demo_user" "client_Register ?c' '''' = demo_user2"
    by (simp_all add: client_Register_def demo_client_def demo_user_def demo_user2_def)
  have d: "demo_user2 \<noteq> demo_user" by (simp add: demo_user2_def demo_user_def)
  have p: "pkg_register demo_pkg_env list_kv (mo_regTokenHandler demo_moment) (mo_now demo_moment) (client_Register ?c '''')
      (demo_pkg 9 []) = (demo_pkg 9 demo_db, Ok ())"
    using demo_register by (simp add: demo_moment_def c)
  have r: "do_Register demo_json (over_http demo_pkg_env list_kv demo_json demo_moment []) ?c '''' (demo_pkg 9 []) =
      (demo_pkg 9 demo_db, Ok ''OK'')"
    using register_over_http [OF demo_json_law _ _ p] by (simp add: c demo_json_def demo_moment_def seen_def)
  have k: "pkg_publicKey (demo_pkg 9 demo_db) = replicate 32 9" by (simp add: demo_pkg_def)
  have f: "fits 256 (pj_register demo_json) (pj_register_dec demo_json) (client_Register ?c '''') (client_Register ?c '''')"
    "fits 256 (pj_register demo_json) (pj_register_dec demo_json) (client_Register ?c' '''') (client_Register ?c' '''')"
    using d by (simp_all add: c fits_def demo_json_def)
  have s: "fits 512 (pj_status demo_json) (pj_status_dec demo_json)
      (client_CheckStatus demo_pkg_env ?c (pkg_publicKey (demo_pkg 9 demo_db)) [])
      ((client_CheckStatus demo_pkg_env ?c (pkg_publicKey (demo_pkg 9 demo_db)) [])\<lparr>sa_ServerSigningKey := []\<rparr>)"
    by (simp add: k fits_def demo_json_def demo_status_def)
  have "do_CheckStatus demo_pkg_env demo_json (over_http demo_pkg_env list_kv demo_json demo_moment []) ?c
      (pkg_publicKey (demo_pkg 9 demo_db)) [] (demo_pkg 9 demo_db) = (demo_pkg 9 demo_db, Ok ()) \<and>
    do_Register demo_json (over_http demo_pkg_env list_kv demo_json demo_moment []) ?c' '''' (demo_pkg 9 demo_db) =
      (demo_pkg 9 demo_db, Err (ServerError \<lparr>pe_Code = 6, pe_Message = mo_msg demo_moment ErrAlreadyRegistered\<rparr>))"
    by (rule registration_over_http [OF list_kv_laws _ demo_json_law f refl s _ r])
      (simp_all add: demo_moment_def demo_client_def demo_pkg_env_def list_kv_def)
  then show ?thesis by (simp add: demo_moment_def)
qed

text \<open>For extractions, HTTP is the \<open>do\<close> that PkgClient assumes between client and handler.\<close>

lemma http_is_server_do:
  assumes "json_law J (mo_msg mo)" and "fits 1024 (pj_extract J) (pj_extract_dec J) args (args\<lparr>xa_ServerSigningKey := []\<rparr>)"
    and "xa_ServerSigningKey args = pkg_publicKey srv" and "\<And>v. pj_extractReply_dec J (pj_extractReply J v) = Some v"
  shows "(case do_extract J (over_http E K J mo peers) args srv of (srv', Ok r) \<Rightarrow> (srv', Some r) | (srv', _) \<Rightarrow> (srv', None)) =
    server_do E K (mo_now mo) (mo_box_key mo) args srv"
proof -
  obtain srv' r where r: "extractHandler E K (mo_now mo) (mo_box_key mo) (Some args) srv = (srv', r)" by fastforce
  show ?thesis
    using extract_over_http [OF assms(1) _ assms(3) _ r assms(4), of peers] assms(2)
    by (cases r) (simp_all add: r server_do_def fits_def seen_def)
qed

end
