(* ===== verification/Transport.thy ===== *)
theory Transport
  imports Prelude
begin

text \<open>
  The authenticated channels: src/edtls (client.go, server.go), TLS with self-signed Ed25519
  certificates, and src/edhttp/client.go, an HTTP client that pins one key per address. X.509 and
  the handshake of crypto/tls are parameters; the callbacks the program gives them are modelled.
  Times are nanoseconds.
\<close>

section \<open>Certificates\<close>

record cert_template =
  tm_NotBefore :: int
  tm_NotAfter :: int

text \<open>
  A parsed certificate: its key, \<open>None\<close> when it is not an Ed25519 key, whether \<open>CheckSignatureFrom\<close>
  itself passes, and its end.
\<close>

record cert =
  ct_PublicKey :: "bytes option"
  ct_selfSigned :: bool
  ct_NotAfter :: int

record 'sk x509 =
  xf_Public :: "'sk \<Rightarrow> bytes"
  xf_Create :: "cert_template \<Rightarrow> 'sk \<Rightarrow> bytes option"
  xf_Parse :: "bytes \<Rightarrow> cert option"

definition certDuration :: int where "certDuration = 3600 * 10 ^ 9"

definition newSelfSignedCert :: "'sk x509 \<Rightarrow> int \<Rightarrow> 'sk \<Rightarrow> bytes option" where
  "newSelfSignedCert x now key =
     xf_Create x \<lparr>tm_NotBefore = now - 24 * 3600 * 10 ^ 9, tm_NotAfter = now + certDuration\<rparr> key"

datatype edtls_error =
  NoPeerCertificates | VerificationFailed | TooManyCertificates nat | ParseCertificate | InvalidKeyType | CertError | HandshakeError
| Unreachable

section \<open>The client\<close>

definition GetClientCertificate :: "'sk x509 \<Rightarrow> int \<Rightarrow> 'sk option \<Rightarrow> (edtls_error, bytes list) outcome" where
  "GetClientCertificate x now myKey =
     (case myKey of
        None \<Rightarrow> Ok []
      | Some k \<Rightarrow> (case newSelfSignedCert x now k of None \<Rightarrow> Err CertError | Some der \<Rightarrow> Ok [der]))"

definition client_VerifyPeerCertificate :: "'sk x509 \<Rightarrow> bytes \<Rightarrow> bytes list \<Rightarrow> (edtls_error, unit) outcome" where
  "client_VerifyPeerCertificate x peerKey rawCerts =
     (case rawCerts of
        [] \<Rightarrow> Err NoPeerCertificates
      | [raw] \<Rightarrow>
          (case xf_Parse x raw of
             None \<Rightarrow> Err ParseCertificate
           | Some c \<Rightarrow>
               if \<not> ct_selfSigned c then Err VerificationFailed
               else (case ct_PublicKey c of
                       None \<Rightarrow> Err InvalidKeyType
                     | Some theirKey \<Rightarrow> if theirKey = peerKey then Ok () else Err VerificationFailed))
      | _ \<Rightarrow> Err (TooManyCertificates (length rawCerts)))"

section \<open>The server\<close>

record cert_cache =
  cc_currCert :: "bytes option"
  cc_expiry :: int

definition NewTLSServerConfig :: cert_cache where
  "NewTLSServerConfig = \<lparr>cc_currCert = None, cc_expiry = 0\<rparr>"

text \<open>The branch that makes a new certificate, and the whole callback, which runs under a mutex.\<close>

definition renew_certificate :: "'sk x509 \<Rightarrow> 'sk \<Rightarrow> int \<Rightarrow> cert_cache \<Rightarrow> (edtls_error, bytes) outcome \<times> cert_cache" where
  "renew_certificate x key now s =
     (case newSelfSignedCert x now key of
        None \<Rightarrow> (Err CertError, s)
      | Some der \<Rightarrow> (Ok der, \<lparr>cc_currCert = Some der, cc_expiry = now + 2 * certDuration div 3\<rparr>))"

definition GetCertificate :: "'sk x509 \<Rightarrow> 'sk \<Rightarrow> int \<Rightarrow> cert_cache \<Rightarrow> (edtls_error, bytes) outcome \<times> cert_cache" where
  "GetCertificate x key now s =
     (case cc_currCert s of
        Some der \<Rightarrow> if now < cc_expiry s then (Ok der, s) else renew_certificate x key now s
      | None \<Rightarrow> renew_certificate x key now s)"

definition server_VerifyPeerCertificate :: "'sk x509 \<Rightarrow> bytes list \<Rightarrow> (edtls_error, unit) outcome" where
  "server_VerifyPeerCertificate x rawCerts =
     (case rawCerts of
        [] \<Rightarrow> Ok ()
      | [raw] \<Rightarrow>
          (case xf_Parse x raw of
             None \<Rightarrow> Err ParseCertificate
           | Some c \<Rightarrow> if \<not> ct_selfSigned c then Err VerificationFailed else Ok ())
      | _ \<Rightarrow> Err (TooManyCertificates (length rawCerts)))"

section \<open>The handshake\<close>

text \<open>
  What the other end presents: its certificates, and the key its \<open>CertificateVerify\<close> message checks
  under. crypto/tls parses the certificates, calls the program's callback and then checks that
  message under the key of the first certificate; a server that presents none is refused, a client
  may.
\<close>

record tls_peer =
  pr_certs :: "bytes list"
  pr_proves :: bytes

definition leaf_key :: "'sk x509 \<Rightarrow> tls_peer \<Rightarrow> bytes option" where
  "leaf_key x p = (case pr_certs p of [] \<Rightarrow> None | raw # _ \<Rightarrow> Option.bind (xf_Parse x raw) ct_PublicKey)"

definition client_handshake :: "'sk x509 \<Rightarrow> bytes \<Rightarrow> tls_peer \<Rightarrow> (edtls_error, bytes) outcome" where
  "client_handshake x peerKey p =
     (if pr_certs p = [] then Err HandshakeError
      else bind_outcome (client_VerifyPeerCertificate x peerKey (pr_certs p)) (\<lambda>_.
        if leaf_key x p = Some (pr_proves p) then Ok (pr_proves p) else Err HandshakeError))"

text \<open>On the server's side the result is the key the handlers see, if the client gave one.\<close>

definition server_handshake :: "'sk x509 \<Rightarrow> tls_peer \<Rightarrow> (edtls_error, bytes option) outcome" where
  "server_handshake x p =
     (if pr_certs p = [] then Ok None
      else bind_outcome (server_VerifyPeerCertificate x (pr_certs p)) (\<lambda>_.
        if leaf_key x p = Some (pr_proves p) then Ok (Some (pr_proves p)) else Err HandshakeError))"

text \<open>
  Documented behaviour of crypto/x509: a created certificate parses to one with the key of its
  signer, signed by itself, whose end is that of the template to the second.
\<close>

definition x509_law :: "'sk x509 \<Rightarrow> bool" where
  "x509_law x \<longleftrightarrow> (\<forall>t k der. xf_Create x t k = Some der \<longrightarrow> xf_Parse x der =
     Some \<lparr>ct_PublicKey = Some (xf_Public x k), ct_selfSigned = True, ct_NotAfter = tm_NotAfter t div 10 ^ 9 * 10 ^ 9\<rparr>)"

lemma client_verified:
  "client_VerifyPeerCertificate x peerKey raws = Ok () \<longleftrightarrow>
     (\<exists>raw c. raws = [raw] \<and> xf_Parse x raw = Some c \<and> ct_selfSigned c \<and> ct_PublicKey c = Some peerKey)"
  by (auto simp: client_VerifyPeerCertificate_def split: list.splits option.splits)

lemma client_handshake_Ok:
  "client_handshake x peerKey p = Ok k \<longleftrightarrow> k = peerKey \<and> pr_proves p = peerKey \<and>
     (\<exists>raw c. pr_certs p = [raw] \<and> xf_Parse x raw = Some c \<and> ct_selfSigned c \<and> ct_PublicKey c = Some peerKey)"
  by (auto simp: client_handshake_def outcome_simps client_verified leaf_key_def)

lemma created_cert:
  assumes "x509_law x" and "newSelfSignedCert x now key = Some der"
  shows "xf_Parse x der = Some \<lparr>ct_PublicKey = Some (xf_Public x key), ct_selfSigned = True,
    ct_NotAfter = (now + certDuration) div 10 ^ 9 * 10 ^ 9\<rparr>"
  using assms by (fastforce simp: x509_law_def newSelfSignedCert_def)

section \<open>The server's certificates over time\<close>

text \<open>What the callback returns at each of a list of times.\<close>

fun certificates_at :: "'sk x509 \<Rightarrow> 'sk \<Rightarrow> int list \<Rightarrow> cert_cache \<Rightarrow> (edtls_error, bytes) outcome list" where
  "certificates_at x key [] s = []"
| "certificates_at x key (now # ts) s =
     fst (GetCertificate x key now s) # certificates_at x key ts (snd (GetCertificate x key now s))"

definition cache_ok :: "'sk x509 \<Rightarrow> 'sk \<Rightarrow> cert_cache \<Rightarrow> bool" where
  "cache_ok x key s \<longleftrightarrow> (\<forall>der. cc_currCert s = Some der \<longrightarrow>
     (\<exists>t. newSelfSignedCert x t key = Some der \<and> cc_expiry s = t + 2 * certDuration div 3))"

lemma GetCertificate_ok:
  assumes "cache_ok x key s"
  shows "cache_ok x key (snd (GetCertificate x key now s))"
    and "fst (GetCertificate x key now s) = Ok der \<Longrightarrow>
      \<exists>t. newSelfSignedCert x t key = Some der \<and> now < t + 2 * certDuration div 3"
  using assms
  by (auto simp: GetCertificate_def renew_certificate_def cache_ok_def certDuration_def split: option.splits if_splits)

lemma certificates_created:
  "cache_ok x key s \<Longrightarrow> i < length ts \<Longrightarrow> certificates_at x key ts s ! i = Ok der \<Longrightarrow>
     \<exists>t. newSelfSignedCert x t key = Some der \<and> ts ! i < t + 2 * certDuration div 3"
proof (induction ts arbitrary: s i)
  case (Cons now ts)
  then show ?case using GetCertificate_ok [OF Cons.prems(1)] by (cases i) auto
qed simp

lemma certificates_length [simp]: "length (certificates_at x key ts s) = length ts"
  by (induction ts arbitrary: s) auto

text \<open>
  Whenever a client connects, and however often, the certificate the server presents is a
  self-signed one for its key that stays valid for another twenty minutes, less the second lost to
  the format's resolution; so a cached certificate never expires during a connection's handshake.
\<close>
theorem server_certificate_fresh:
  assumes "x509_law x" and "i < length ts" and "certificates_at x key ts NewTLSServerConfig ! i = Ok der"
  shows "\<exists>c. xf_Parse x der = Some c \<and> ct_PublicKey c = Some (xf_Public x key) \<and> ct_selfSigned c \<and>
    ts ! i + 1199 * 10 ^ 9 < ct_NotAfter c"
proof -
  have "cache_ok x key NewTLSServerConfig" by (simp add: cache_ok_def NewTLSServerConfig_def)
  then obtain t where t: "newSelfSignedCert x t key = Some der" "ts ! i < t + 2 * certDuration div 3"
    using certificates_created [OF _ assms(2,3)] by blast
  have down: "a - n < a div n * n" if "0 < n" for a n :: int
    unfolding minus_mod_eq_div_mult [symmetric] using pos_mod_bound [OF that, of a] by (rule diff_strict_left_mono)
  have "t + certDuration - 10 ^ 9 < (t + certDuration) div 10 ^ 9 * 10 ^ 9" by (rule down) simp
  moreover have "2 * certDuration div 3 + 1199 * 10 ^ 9 = certDuration - 10 ^ 9" by (simp add: certDuration_def)
  ultimately have "ts ! i + 1199 * 10 ^ 9 < (t + certDuration) div 10 ^ 9 * 10 ^ 9"
    using t(2) by linarith
  then show ?thesis using created_cert [OF assms(1) t(1)] by (simp only: cert.simps option.inject ex_simps simp_thms)
qed

text \<open>X.509 with the template's end and the key as the certificate.\<close>

definition demo_x509 :: "byte x509" where
  "demo_x509 = \<lparr>xf_Public = (\<lambda>k. [k]),
     xf_Create = (\<lambda>t k. if tm_NotAfter t < 0 then None else Some (k # replicate (nat (tm_NotAfter t div 10 ^ 9)) 0)),
     xf_Parse = (\<lambda>raw. case raw of [] \<Rightarrow> None
       | k # ns \<Rightarrow> Some \<lparr>ct_PublicKey = Some [k], ct_selfSigned = True, ct_NotAfter = int (length ns) * 10 ^ 9\<rparr>)\<rparr>"

lemma demo_x509_law: "x509_law demo_x509"
  by (auto simp: x509_law_def demo_x509_def pos_imp_zdiv_nonneg_iff split: if_splits)

theorem server_certificate_fresh_witness:
  "\<exists>c. xf_Parse demo_x509 (5 # replicate 3600 0) = Some c \<and> ct_PublicKey c = Some [5] \<and> 0 + 1199 * 10 ^ 9 < ct_NotAfter c"
proof -
  have p: "xf_Public demo_x509 5 = [5]" by (simp add: demo_x509_def)
  have "certificates_at demo_x509 5 [0] NewTLSServerConfig ! 0 = Ok (5 # replicate 3600 0)"
    by (simp add: GetCertificate_def renew_certificate_def NewTLSServerConfig_def newSelfSignedCert_def demo_x509_def certDuration_def)
  from server_certificate_fresh [OF demo_x509_law _ this] show ?thesis unfolding p by auto
qed

section \<open>A client and a server\<close>

text \<open>What a server with the private key presents, with the certificate its callback returned.\<close>

definition server_peer :: "'sk x509 \<Rightarrow> 'sk \<Rightarrow> bytes \<Rightarrow> tls_peer" where
  "server_peer x key der = \<lparr>pr_certs = [der], pr_proves = xf_Public x key\<rparr>"

definition client_peer :: "'sk x509 \<Rightarrow> 'sk option \<Rightarrow> bytes list \<Rightarrow> tls_peer" where
  "client_peer x myKey ders = \<lparr>pr_certs = ders, pr_proves = (case myKey of None \<Rightarrow> [] | Some k \<Rightarrow> xf_Public x k)\<rparr>"

text \<open>
  C24: a client reaches a server of this package exactly when it pins the server's key, and the
  server then sees the key the client holds, or none; and whatever the other end presents, a client's
  handshake succeeds only with an end that proved the pinned key.
\<close>
theorem edtls_authenticates:
  assumes "x509_law x" and "fst (GetCertificate x sk now s) = Ok der" and "cache_ok x sk s"
    and "GetClientCertificate x now' myKey = Ok ders"
  shows "(client_handshake x peerKey (server_peer x sk der) = Ok k \<longleftrightarrow> k = peerKey \<and> xf_Public x sk = peerKey) \<and>
    server_handshake x (client_peer x myKey ders) = Ok (map_option (xf_Public x) myKey) \<and>
    (client_handshake x peerKey p = Ok k \<longrightarrow> k = peerKey \<and> pr_proves p = peerKey)"
proof -
  obtain t where "newSelfSignedCert x t sk = Some der" using GetCertificate_ok(2) [OF assms(3,2)] by blast
  note c = created_cert [OF assms(1) this]
  have "server_handshake x (client_peer x myKey ders) = Ok (map_option (xf_Public x) myKey)"
    using assms(4) created_cert [OF assms(1)]
    by (auto simp: GetClientCertificate_def server_handshake_def client_peer_def server_VerifyPeerCertificate_def leaf_key_def
        split: option.splits)
  then show ?thesis using c by (auto simp: client_handshake_Ok server_peer_def)
qed

theorem edtls_authenticates_witness:
  "client_handshake demo_x509 [5] (server_peer demo_x509 5 (5 # replicate 3600 0)) = Ok [5]"
proof -
  have c: "fst (GetCertificate demo_x509 5 0 NewTLSServerConfig) = Ok (5 # replicate 3600 0)"
    by (simp add: GetCertificate_def renew_certificate_def NewTLSServerConfig_def newSelfSignedCert_def demo_x509_def certDuration_def)
  have e: "cache_ok demo_x509 5 NewTLSServerConfig" by (simp add: cache_ok_def NewTLSServerConfig_def)
  have g: "GetClientCertificate demo_x509 0 None = Ok []" by (simp add: GetClientCertificate_def)
  show ?thesis
    using edtls_authenticates [OF demo_x509_law c e g, of "[5]" "[5]" "server_peer demo_x509 5 []"] by (simp add: demo_x509_def)
qed

text \<open>Neither end looks at the dates: a client takes a certificate that ended long ago.\<close>

lemma expiry_not_checked:
  assumes "xf_Parse x raw = Some c" and "xf_Parse x' raw = Some (c\<lparr>ct_NotAfter := until\<rparr>)"
  shows "client_handshake x' peerKey \<lparr>pr_certs = [raw], pr_proves = k\<rparr> = client_handshake x peerKey \<lparr>pr_certs = [raw], pr_proves = k\<rparr>"
  using assms by (simp add: client_handshake_def client_VerifyPeerCertificate_def leaf_key_def)

section \<open>The HTTP client\<close>

text \<open>The key each address must prove. A Go \<open>nil\<close> key is \<open>None\<close>.\<close>

type_synonym ed_client = "string \<rightharpoonup> bytes option"

definition init_client :: ed_client where "init_client = Map.empty"

definition key_for :: "ed_client \<Rightarrow> string \<Rightarrow> bytes option" where
  "key_for c addr = Option.bind (c addr) (\<lambda>k. k)"

datatype edhttp_error = ParseURL | MultipleKeys string | NoKeyFor string | Unencrypted | UnsupportedScheme | TooManyRedirects
| JsonEncoding | Edtls edtls_error

definition assertKey :: "string \<Rightarrow> bytes option \<Rightarrow> ed_client \<Rightarrow> (edhttp_error, ed_client) outcome" where
  "assertKey address key c =
     (case key_for c address of
        Some k \<Rightarrow> if k = (case key of None \<Rightarrow> [] | Some b \<Rightarrow> b) then Ok c else Err (MultipleKeys address)
      | None \<Rightarrow> Ok (c(address \<mapsto> key)))"

record url =
  u_Scheme :: string
  u_Host :: string

definition assertKeyURL :: "(string \<Rightarrow> url option) \<Rightarrow> string \<Rightarrow> bytes option \<Rightarrow> ed_client \<Rightarrow> (edhttp_error, ed_client) outcome" where
  "assertKeyURL parse urlStr key c = (case parse urlStr of None \<Rightarrow> Err ParseURL | Some u \<Rightarrow> assertKey (u_Host u) key c)"

text \<open>
  What the outside does: the address net/http dials for a host (it adds the default port when there
  is none), what each dialled address presents, and how the server of a key answers. Answers depend
  on how many requests are left.
\<close>

datatype 'r http_answer = Response 'r | Redirect url

record 'r web =
  wb_canonicalAddr :: "string \<Rightarrow> string"
  wb_dial :: "nat \<Rightarrow> string \<Rightarrow> tls_peer option"
  wb_answer :: "nat \<Rightarrow> tls_peer \<Rightarrow> url \<Rightarrow> 'r http_answer"

definition DialTLS :: "'sk x509 \<Rightarrow> (string \<Rightarrow> tls_peer option) \<Rightarrow> ed_client \<Rightarrow> string \<Rightarrow> (edhttp_error, tls_peer) outcome" where
  "DialTLS x dial c addr =
     (case key_for c addr of
        None \<Rightarrow> Err (NoKeyFor addr)
      | Some serverKey \<Rightarrow>
          (case dial addr of
             None \<Rightarrow> Err (Edtls Unreachable)
           | Some p \<Rightarrow> (case client_handshake x serverKey p of
               Ok _ \<Rightarrow> Ok p | Err e \<Rightarrow> Err (Edtls e) | Panic \<Rightarrow> Panic)))"

text \<open>
  \<open>http.Client.Do\<close> over that transport, which gives up after ten requests; with the response come
  the addresses dialled and who was there, latest last.
\<close>

fun http_do :: "'sk x509 \<Rightarrow> 'r web \<Rightarrow> ed_client \<Rightarrow> nat \<Rightarrow> url \<Rightarrow> (edhttp_error, 'r \<times> (string \<times> tls_peer) list) outcome" where
  "http_do x w c 0 u = Err TooManyRedirects"
| "http_do x w c (Suc n) u =
     (if u_Scheme u = ''http'' then Err Unencrypted
      else if u_Scheme u \<noteq> ''https'' then Err UnsupportedScheme
      else let addr = wb_canonicalAddr w (u_Host u) in
        bind_outcome (DialTLS x (wb_dial w n) c addr) (\<lambda>p.
          case wb_answer w n p u of
            Response r \<Rightarrow> Ok (r, [(addr, p)])
          | Redirect u' \<Rightarrow> bind_outcome (http_do x w c n u') (\<lambda>(r, via). Ok (r, (addr, p) # via))))"

abbreviation "maxRequests \<equiv> 10 :: nat"

text \<open>\<open>Do\<close>, and \<open>Get\<close> and \<open>Post\<close>, which parse the URL, with the pins they leave.\<close>

definition ed_Do :: "'sk x509 \<Rightarrow> 'r web \<Rightarrow> bytes option \<Rightarrow> url \<Rightarrow> ed_client \<Rightarrow>
    (edhttp_error, 'r \<times> (string \<times> tls_peer) list) outcome \<times> ed_client" where
  "ed_Do x w key u c =
     (case assertKey (u_Host u) key c of
        Ok c' \<Rightarrow> (http_do x w c' maxRequests u, c') | Err e \<Rightarrow> (Err e, c) | Panic \<Rightarrow> (Panic, c))"

definition ed_Get :: "'sk x509 \<Rightarrow> (string \<Rightarrow> url option) \<Rightarrow> 'r web \<Rightarrow> bytes option \<Rightarrow> string \<Rightarrow> ed_client \<Rightarrow>
    (edhttp_error, 'r \<times> (string \<times> tls_peer) list) outcome \<times> ed_client" where
  "ed_Get x parse w key urlStr c =
     (case assertKeyURL parse urlStr key c of
        Err e \<Rightarrow> (Err e, c)
      | Panic \<Rightarrow> (Panic, c)
      | Ok c' \<Rightarrow> (case parse urlStr of None \<Rightarrow> (Err ParseURL, c') | Some u \<Rightarrow> (http_do x w c' maxRequests u, c')))"

definition ed_PostJSON :: "'sk x509 \<Rightarrow> (string \<Rightarrow> url option) \<Rightarrow> ('v \<Rightarrow> bytes option) \<Rightarrow> (bytes \<Rightarrow> 'r web) \<Rightarrow> bytes option \<Rightarrow> string \<Rightarrow> 'v \<Rightarrow>
    ed_client \<Rightarrow> (edhttp_error, 'r \<times> (string \<times> tls_peer) list) outcome \<times> ed_client" where
  "ed_PostJSON x parse encode w key urlStr v c =
     (case assertKeyURL parse urlStr key c of
        Err e \<Rightarrow> (Err e, c)
      | Panic \<Rightarrow> (Panic, c)
      | Ok c' \<Rightarrow> (case encode v of
          None \<Rightarrow> (Err JsonEncoding, c')
        | Some body \<Rightarrow> (case parse urlStr of None \<Rightarrow> (Err ParseURL, c') | Some u \<Rightarrow> (http_do x (w body) c' maxRequests u, c'))))"

definition ed_Post :: "'sk x509 \<Rightarrow> (string \<Rightarrow> url option) \<Rightarrow> (bytes \<Rightarrow> 'r web) \<Rightarrow> bytes option \<Rightarrow> string \<Rightarrow> bytes \<Rightarrow>
    ed_client \<Rightarrow> (edhttp_error, 'r \<times> (string \<times> tls_peer) list) outcome \<times> ed_client" where
  "ed_Post x parse w key urlStr body c =
     (case assertKeyURL parse urlStr key c of
        Err e \<Rightarrow> (Err e, c)
      | Panic \<Rightarrow> (Panic, c)
      | Ok c' \<Rightarrow> (case parse urlStr of None \<Rightarrow> (Err ParseURL, c') | Some u \<Rightarrow> (http_do x (w body) c' maxRequests u, c')))"

text \<open>Pins are only added.\<close>

definition pins_kept :: "ed_client \<Rightarrow> ed_client \<Rightarrow> bool" where
  "pins_kept c c' \<longleftrightarrow> (\<forall>a k. key_for c a = Some k \<longrightarrow> key_for c' a = Some k)"

lemma pins_kept_refl [simp]: "pins_kept c c"
  by (simp add: pins_kept_def)





text \<open>Two servers, a with key 5 and b with key 6; a sends every request on to b.\<close>

definition demo_url :: "string \<Rightarrow> url option" where
  "demo_url s = Some \<lparr>u_Scheme = ''https'', u_Host = s\<rparr>"

definition demo_web :: "string web" where
  "demo_web = \<lparr>wb_canonicalAddr = (\<lambda>a. a),
     wb_dial = (\<lambda>n a. Some (server_peer demo_x509 (if a = ''a'' then 5 else 6) [if a = ''a'' then 5 else 6])),
     wb_answer = (\<lambda>n p u. if u_Host u = ''a'' then Redirect \<lparr>u_Scheme = ''https'', u_Host = ''b''\<rparr> else Response ''hello'')\<rparr>"

definition demo_peer :: "8 word \<Rightarrow> tls_peer" where
  "demo_peer k = \<lparr>pr_certs = [[k]], pr_proves = [k]\<rparr>"

lemmas demo_simps = ed_Get_def assertKeyURL_def assertKey_def key_for_def demo_url_def demo_web_def DialTLS_def client_handshake_def
  client_VerifyPeerCertificate_def leaf_key_def server_peer_def demo_x509_def demo_peer_def



text \<open>The response to a request may so come from another server than the one whose key the caller gave.\<close>

lemma redirected_to_other_key:
  "ed_Get demo_x509 demo_url demo_web (Some [5]) ''a'' (Map.empty(''b'' \<mapsto> Some [6])) =
     (Ok (''hello'', [(''a'', demo_peer 5), (''b'', demo_peer 6)]), Map.empty(''b'' \<mapsto> Some [6], ''a'' \<mapsto> Some [5]))"
  by (simp add: demo_simps numeral_eq_Suc)

text \<open>A URL without a port pins the bare host, but the address dialled has a port, and no key.\<close>

lemma portless_url_fails:
  assumes "wb_canonicalAddr w (u_Host u) \<noteq> u_Host u" and "key_for c (wb_canonicalAddr w (u_Host u)) = None"
    and "u_Scheme u = ''https''" and "assertKey (u_Host u) key c = Ok c'"
  shows "http_do x w c' (Suc n) u = Err (NoKeyFor (wb_canonicalAddr w (u_Host u)))"
  using assms by (auto simp: assertKey_def key_for_def DialTLS_def Let_def split: option.splits if_splits bind_splits)

text \<open>Two keys for one address are refused, and the first stays.\<close>

lemma second_key_refused:
  assumes "key_for c (u_Host u) = Some k" and "k \<noteq> key" and "parse urlStr = Some u"
  shows "ed_Get x parse w (Some key) urlStr c = (Err (MultipleKeys (u_Host u)), c)"
  using assms by (simp add: ed_Get_def assertKeyURL_def assertKey_def)

end
