(* ===== verification/TypeSocket.thy ===== *)
theory TypeSocket
  imports Prelude "HOL-Library.Sublist" "HOL-Library.Multiset"
begin

text \<open>
  The websocket hub (src/typesocket/hub.go), the dispatch of messages (mux.go) and the client's
  connection (client.go). Goroutines interleave: a stretch under a mutex, a channel operation and a
  websocket operation are one step each. A send on a closed channel and a second close panic, as in
  Go. The websocket and JSON are parameters: a write or a read may fail at any time.
\<close>

section \<open>Messages\<close>

record envelope =
  ev_ID :: string
  ev_Message :: bytes

text \<open>\<open>json.Marshal\<close> of a value, and of the envelope around it.\<close>

definition encodeMessage :: "('v \<Rightarrow> bytes option) \<Rightarrow> (envelope \<Rightarrow> bytes option) \<Rightarrow> string \<Rightarrow> 'v \<Rightarrow> bytes option" where
  "encodeMessage marshal marshal_env msgID v =
     (case marshal v of None \<Rightarrow> None | Some raw \<Rightarrow> marshal_env \<lparr>ev_ID = msgID, ev_Message = raw\<rparr>)"

text \<open>A handler with the decoding of its argument, by reflection on its type.\<close>

record ('c, 's) muxEntry =
  mx_decode_call :: "bytes \<Rightarrow> ('c \<Rightarrow> 's \<Rightarrow> 's) option"

type_synonym ('c, 's) mux = "string \<rightharpoonup> ('c, 's) muxEntry"

definition mux_entry :: "(bytes \<Rightarrow> 'v option) \<Rightarrow> ('c \<Rightarrow> 'v \<Rightarrow> 's \<Rightarrow> 's) \<Rightarrow> ('c, 's) muxEntry" where
  "mux_entry unmarshal fn = \<lparr>mx_decode_call = (\<lambda>raw. map_option (\<lambda>v c. fn c v) (unmarshal raw))\<rparr>"

definition NewMux :: "(string \<times> ('c, 's) muxEntry) list \<Rightarrow> ('c, 's) mux" where
  "NewMux handlers = map_of handlers"

definition openEnvelope :: "('c, 's) mux \<Rightarrow> 'c \<Rightarrow> envelope \<Rightarrow> 's \<Rightarrow> 's" where
  "openEnvelope m conn e s =
     (case m (ev_ID e) of
        None \<Rightarrow> s
      | Some h \<Rightarrow> (case mx_decode_call h (ev_Message e) of None \<Rightarrow> s | Some call \<Rightarrow> call conn s))"

section \<open>Channels\<close>

record chan =
  ch_buf :: "bytes list"
  ch_closed :: bool

definition chan_cap :: nat where "chan_cap = 64"

text \<open>The send of a select with a default case: whether the message went in.\<close>

definition chan_try_send :: "bytes \<Rightarrow> chan \<Rightarrow> (unit, bool \<times> chan) outcome" where
  "chan_try_send m ch =
     (if ch_closed ch then Panic
      else if length (ch_buf ch) < chan_cap then Ok (True, ch\<lparr>ch_buf := ch_buf ch @ [m]\<rparr>) else Ok (False, ch))"

definition chan_close :: "chan \<Rightarrow> (unit, chan) outcome" where
  "chan_close ch = (if ch_closed ch then Panic else Ok (ch\<lparr>ch_closed := True\<rparr>))"

section \<open>Connections\<close>

text \<open>
  Where the two goroutines of a connection are. The reader is in \<open>OnConnect\<close>, reads, has left the
  loop and still has to unregister, or is gone; the writer is not started, runs, or is gone.
\<close>

datatype reader = InOnConnect | Reading | Leaving | ReaderGone
datatype writer = NotStarted | Writing | WriterGone

text \<open>The last two fields are the history: what the queue took, and what went to the websocket.\<close>

record serverConn =
  sc_send :: chan
  sc_closed :: bool
  sc_reader :: reader
  sc_writer :: writer
  sc_accepted :: "bytes list"
  sc_written :: "bytes list"

definition new_conn :: serverConn where
  "new_conn = \<lparr>sc_send = \<lparr>ch_buf = [], ch_closed = False\<rparr>, sc_closed = False, sc_reader = InOnConnect, sc_writer = NotStarted,
     sc_accepted = [], sc_written = []\<rparr>"

text \<open>The stretch of \<open>Send\<close> under the mutex: the connection, and how it ends.\<close>

datatype send_result = Sent | ConnectionClosed | FailedToSend

definition conn_Send :: "bytes \<Rightarrow> serverConn \<Rightarrow> (unit, serverConn \<times> send_result) outcome" where
  "conn_Send msg c =
     (if sc_closed c then Ok (c, ConnectionClosed)
      else bind_outcome (chan_try_send msg (sc_send c)) (\<lambda>(ok, ch).
        if ok then Ok (c\<lparr>sc_send := ch, sc_accepted := sc_accepted c @ [msg]\<rparr>, Sent)
        else bind_outcome (chan_close ch) (\<lambda>ch'. Ok (c\<lparr>sc_closed := True, sc_send := ch'\<rparr>, FailedToSend))))"

text \<open>The deferred stretch of \<open>readPump\<close> under the mutex.\<close>

definition reader_close :: "serverConn \<Rightarrow> (unit, serverConn) outcome" where
  "reader_close c =
     (if sc_closed c then Ok c else bind_outcome (chan_close (sc_send c)) (\<lambda>ch. Ok (c\<lparr>sc_closed := True, sc_send := ch\<rparr>)))"

text \<open>The turn of \<open>Broadcast\<close> for one connection; whether it is deleted from the map.\<close>

definition broadcast_turn :: "bytes \<Rightarrow> serverConn \<Rightarrow> (unit, serverConn \<times> bool) outcome" where
  "broadcast_turn msg c =
     (if sc_closed c then Ok (c, False)
      else bind_outcome (chan_try_send msg (sc_send c)) (\<lambda>(ok, ch).
        if ok then Ok (c\<lparr>sc_send := ch, sc_accepted := sc_accepted c @ [msg]\<rparr>, False)
        else bind_outcome (chan_close ch) (\<lambda>ch'. Ok (c\<lparr>sc_closed := True, sc_send := ch'\<rparr>, True))))"

section \<open>The hub\<close>

type_synonym conn_id = nat

text \<open>
  Who holds \<open>h.mu\<close>: nobody, or a broadcast, with its message, the connections it has done and those
  still to come. \<open>hb_unregister\<close> are calls of \<open>unregister\<close> that wait after a failed \<open>Send\<close>.
\<close>

record broadcast =
  bc_msg :: bytes
  bc_done :: "conn_id list"
  bc_todo :: "conn_id list"

record hub =
  hb_conns :: "conn_id set"
  hb_obj :: "conn_id \<rightharpoonup> serverConn"
  hb_lock :: "broadcast option"
  hb_unregister :: "conn_id list"

definition new_hub :: hub where
  "new_hub = \<lparr>hb_conns = {}, hb_obj = Map.empty, hb_lock = None, hb_unregister = []\<rparr>"

definition register :: "conn_id \<Rightarrow> hub \<Rightarrow> hub" where
  "register i h = h\<lparr>hb_conns := insert i (hb_conns h), hb_obj := (hb_obj h)(i \<mapsto> new_conn)\<rparr>"

definition unregister :: "conn_id \<Rightarrow> hub \<Rightarrow> hub" where
  "unregister i h = h\<lparr>hb_conns := hb_conns h - {i}\<rparr>"

definition set_conn :: "conn_id \<Rightarrow> serverConn \<Rightarrow> hub \<Rightarrow> hub" where
  "set_conn i c h = h\<lparr>hb_obj := (hb_obj h)(i \<mapsto> c)\<rparr>"

text \<open>
  The steps, with the object of the connection they touch. A connection's handlers run in its reader
  and call \<open>Send\<close> on any connection; so may \<open>OnConnect\<close> and the application.
\<close>

datatype hub_event =
  Connect conn_id | ConnectRefused conn_id | ConnectAccepted conn_id
| SendMsg conn_id bytes | Unregister conn_id
| BroadcastBegin bytes | BroadcastTurn conn_id | BroadcastEnd
| ReadOk conn_id | ReadFails conn_id | ReaderUnregisters conn_id
| WriteOk conn_id bytes | WriteFails conn_id bytes | WriteClose conn_id | PingFails conn_id

definition send_step :: "conn_id \<Rightarrow> bytes \<Rightarrow> serverConn \<Rightarrow> hub \<Rightarrow> (unit, hub) outcome" where
  "send_step i msg c h =
     bind_outcome (conn_Send msg c) (\<lambda>(c', r).
       Ok ((set_conn i c' h)\<lparr>hb_unregister := hb_unregister h @ (if r = FailedToSend then [i] else [])\<rparr>))"

definition broadcast_step :: "conn_id \<Rightarrow> broadcast \<Rightarrow> serverConn \<Rightarrow> hub \<Rightarrow> (unit, hub) outcome" where
  "broadcast_step i b c h =
     bind_outcome (broadcast_turn (bc_msg b) c) (\<lambda>(c', gone).
       Ok ((if gone then unregister i else id) (set_conn i c' h)
             \<lparr>hb_lock := Some (b\<lparr>bc_done := bc_done b @ [i], bc_todo := tl (bc_todo b)\<rparr>)\<rparr>))"

inductive hub_step :: "hub \<Rightarrow> hub_event \<Rightarrow> (unit, hub) outcome \<Rightarrow> bool" where
  st_connect: "hb_lock h = None \<Longrightarrow> hb_obj h i = None \<Longrightarrow> hub_step h (Connect i) (Ok (register i h))"
| st_refused: "hb_obj h i = Some c \<Longrightarrow> sc_reader c = InOnConnect \<Longrightarrow>
     hub_step h (ConnectRefused i) (Ok (set_conn i (c\<lparr>sc_reader := ReaderGone\<rparr>) h))"
| st_accepted: "hb_obj h i = Some c \<Longrightarrow> sc_reader c = InOnConnect \<Longrightarrow>
     hub_step h (ConnectAccepted i) (Ok (set_conn i (c\<lparr>sc_reader := Reading, sc_writer := Writing\<rparr>) h))"
| st_send: "hb_obj h i = Some c \<Longrightarrow> hub_step h (SendMsg i msg) (send_step i msg c h)"
| st_unregister: "hb_lock h = None \<Longrightarrow> hb_unregister h = us @ i # vs \<Longrightarrow>
     hub_step h (Unregister i) (Ok ((unregister i h)\<lparr>hb_unregister := us @ vs\<rparr>))"
| st_begin: "hb_lock h = None \<Longrightarrow> distinct order \<Longrightarrow> set order = hb_conns h \<Longrightarrow>
     hub_step h (BroadcastBegin msg) (Ok (h\<lparr>hb_lock := Some \<lparr>bc_msg = msg, bc_done = [], bc_todo = order\<rparr>\<rparr>))"
| st_turn: "hb_lock h = Some b \<Longrightarrow> bc_todo b = i # rest \<Longrightarrow> hb_obj h i = Some c \<Longrightarrow>
     hub_step h (BroadcastTurn i) (broadcast_step i b c h)"
| st_end: "hb_lock h = Some b \<Longrightarrow> bc_todo b = [] \<Longrightarrow> hub_step h BroadcastEnd (Ok (h\<lparr>hb_lock := None\<rparr>))"
| st_read: "hb_obj h i = Some c \<Longrightarrow> sc_reader c = Reading \<Longrightarrow> hub_step h (ReadOk i) (Ok h)"
| st_read_fails: "hb_obj h i = Some c \<Longrightarrow> sc_reader c = Reading \<Longrightarrow>
     hub_step h (ReadFails i) (bind_outcome (reader_close c) (\<lambda>c'. Ok (set_conn i (c'\<lparr>sc_reader := Leaving\<rparr>) h)))"
| st_reader_unregisters: "hb_lock h = None \<Longrightarrow> hb_obj h i = Some c \<Longrightarrow> sc_reader c = Leaving \<Longrightarrow>
     hub_step h (ReaderUnregisters i) (Ok (set_conn i (c\<lparr>sc_reader := ReaderGone\<rparr>) (unregister i h)))"
| st_write: "hb_obj h i = Some c \<Longrightarrow> sc_writer c = Writing \<Longrightarrow> ch_buf (sc_send c) = m # rest \<Longrightarrow>
     hub_step h (WriteOk i m) (Ok (set_conn i (c\<lparr>sc_send := (sc_send c)\<lparr>ch_buf := rest\<rparr>, sc_written := sc_written c @ [m]\<rparr>) h))"
| st_write_fails: "hb_obj h i = Some c \<Longrightarrow> sc_writer c = Writing \<Longrightarrow> ch_buf (sc_send c) = m # rest \<Longrightarrow>
     hub_step h (WriteFails i m) (Ok (set_conn i (c\<lparr>sc_send := (sc_send c)\<lparr>ch_buf := rest\<rparr>, sc_writer := WriterGone\<rparr>) h))"
| st_write_close: "hb_obj h i = Some c \<Longrightarrow> sc_writer c = Writing \<Longrightarrow> ch_buf (sc_send c) = [] \<Longrightarrow> ch_closed (sc_send c) \<Longrightarrow>
     hub_step h (WriteClose i) (Ok (set_conn i (c\<lparr>sc_writer := WriterGone\<rparr>) h))"
| st_ping_fails: "hb_obj h i = Some c \<Longrightarrow> sc_writer c = Writing \<Longrightarrow>
     hub_step h (PingFails i) (Ok (set_conn i (c\<lparr>sc_writer := WriterGone\<rparr>) h))"

inductive hub_reach :: "hub \<Rightarrow> bool" where
  hub_init: "hub_reach new_hub"
| hub_next: "hub_reach h \<Longrightarrow> hub_step h e (Ok h') \<Longrightarrow> hub_reach h'"

inductive_cases hub_step_Panic: "hub_step h e Panic"
inductive_cases hub_step_Ok: "hub_step h e (Ok h')"

section \<open>The invariant\<close>

definition conn_ok :: "serverConn \<Rightarrow> bool" where
  "conn_ok c \<longleftrightarrow> (sc_closed c \<longleftrightarrow> ch_closed (sc_send c)) \<and> length (ch_buf (sc_send c)) \<le> chan_cap \<and>
     prefix (sc_written c) (sc_accepted c) \<and> (sc_writer c = WriterGone \<or> sc_accepted c = sc_written c @ ch_buf (sc_send c)) \<and>
     (sc_reader c = InOnConnect \<longrightarrow> sc_writer c = NotStarted)"

definition hub_inv :: "hub \<Rightarrow> bool" where
  "hub_inv h \<longleftrightarrow> hb_conns h \<subseteq> dom (hb_obj h) \<and> (\<forall>i c. hb_obj h i = Some c \<longrightarrow> conn_ok c)"

text \<open>What a stretch under the mutex does to a sound connection.\<close>

definition grows :: "serverConn \<Rightarrow> serverConn \<Rightarrow> bool" where
  "grows c c' \<longleftrightarrow> prefix (sc_accepted c) (sc_accepted c') \<and>
     (sc_closed c \<longrightarrow> sc_closed c' \<and> sc_accepted c' = sc_accepted c)"

lemma grows_refl [simp]: "grows c c"
  by (simp add: grows_def)

lemma grows_trans: "grows a b \<Longrightarrow> grows b c \<Longrightarrow> grows a c"
  by (auto simp: grows_def dest: prefix_order.trans)

lemma conn_Send_ok:
  assumes "conn_ok c"
  shows "\<exists>c' r. conn_Send m c = Ok (c', r) \<and> conn_ok c' \<and> grows c c' \<and> (r = Sent \<longrightarrow> sc_accepted c' = sc_accepted c @ [m])"
  using assms by (auto simp: conn_ok_def conn_Send_def chan_try_send_def chan_close_def grows_def)

lemma reader_close_ok:
  assumes "conn_ok c"
  shows "\<exists>c'. reader_close c = Ok c' \<and> conn_ok c' \<and> grows c c' \<and> sc_closed c'"
  using assms by (auto simp: conn_ok_def reader_close_def chan_close_def grows_def)

lemma broadcast_turn_ok:
  assumes "conn_ok c"
  shows "\<exists>c' gone. broadcast_turn m c = Ok (c', gone) \<and> conn_ok c' \<and> grows c c' \<and>
    (sc_closed c' \<or> sc_accepted c' = sc_accepted c @ [m])"
  using assms by (auto simp: conn_ok_def broadcast_turn_def chan_try_send_def chan_close_def grows_def)

lemma conn_moves:
  "conn_ok c \<Longrightarrow> r \<noteq> InOnConnect \<Longrightarrow> conn_ok (c\<lparr>sc_reader := r\<rparr>)"
  "conn_ok c \<Longrightarrow> sc_reader c = InOnConnect \<Longrightarrow> conn_ok (c\<lparr>sc_reader := Reading, sc_writer := Writing\<rparr>)"
  "conn_ok c \<Longrightarrow> sc_writer c = Writing \<Longrightarrow> conn_ok (c\<lparr>sc_writer := WriterGone\<rparr>)"
  "conn_ok c \<Longrightarrow> sc_writer c = Writing \<Longrightarrow> ch_buf (sc_send c) = m # rest \<Longrightarrow>
     conn_ok (c\<lparr>sc_send := (sc_send c)\<lparr>ch_buf := rest\<rparr>, sc_written := sc_written c @ [m]\<rparr>)"
  "conn_ok c \<Longrightarrow> sc_writer c = Writing \<Longrightarrow> ch_buf (sc_send c) = m # rest \<Longrightarrow>
     conn_ok (c\<lparr>sc_send := (sc_send c)\<lparr>ch_buf := rest\<rparr>, sc_writer := WriterGone\<rparr>)"
  by (auto simp: conn_ok_def)

lemma conn_moves_grow [simp]:
  "grows c (c'\<lparr>sc_send := ch\<rparr>) = grows c c'"
  "grows c (c'\<lparr>sc_reader := r\<rparr>) = grows c c'"
  "grows c (c'\<lparr>sc_writer := w\<rparr>) = grows c c'"
  "grows c (c'\<lparr>sc_reader := r, sc_writer := w\<rparr>) = grows c c'"
  "grows c (c'\<lparr>sc_send := ch, sc_written := ws\<rparr>) = grows c c'"
  "grows c (c'\<lparr>sc_send := ch, sc_writer := w\<rparr>) = grows c c'"
  by (simp_all add: grows_def)

text \<open>
  How a step changes the objects: it makes a new one, leaves all alone, or changes one, and then only
  grows it. The writer and the reader are started together, once.
\<close>

definition hub_grows :: "hub \<Rightarrow> hub \<Rightarrow> bool" where
  "hub_grows h h' \<longleftrightarrow> (\<forall>i c. hb_obj h i = Some c \<longrightarrow> (\<exists>c'. hb_obj h' i = Some c' \<and> grows c c'))"

lemma hub_grows_refl [simp]: "hub_grows h h"
  by (auto simp: hub_grows_def)

lemma hub_grows_trans: "hub_grows a b \<Longrightarrow> hub_grows b c \<Longrightarrow> hub_grows a c"
  unfolding hub_grows_def using grows_trans by metis

lemma set_conn_grows: "hb_obj h i = Some c \<Longrightarrow> grows c c' \<Longrightarrow> hub_grows h (set_conn i c' h)"
  by (auto simp: hub_grows_def set_conn_def)

lemma set_conn_inv: "hub_inv h \<Longrightarrow> conn_ok c' \<Longrightarrow> hub_inv (set_conn i c' h)"
  by (auto simp: hub_inv_def set_conn_def)

lemma hub_fields [simp]:
  "hb_obj (set_conn i c h) = (hb_obj h)(i \<mapsto> c)" "hb_conns (set_conn i c h) = hb_conns h" "hb_lock (set_conn i c h) = hb_lock h"
  "hb_unregister (set_conn i c h) = hb_unregister h"
  "hb_obj (unregister i h) = hb_obj h" "hb_lock (unregister i h) = hb_lock h" "hb_conns (unregister i h) = hb_conns h - {i}"
  by (simp_all add: set_conn_def unregister_def)

lemma hub_only_objects:
  "hub_inv h' \<longleftrightarrow> hub_inv h" "hub_grows g h' \<longleftrightarrow> hub_grows g h"
  if "hb_obj h' = hb_obj h" "hb_conns h' = hb_conns h"
  using that by (simp_all add: hub_inv_def hub_grows_def)

lemma unregister_inv [simp]: "hub_inv h \<Longrightarrow> hub_inv (unregister i h)" "hub_grows g (unregister i h) = hub_grows g h"
  by (auto simp: hub_inv_def hub_grows_def)

text \<open>No step of a sound hub panics, and each leads to a sound hub with more history.\<close>

lemma set_conn_step:
  assumes "hub_inv h" and "hb_obj h i = Some c" and "conn_ok c'" and "grows c c'"
  shows "hub_inv (set_conn i c' h) \<and> hub_grows h (set_conn i c' h)"
  using assms set_conn_inv set_conn_grows by blast

lemma hub_step_ok:
  assumes "hub_inv h" and "hub_step h e out"
  shows "\<exists>h'. out = Ok h' \<and> hub_inv h' \<and> hub_grows h h'"
  using assms(2)
proof cases
  case (st_connect i)
  have "conn_ok new_conn" by (simp add: conn_ok_def new_conn_def)
  then show ?thesis using st_connect assms(1) by (auto simp: register_def hub_inv_def hub_grows_def)
next
  case (st_refused i c)
  then have "conn_ok c" using assms(1) by (simp add: hub_inv_def)
  then show ?thesis using st_refused set_conn_step [OF assms(1) st_refused(3) conn_moves(1)] by simp
next
  case (st_accepted i c)
  then have "conn_ok c" using assms(1) by (simp add: hub_inv_def)
  then show ?thesis using st_accepted set_conn_step [OF assms(1) st_accepted(3) conn_moves(2)] by simp
next
  case (st_send i c msg)
  then have "conn_ok c" using assms(1) by (simp add: hub_inv_def)
  then obtain c' r where "conn_Send msg c = Ok (c', r)" "conn_ok c'" "grows c c'" using conn_Send_ok by blast
  then show ?thesis using st_send set_conn_step [OF assms(1) st_send(3)] by (simp add: send_step_def hub_inv_def hub_grows_def)
next
  case (st_unregister us i vs)
  have "hub_inv (unregister i h)" using assms(1) by simp
  then show ?thesis unfolding st_unregister(2) by (simp add: hub_inv_def hub_grows_def)
next
  case (st_turn b i rest c)
  then have "conn_ok c" using assms(1) by (simp add: hub_inv_def)
  then obtain c' gone where t: "broadcast_turn (bc_msg b) c = Ok (c', gone)" and "conn_ok c'" "grows c c'"
    using broadcast_turn_ok by blast
  then have "hub_inv (set_conn i c' h)" "hub_grows h (set_conn i c' h)" using set_conn_step [OF assms(1) st_turn(5)] by blast+
  then show ?thesis using st_turn t by (auto simp: broadcast_step_def hub_inv_def hub_grows_def)
next
  case (st_read_fails i c)
  then have "conn_ok c" using assms(1) by (simp add: hub_inv_def)
  then obtain c' where "reader_close c = Ok c'" "conn_ok c'" "grows c c'" using reader_close_ok by blast
  then show ?thesis using st_read_fails set_conn_step [OF assms(1) st_read_fails(3) conn_moves(1)] by simp
next
  case (st_reader_unregisters i c)
  then have c: "conn_ok c" using assms(1) by (simp add: hub_inv_def)
  have u: "hub_inv (unregister i h)" "hb_obj (unregister i h) i = Some c" using assms(1) st_reader_unregisters by simp_all
  have "hub_inv (set_conn i (c\<lparr>sc_reader := ReaderGone\<rparr>) (unregister i h)) \<and>
      hub_grows (unregister i h) (set_conn i (c\<lparr>sc_reader := ReaderGone\<rparr>) (unregister i h))"
    by (rule set_conn_step [OF u conn_moves(1) [OF c]]) simp_all
  then show ?thesis using st_reader_unregisters(2) by (simp add: hub_grows_def)
next
  case (st_write i c m rest)
  then have "conn_ok c" using assms(1) by (simp add: hub_inv_def)
  then show ?thesis using st_write set_conn_step [OF assms(1) st_write(3) conn_moves(4)] by simp
next
  case (st_write_fails i c m rest)
  then have "conn_ok c" using assms(1) by (simp add: hub_inv_def)
  then show ?thesis using st_write_fails set_conn_step [OF assms(1) st_write_fails(3) conn_moves(5)] by simp
next
  case (st_write_close i c)
  then have "conn_ok c" using assms(1) by (simp add: hub_inv_def)
  then show ?thesis using st_write_close set_conn_step [OF assms(1) st_write_close(3) conn_moves(3)] by simp
next
  case (st_ping_fails i c)
  then have "conn_ok c" using assms(1) by (simp add: hub_inv_def)
  then show ?thesis using st_ping_fails set_conn_step [OF assms(1) st_ping_fails(3) conn_moves(3)] by simp
qed (use assms(1) in \<open>simp_all add: hub_inv_def hub_grows_def\<close>)

lemma hub_reach_inv: "hub_reach h \<Longrightarrow> hub_inv h"
  by (induction rule: hub_reach.induct) (use hub_step_ok in \<open>fastforce simp: hub_inv_def new_hub_def\<close>)+

section \<open>What the hub guarantees\<close>

inductive hub_run :: "hub \<Rightarrow> hub_event list \<Rightarrow> hub \<Rightarrow> bool" where
  run_none: "hub_run h [] h"
| run_step: "hub_step h e (Ok h') \<Longrightarrow> hub_run h' es h'' \<Longrightarrow> hub_run h (e # es) h''"

lemma hub_run_reach: "hub_run h es h' \<Longrightarrow> hub_reach h \<Longrightarrow> hub_reach h'"
  by (induction rule: hub_run.induct) (auto intro: hub_next)

lemma hub_step_grows: "hub_reach h \<Longrightarrow> hub_step h e (Ok h') \<Longrightarrow> hub_grows h h'"
  using hub_step_ok [OF hub_reach_inv] by fastforce

text \<open>The connection took the message since, or is closed.\<close>

definition served :: "bytes \<Rightarrow> serverConn \<Rightarrow> serverConn \<Rightarrow> bool" where
  "served msg c c' \<longleftrightarrow> sc_closed c' \<or> (\<exists>xs. sc_accepted c' = sc_accepted c @ xs \<and> msg \<in> set xs)"

lemma served_grows: "served msg c a \<Longrightarrow> grows a b \<Longrightarrow> served msg c b"
  by (fastforce simp: served_def grows_def prefix_def)

lemma grows_served: "grows c a \<Longrightarrow> sc_closed b \<or> sc_accepted b = sc_accepted a @ [msg] \<Longrightarrow> served msg c b"
  by (fastforce simp: served_def grows_def prefix_def)

text \<open>
  While a broadcast that began at \<open>h0\<close> runs: the connections registered then are served or still to
  come, and all of them only grow.
\<close>

definition broadcasting :: "bytes \<Rightarrow> hub \<Rightarrow> hub \<Rightarrow> bool" where
  "broadcasting msg h0 h \<longleftrightarrow> hub_grows h0 h \<and> (\<exists>b. hb_lock h = Some b \<and> bc_msg b = msg \<and>
     (\<forall>i\<in>hb_conns h0. i \<in> set (bc_todo b) \<or>
        (\<exists>c c'. hb_obj h0 i = Some c \<and> hb_obj h i = Some c' \<and> served msg c c')))"

lemma served_later:
  assumes "hub_grows h h'" and "hb_obj h i = Some c'" and "served msg c c'"
  shows "\<exists>c''. hb_obj h' i = Some c'' \<and> served msg c c''"
  using assms served_grows unfolding hub_grows_def by blast

lemma broadcast_lock:
  assumes "hub_step h e (Ok h')" and "hb_lock h = Some b" and "e \<noteq> BroadcastEnd"
  shows "hb_lock h' = Some b \<or> (\<exists>i rest c c'. e = BroadcastTurn i \<and> bc_todo b = i # rest \<and> hb_obj h i = Some c \<and>
    (broadcast_turn (bc_msg b) c = Ok (c', True) \<or> broadcast_turn (bc_msg b) c = Ok (c', False)) \<and> hb_obj h' i = Some c' \<and>
    hb_lock h' = Some (b\<lparr>bc_done := bc_done b @ [i], bc_todo := rest\<rparr>))"
  using assms
  by (cases rule: hub_step_Ok)
    (auto simp: send_step_def broadcast_step_def outcome_simps eq_commute [of "Ok h'"] split: if_splits)

lemma broadcasting_step:
  assumes h: "hub_reach h" and h0: "hb_conns h0 \<subseteq> dom (hb_obj h0)" and b: "broadcasting msg h0 h" and s: "hub_step h e (Ok h')" and e: "e \<noteq> BroadcastEnd"
  shows "broadcasting msg h0 h'"
proof -
  obtain b where l: "hb_lock h = Some b" "bc_msg b = msg"
    and all: "\<And>i. i \<in> hb_conns h0 \<Longrightarrow> i \<in> set (bc_todo b) \<or>
        (\<exists>c c'. hb_obj h0 i = Some c \<and> hb_obj h i = Some c' \<and> served msg c c')"
    using b by (auto simp: broadcasting_def)
  have g: "hub_grows h h'" by (rule hub_step_grows [OF h s])
  have g0: "hub_grows h0 h" "hub_grows h0 h'" using b g hub_grows_trans by (auto simp: broadcasting_def)
  consider (same) "hb_lock h' = Some b"
    | (turn) i rest c c' gone where "bc_todo b = i # rest" "hb_obj h i = Some c" "broadcast_turn (bc_msg b) c = Ok (c', gone)"
        "hb_obj h' i = Some c'" "hb_lock h' = Some (b\<lparr>bc_done := bc_done b @ [i], bc_todo := rest\<rparr>)"
    using broadcast_lock [OF s l(1) e] by blast
  then show ?thesis
  proof cases
    case same
    then show ?thesis using g0 l all served_later [OF g] unfolding broadcasting_def by blast
  next
    case (turn i rest c c' gone)
    have "conn_ok c" using hub_reach_inv [OF h] turn(2) by (simp add: hub_inv_def)
    then have t: "sc_closed c' \<or> sc_accepted c' = sc_accepted c @ [msg]" using broadcast_turn_ok [of c msg] turn(3) l(2) by auto
    have "\<exists>c0. hb_obj h0 i = Some c0 \<and> served msg c0 c'" if "hb_obj h0 i \<noteq> None"
      using that g0(1) turn(2) grows_served [OF _ t] unfolding hub_grows_def by fastforce
    then have "i \<in> set rest \<or> (\<exists>c0 c'. hb_obj h0 i = Some c0 \<and> hb_obj h' i = Some c' \<and> served msg c0 c')"
      if "hb_obj h0 i \<noteq> None" using that turn(4) by blast
    moreover have "j \<in> set rest \<or> (\<exists>c0 c'. hb_obj h0 j = Some c0 \<and> hb_obj h' j = Some c' \<and> served msg c0 c')"
      if "j \<in> hb_conns h0" "j \<noteq> i" for j
      using all [OF that(1)] that(2) turn(1) served_later [OF g] by auto
    ultimately have "\<forall>j\<in>hb_conns h0. j \<in> set rest \<or> (\<exists>c0 c'. hb_obj h0 j = Some c0 \<and> hb_obj h' j = Some c' \<and> served msg c0 c')"
      using h0 by blast
    then show ?thesis using g0(2) turn(5) l(2) unfolding broadcasting_def by simp
  qed
qed

lemma broadcasting_run:
  assumes "hub_run h es h'" and "hub_reach h" and "hb_conns h0 \<subseteq> dom (hb_obj h0)" and "broadcasting msg h0 h"
    and "BroadcastEnd \<notin> set es"
  shows "broadcasting msg h0 h'"
  using assms
proof (induction rule: hub_run.induct)
  case (run_step h e h' es h'')
  then have "broadcasting msg h0 h'" by (intro broadcasting_step [OF run_step.prems(1,2,3) run_step.hyps(1)]) auto
  then show ?case using run_step hub_next by auto
qed simp

text \<open>
  C15: whatever the interleaving of sends, broadcasts, failing sockets and closing connections, no
  goroutine sends on a closed channel or closes one twice: a reachable hub has no panicking step.
\<close>
theorem hub_never_panics:
  assumes "hub_reach h"
  shows "\<not> hub_step h e Panic"
  using hub_step_ok [OF hub_reach_inv [OF assms]] by blast

text \<open>
  C17: in every reachable hub the queue of a connection never holds more than its 64 places, its
  channel is closed exactly when the flag says so, and what went to the websocket is what the queue
  took, in that order, without the messages still queued, unless the writer has given up; even then
  it is an initial part of it.
\<close>
theorem hub_queues:
  assumes "hub_reach h" and "hb_obj h i = Some c"
  shows "length (ch_buf (sc_send c)) \<le> chan_cap \<and> (sc_closed c \<longleftrightarrow> ch_closed (sc_send c)) \<and>
    prefix (sc_written c) (sc_accepted c) \<and> (sc_writer c = WriterGone \<or> sc_accepted c = sc_written c @ ch_buf (sc_send c))"
  using hub_reach_inv [OF assms(1)] assms(2) unfolding hub_inv_def conn_ok_def by blast

text \<open>
  C16: when a broadcast ends, every connection registered at its start has put the message in its
  queue since, or is closed, whatever other steps happened meanwhile and in whatever order the
  connections were visited.
\<close>
theorem broadcast_reaches_all:
  assumes "hub_reach h" and "hub_step h (BroadcastBegin msg) (Ok h1)" and "hub_run h1 es h2"
    and "BroadcastEnd \<notin> set es" and "hub_step h2 BroadcastEnd (Ok h3)" and "i \<in> hb_conns h"
  shows "\<exists>c c3. hb_obj h i = Some c \<and> hb_obj h3 i = Some c3 \<and> served msg c c3"
proof -
  have d: "hb_conns h \<subseteq> dom (hb_obj h)" using hub_reach_inv [OF assms(1)] by (simp add: hub_inv_def)
  have "broadcasting msg h h1"
    using assms(2) by (cases rule: hub_step_Ok) (auto simp: broadcasting_def hub_grows_def)
  then have "broadcasting msg h h2" by (rule broadcasting_run [OF assms(3) hub_next [OF assms(1,2)] d _ assms(4)])
  moreover have "hb_obj h3 = hb_obj h2" "\<And>b. hb_lock h2 = Some b \<Longrightarrow> bc_todo b = []"
    using assms(5) by (cases rule: hub_step_Ok, auto)+
  ultimately show ?thesis using assms(6) by (fastforce simp: broadcasting_def)
qed

text \<open>A hub with one connection, the message of one broadcast in its queue.\<close>

definition demo_conn :: serverConn where
  "demo_conn = new_conn\<lparr>sc_send := \<lparr>ch_buf = [[7]], ch_closed = False\<rparr>, sc_accepted := [[7]]\<rparr>"

lemma demo_connect: "hub_step new_hub (Connect 1) (Ok (register 1 new_hub))"
  by (rule st_connect) (simp_all add: new_hub_def)

lemmas demo_reach = hub_next [OF hub_init demo_connect]

lemma demo_broadcast:
  "hub_step (register 1 new_hub) (BroadcastBegin [7])
     (Ok ((register 1 new_hub)\<lparr>hb_lock := Some \<lparr>bc_msg = [7], bc_done = [], bc_todo = [1]\<rparr>\<rparr>))"
  by (rule st_begin) (simp_all add: new_hub_def register_def)

lemma demo_turn:
  "hub_step ((register 1 new_hub)\<lparr>hb_lock := Some \<lparr>bc_msg = [7], bc_done = [], bc_todo = [1]\<rparr>\<rparr>) (BroadcastTurn 1)
     (Ok ((set_conn 1 demo_conn new_hub)\<lparr>hb_conns := {1}, hb_lock := Some \<lparr>bc_msg = [7], bc_done = [1], bc_todo = []\<rparr>\<rparr>))"
proof -
  let ?h = "(register 1 new_hub)\<lparr>hb_lock := Some \<lparr>bc_msg = [7], bc_done = [], bc_todo = [1]\<rparr>\<rparr>"
  let ?b = "\<lparr>bc_msg = [7], bc_done = [], bc_todo = [1]\<rparr>"
  have "hub_step ?h (BroadcastTurn 1) (broadcast_step 1 ?b new_conn ?h)"
    by (rule st_turn) (simp_all add: new_hub_def register_def)
  then show ?thesis
    by (simp add: broadcast_step_def broadcast_turn_def new_conn_def chan_try_send_def chan_cap_def demo_conn_def new_hub_def
        register_def set_conn_def)
qed

lemma demo_end:
  "hub_step ((set_conn 1 demo_conn new_hub)\<lparr>hb_conns := {1}, hb_lock := Some \<lparr>bc_msg = [7], bc_done = [1], bc_todo = []\<rparr>\<rparr>)
     BroadcastEnd (Ok ((set_conn 1 demo_conn new_hub)\<lparr>hb_conns := {1}, hb_lock := None\<rparr>))"
proof -
  let ?h = "(set_conn 1 demo_conn new_hub)\<lparr>hb_conns := {1}, hb_lock := Some \<lparr>bc_msg = [7], bc_done = [1], bc_todo = []\<rparr>\<rparr>"
  have "hub_step ?h BroadcastEnd (Ok (?h\<lparr>hb_lock := None\<rparr>))" by (rule st_end [where b = "\<lparr>bc_msg = [7], bc_done = [1], bc_todo = []\<rparr>"]) simp_all
  then show ?thesis by simp
qed

theorem hub_never_panics_witness: "\<not> hub_step (register 1 new_hub) (SendMsg 1 [7]) Panic"
  by (rule hub_never_panics [OF demo_reach])

theorem hub_queues_witness: "prefix (sc_written new_conn) (sc_accepted new_conn) \<and> hb_obj (register 1 new_hub) 1 = Some new_conn"
  using hub_queues [OF demo_reach, of 1 new_conn] by (simp add: register_def)

theorem broadcast_reaches_all_witness:
  "\<exists>c c3. hb_obj (register 1 new_hub) 1 = Some c \<and>
     hb_obj ((set_conn 1 demo_conn new_hub)\<lparr>hb_conns := {1}, hb_lock := None\<rparr>) 1 = Some c3 \<and> served [7] c c3"
  by (rule broadcast_reaches_all [OF demo_reach demo_broadcast run_step [OF demo_turn run_none] _ demo_end])
    (simp_all add: register_def)

text \<open>A connection whose \<open>OnConnect\<close> failed stays registered, open, with nobody to read or write it.\<close>

lemma refused_stays_registered:
  assumes "hub_step new_hub (Connect 1) (Ok h)" and "hub_step h (ConnectRefused 1) (Ok h')"
  shows "1 \<in> hb_conns h' \<and> (\<exists>c. hb_obj h' 1 = Some c \<and> sc_reader c = ReaderGone \<and> sc_writer c = NotStarted \<and> \<not> sc_closed c)"
  using assms(2,1) by (elim hub_step_Ok) (auto simp: register_def new_conn_def)

section \<open>The client's connection\<close>

text \<open>
  \<open>Send\<close> of the client: the envelope, or an error, goes to the websocket under the mutex. \<open>Serve\<close>
  starts a goroutine for every envelope it reads: the state is the input still to come, the
  envelopes whose goroutine has not run yet, and what the handlers act on.
\<close>

definition client_Send :: "('v \<Rightarrow> bytes option) \<Rightarrow> (envelope \<Rightarrow> bool) \<Rightarrow> string \<Rightarrow> 'v \<Rightarrow> (string, envelope) outcome" where
  "client_Send marshal write_json msgID v =
     (case marshal v of
        None \<Rightarrow> Err ''marshal''
      | Some msg \<Rightarrow> let e = \<lparr>ev_ID = msgID, ev_Message = msg\<rparr> in if write_json e then Ok e else Err ''write'')"

type_synonym 's serving = "envelope list \<times> envelope list \<times> 's"

inductive serve_step :: "('c, 's) mux \<Rightarrow> 'c \<Rightarrow> 's serving \<Rightarrow> 's serving \<Rightarrow> bool" for m conn where
  serve_read: "serve_step m conn (e # es, gs, s) (es, gs @ [e], s)"
| serve_open: "serve_step m conn (es, gs @ e # hs, s) (es, gs @ hs, openEnvelope m conn e s)"

text \<open>What a client sends to a handler of the type it decodes is what the handler gets.\<close>

lemma open_sent:
  assumes "\<And>v raw. marshal v = Some raw \<Longrightarrow> unmarshal raw = Some v"
    and "NewMux hs msgID = Some (mux_entry unmarshal fn)" and "client_Send marshal write_json msgID v = Ok e"
  shows "openEnvelope (NewMux hs) conn e s = fn conn v s"
  using assms by (auto simp: client_Send_def openEnvelope_def mux_entry_def Let_def split: option.splits if_splits)

lemma serve_reads: "(serve_step m conn)\<^sup>*\<^sup>* (es, gs, s) ([], gs @ es, s)"
proof (induction es arbitrary: gs)
  case (Cons e es)
  have "serve_step m conn (e # es, gs, s) (es, gs @ [e], s)" by (rule serve_read)
  then show ?case using Cons [of "gs @ [e]"] by (simp add: converse_rtranclp_into_rtranclp)
qed simp

lemma serve_opens: "mset hs = mset gs \<Longrightarrow> (serve_step m conn)\<^sup>*\<^sup>* ([], gs, s) ([], [], fold (openEnvelope m conn) hs s)"
proof (induction hs arbitrary: gs s)
  case (Cons e hs)
  then have "e \<in> set gs" by (metis list.set_intros(1) mset_eq_setD)
  then obtain us vs where gs: "gs = us @ e # vs" using split_list by metis
  have "serve_step m conn ([], gs, s) ([], us @ vs, openEnvelope m conn e s)" unfolding gs by (rule serve_open)
  moreover have "mset hs = mset (us @ vs)" using Cons.prems gs by simp
  ultimately show ?case using Cons.IH by (simp add: converse_rtranclp_into_rtranclp)
qed simp

text \<open>The envelopes of one connection may reach their handlers in any order.\<close>

lemma serve_any_order:
  assumes "mset hs = mset es"
  shows "(serve_step m conn)\<^sup>*\<^sup>* (es, [], s) ([], [], fold (openEnvelope m conn) hs s)"
  using serve_reads [of m conn es "[]" s] serve_opens [of hs es m conn s] assms by (simp add: rtranclp_trans)

text \<open>On the hub's side the reader opens each envelope itself, one after the other.\<close>

definition hub_reads :: "('c, 's) mux \<Rightarrow> 'c \<Rightarrow> envelope list \<Rightarrow> 's \<Rightarrow> 's" where
  "hub_reads m conn es s = fold (openEnvelope m conn) es s"

text \<open>
  What a request to the hub answers by itself, if anything, and the steps of the hub it makes:
  whether the upgrade and \<open>OnConnect\<close> succeed are parameters (\<open>None\<close>: no \<open>OnConnect\<close>).
\<close>

definition hub_ServeHTTP :: "conn_id \<Rightarrow> string \<Rightarrow> bool \<Rightarrow> bool option \<Rightarrow> (nat \<times> string) option \<times> hub_event list" where
  "hub_ServeHTTP i method upgraded onConnect =
     (if method \<noteq> ''GET'' then (Some (405, ''Method not allowed''), [])
      else if \<not> upgraded then (None, [])
      else if onConnect = Some False then (Some (500, ''connection error''), [Connect i, ConnectRefused i])
      else (None, [Connect i, ConnectAccepted i]))"

text \<open>The steps of a request are possible for a connection of its own while no broadcast runs.\<close>

lemma serve_steps:
  assumes "hb_lock h = None" and "hb_obj h i = None"
  shows "\<exists>h'. hub_run h (snd (hub_ServeHTTP i method upgraded onConnect)) h'"
proof -
  let ?h = "register i h"
  have c: "hub_step h (Connect i) (Ok ?h)" by (rule st_connect) (use assms in simp_all)
  have o: "hb_obj ?h i = Some new_conn" "sc_reader new_conn = InOnConnect" by (simp_all add: register_def new_conn_def)
  show ?thesis
    using run_step [OF c run_step [OF st_refused [OF o] run_none]] run_step [OF c run_step [OF st_accepted [OF o] run_none]] run_none [of h]
    by (auto simp: hub_ServeHTTP_def)
qed

end
