(* ===== verification/ClientConnect.thy ===== *)
theory ClientConnect
  imports ClientAddFriend ClientDialing PkgHttp Transport TypeSocket
begin

text \<open>
  How a client reaches its servers (src/client.go, the muxes of src/addfriend.go and src/dialing.go,
  \<open>Dial\<close> of src/typesocket/client.go): registration and status at the key generators, and the websocket
  connections to the coordinators, whose address and key come from the current configuration.
\<close>

section \<open>The key generators\<close>

text \<open>\<open>send s\<close> posts to server \<open>s\<close>, with its key pinned; \<open>messages\<close> are the random bytes signed for each.\<close>

definition Client_Register ::
  "('mpk, 'bpk) pkg_json \<Rightarrow> (keyAddr \<Rightarrow> 'w sender) \<Rightarrow> keyAddr \<Rightarrow> string \<Rightarrow> ('mpk, 'bpk) client \<Rightarrow> 'w \<Rightarrow> 'w \<times> (do_error, unit) outcome" where
  "Client_Register J send server token c w =
     (case do_Register J (send server) (pkg_client_of c) token w of
        (w', r) \<Rightarrow> (w', bind_outcome r (\<lambda>_. Ok ())))"

fun status_all ::
  "('mpk, 'msk, 'bpk, 'bsk) pkg_env \<Rightarrow> ('mpk, 'bpk) pkg_json \<Rightarrow> (keyAddr \<Rightarrow> 'w sender) \<Rightarrow> pkg_client \<Rightarrow> (keyAddr \<times> bytes) list \<Rightarrow> 'w \<Rightarrow>
   'w \<times> (keyAddr \<times> (do_error, unit) outcome) list" where
  "status_all E J send pc [] w = (w, [])"
| "status_all E J send pc ((server, message) # rest) w =
     (let (w1, r) = do_CheckStatus E J (send server) pc (ka_Key server) message w;
          (w2, rs) = status_all E J send pc rest w1
      in (w2, (server, r) # rs))"

text \<open>Without a configuration the code reads a field of nil.\<close>

definition PKGStatus ::
  "('mpk, 'msk, 'bpk, 'bsk) pkg_env \<Rightarrow> ('mpk, 'bpk) pkg_json \<Rightarrow> (keyAddr \<Rightarrow> 'w sender) \<Rightarrow> bytes list \<Rightarrow> ('mpk, 'bpk) client \<Rightarrow> 'w \<Rightarrow>
   (unit, 'w \<times> (keyAddr \<times> (do_error, unit) outcome) list) outcome" where
  "PKGStatus E J send messages c w =
     (case Option.bind (c_addFriendConfig c) as_AddFriendConfig of
        None \<Rightarrow> Panic
      | Some inner \<Rightarrow> Ok (status_all E J send (pkg_client_of c) (zip (af_PKGServers inner) messages) w))"

lemma status_without_config: "c_addFriendConfig c = None \<Longrightarrow> PKGStatus E J send messages c w = Panic"
  by (simp add: PKGStatus_def)

section \<open>The coordinators\<close>

text \<open>\<open>typesocket.Dial\<close>: who is at an address, and whether the websocket is set up there.\<close>

record 'sk socket_env =
  so_x509 :: "'sk x509"
  so_dial :: "string \<Rightarrow> tls_peer option"
  so_upgrade :: "tls_peer \<Rightarrow> bool"

definition typesocket_Dial :: "'sk socket_env \<Rightarrow> string \<Rightarrow> bytes \<Rightarrow> (edtls_error, tls_peer) outcome" where
  "typesocket_Dial S addr peerKey =
     (case so_dial S addr of
        None \<Rightarrow> Err Unreachable
      | Some p \<Rightarrow> bind_outcome (client_handshake (so_x509 S) peerKey p) (\<lambda>_. if so_upgrade S p then Ok p else Err Unreachable))"

record connections =
  cn_addFriend :: "tls_peer option"
  cn_dialing :: "tls_peer option"

datatype connect_error = NoConfigClient | NoConfig | FetchingCurrent client_error | DialFailed edtls_error

text \<open>\<open>resp\<close> is the config server's answer to the request for the current configuration.\<close>

definition connect_with ::
  "('vk, 'gk) cfg_env \<Rightarrow> 'sk socket_env \<Rightarrow> int \<Rightarrow> SignedConfig option http_result \<Rightarrow> string \<Rightarrow> (SignedConfig \<Rightarrow> keyAddr option) \<Rightarrow> string \<Rightarrow>
   bool \<Rightarrow> SignedConfig option \<Rightarrow> (connect_error, tls_peer) outcome" where
  "connect_with E S now resp service coordinator path has_client stored =
     (if \<not> has_client then Err NoConfigClient
      else if stored = None then Err NoConfig
      else (case client_CurrentConfig E now resp service of
              Err e \<Rightarrow> Err (FetchingCurrent e) | Panic \<Rightarrow> Panic
            | Ok config \<Rightarrow>
                (case coordinator config of
                   None \<Rightarrow> Panic
                 | Some co \<Rightarrow>
                     (case typesocket_Dial S (''wss://'' @ ka_Address co @ path) (ka_Key co) of
                        Err e \<Rightarrow> Err (DialFailed e) | Panic \<Rightarrow> Panic | Ok p \<Rightarrow> Ok p))))"

definition ConnectAddFriend ::
  "('vk, 'gk) cfg_env \<Rightarrow> 'sk socket_env \<Rightarrow> int \<Rightarrow> SignedConfig option http_result \<Rightarrow> bool \<Rightarrow> ('mpk, 'bpk) client \<Rightarrow> connections \<Rightarrow>
   (connect_error, connections) outcome" where
  "ConnectAddFriend E S now resp has_client c conns =
     bind_outcome (connect_with E S now resp ''AddFriend'' (\<lambda>conf. map_option af_Coordinator (as_AddFriendConfig conf)) ''/addfriend/ws''
         has_client (c_addFriendConfig c))
       (\<lambda>p. Ok (conns\<lparr>cn_addFriend := Some p\<rparr>))"

definition ConnectDialing ::
  "('vk, 'gk) cfg_env \<Rightarrow> 'sk socket_env \<Rightarrow> int \<Rightarrow> SignedConfig option http_result \<Rightarrow> bool \<Rightarrow> ('mpk, 'bpk) client \<Rightarrow> connections \<Rightarrow>
   (connect_error, connections) outcome" where
  "ConnectDialing E S now resp has_client c conns =
     bind_outcome (connect_with E S now resp ''Dialing'' (\<lambda>conf. map_option dc_Coordinator (as_DialingConfig conf)) ''/dialing/ws''
         has_client (c_dialingConfig c))
       (\<lambda>p. Ok (conns\<lparr>cn_dialing := Some p\<rparr>))"

text \<open>Closing hands the connection, if there is one, to its \<open>Close\<close>; the field keeps it.\<close>

definition CloseAddFriend :: "(tls_peer \<Rightarrow> 'r) \<Rightarrow> connections \<Rightarrow> 'r option" where
  "CloseAddFriend close conns = map_option close (cn_addFriend conns)"

definition CloseDialing :: "(tls_peer \<Rightarrow> 'r) \<Rightarrow> connections \<Rightarrow> 'r option" where
  "CloseDialing close conns = map_option close (cn_dialing conns)"

section \<open>The messages of a coordinator\<close>

text \<open>The handlers, each with the decoding of its argument; errors of a round are only logged.\<close>

definition addFriendMux ::
  "('c, 's) muxEntry \<Rightarrow> ('c, 's) muxEntry \<Rightarrow> ('c, 's) muxEntry \<Rightarrow> ('c, 's) muxEntry \<Rightarrow> (bytes \<Rightarrow> 'e option) \<Rightarrow> ('c, 's) mux" where
  "addFriendMux newround pkg mix mailbox dec_error =
     NewMux [(''newround'', newround), (''pkg'', pkg), (''mix'', mix), (''mailbox'', mailbox),
       (''error'', mux_entry dec_error (\<lambda>_ _ s. s))]"

definition dialingMux ::
  "('c, 's) muxEntry \<Rightarrow> ('c, 's) muxEntry \<Rightarrow> ('c, 's) muxEntry \<Rightarrow> (bytes \<Rightarrow> 'e option) \<Rightarrow> ('c, 's) mux" where
  "dialingMux newround mix mailbox dec_error =
     NewMux [(''newround'', newround), (''mix'', mix), (''mailbox'', mailbox), (''error'', mux_entry dec_error (\<lambda>_ _ s. s))]"

text \<open>Any other message, and one whose argument does not decode, is dropped.\<close>

lemma mux_drops:
  "ev_ID e \<notin> {''newround'', ''pkg'', ''mix'', ''mailbox''} \<Longrightarrow> openEnvelope (addFriendMux n p m b d) conn e s = s"
  "ev_ID e \<notin> {''newround'', ''mix'', ''mailbox''} \<Longrightarrow> openEnvelope (dialingMux n m b d) conn e s = s"
  by (auto simp: openEnvelope_def addFriendMux_def dialingMux_def NewMux_def mux_entry_def split: option.splits if_splits)

section \<open>Who is at the other end\<close>

text \<open>
  The other end of a connection made with the answer \<open>resp\<close> of the config server: it proved the key
  of the coordinator in a configuration of the service that has not expired and bears the signatures
  of its guardians, and was dialled at the coordinator's address.
\<close>

definition vouched ::
  "('vk, 'gk) cfg_env \<Rightarrow> 'sk socket_env \<Rightarrow> int \<Rightarrow> SignedConfig option http_result \<Rightarrow> string \<Rightarrow> (SignedConfig \<Rightarrow> keyAddr option) \<Rightarrow> string \<Rightarrow>
   tls_peer \<Rightarrow> bool" where
  "vouched E S now resp service coordinator path p \<longleftrightarrow> (\<exists>config co. resp = Decoded (Some config) \<and> sc_Service config = service \<and>
     now \<le> sc_Expires config \<and> config_Verify E config = Ok () \<and> coordinator config = Some co \<and>
     so_dial S (''wss://'' @ ka_Address co @ path) = Some p \<and> pr_proves p = ka_Key co)"

lemma CurrentConfig_Ok:
  "client_CurrentConfig E now resp service = Ok config \<longleftrightarrow> resp = Decoded (Some config) \<and> config_Validate config = Ok () \<and>
     sc_Service config = service \<and> now \<le> sc_Expires config \<and> config_Verify E config = Ok ()"
  by (auto simp: client_CurrentConfig_def split: http_result.splits option.splits outcome.splits if_splits)

lemma Dial_Ok: "typesocket_Dial S addr key = Ok p \<Longrightarrow> so_dial S addr = Some p \<and> pr_proves p = key"
  by (auto simp: typesocket_Dial_def outcome_simps client_handshake_Ok split: option.splits if_splits)

lemma connect_with_Ok:
  assumes "connect_with E S now resp service coordinator path has_client stored = Ok p"
  shows "vouched E S now resp service coordinator path p"
proof -
  obtain config where c: "client_CurrentConfig E now resp service = Ok config"
    using assms by (auto simp: connect_with_def split: if_splits outcome.splits)
  then obtain co where "coordinator config = Some co" "typesocket_Dial S (''wss://'' @ ka_Address co @ path) (ka_Key co) = Ok p"
    using assms by (auto simp: connect_with_def split: if_splits option.splits outcome.splits)
  then show ?thesis using c Dial_Ok unfolding CurrentConfig_Ok vouched_def by blast
qed

text \<open>
  A client that connected to a coordinator is connected to an end that proved the coordinator's
  key in a configuration of that service that is in force and signed by its guardians, at the address
  it gives; the connection of the other service is as it was.
\<close>
lemma connect_authenticates:
  "(ConnectAddFriend E S now resp has_client c conns = Ok conns' \<longrightarrow> cn_dialing conns' = cn_dialing conns \<and>
     (\<exists>p. cn_addFriend conns' = Some p \<and> vouched E S now resp ''AddFriend''
        (\<lambda>conf. map_option af_Coordinator (as_AddFriendConfig conf)) ''/addfriend/ws'' p)) \<and>
   (ConnectDialing E S now resp has_client c conns = Ok conns' \<longrightarrow> cn_addFriend conns' = cn_addFriend conns \<and>
     (\<exists>p. cn_dialing conns' = Some p \<and> vouched E S now resp ''Dialing''
        (\<lambda>conf. map_option dc_Coordinator (as_DialingConfig conf)) ''/dialing/ws'' p))"
  using connect_with_Ok by (auto simp: ConnectAddFriend_def ConnectDialing_def outcome_simps)

text \<open>
  What the client knows of earlier configurations does not matter: any configuration that its own
  guardians signed will do.
\<close>

lemma connect_ignores_stored:
  assumes "c_dialingConfig c \<noteq> None" and "c_dialingConfig c' \<noteq> None"
  shows "ConnectDialing E S now resp has_client c conns = ConnectDialing E S now resp has_client c' conns"
  using assms by (auto simp: ConnectDialing_def connect_with_def)

definition demo_socket :: "byte socket_env" where
  "demo_socket = \<lparr>so_x509 = demo_x509\<lparr>xf_Parse := (\<lambda>raw. Some \<lparr>ct_PublicKey = Some raw, ct_selfSigned = True, ct_NotAfter = 0\<rparr>)\<rparr>,
     so_dial = (\<lambda>addr. Some \<lparr>pr_certs = [replicate 32 1], pr_proves = replicate 32 1\<rparr>), so_upgrade = (\<lambda>_. True)\<rparr>"

lemma demo_current: "client_CurrentConfig srv_env 50 (Decoded (Some cfg_next)) ''Dialing'' = Ok cfg_next"
proof -
  let ?k = "bytes_str (replicate 32 7)" and ?m = "str_bytes ''SignedConfig'' @ [2]"
  have "sc_Signatures cfg_next ?k = Some (demo_sig 1 ?m)" by (simp add: cfg_next_def demo_config_def)
  then have "verifyHybridGuardianSig srv_env cfg_next (demo_guardian 1) ?m ?k = Ok ()"
    unfolding srv_env_def by (subst demo_guardian_sig) auto
  moreover have "ce_base32 srv_env (g_Key (demo_guardian 1)) = ?k" by (simp add: srv_env_def demo_env_def demo_guardian_def)
  ultimately have "verify_guardians srv_env cfg_next ?m [demo_guardian 1] = Ok ()" by simp
  moreover have "SigningMessage srv_env cfg_next = Ok ?m" "sc_Guardians cfg_next = [demo_guardian 1]"
    by (simp_all add: SigningMessage_def srv_env_def demo_env_def cfg_next_def demo_config_def)
  ultimately have "config_Verify srv_env cfg_next = Ok ()" by (simp add: config_Verify_def)
  then show ?thesis unfolding CurrentConfig_Ok using demo_valid by (simp add: cfg_next_def) (simp add: demo_config_def)
qed

lemma connect_example:
  "\<exists>p. vouched srv_env demo_socket 50 (Decoded (Some cfg_next)) ''Dialing''
     (\<lambda>conf. map_option dc_Coordinator (as_DialingConfig conf)) ''/dialing/ws'' p"
proof -
  let ?c = "(new_client None None)\<lparr>c_dialingConfig := Some cfg_root\<rparr> :: (unit, unit) client"
  let ?p = "\<lparr>pr_certs = [replicate 32 1], pr_proves = replicate 32 1\<rparr> :: tls_peer"
  obtain z where d: "as_DialingConfig cfg_next = Some z" "dc_Coordinator z = \<lparr>ka_Key = replicate 32 1, ka_Address = ''c''\<rparr>"
    by (simp add: as_DialingConfig_def cfg_next_def demo_config_def demo_inner_def)
  have "typesocket_Dial demo_socket addr (replicate 32 1) = Ok ?p" for addr
    by (simp add: typesocket_Dial_def demo_socket_def client_handshake_def client_VerifyPeerCertificate_def leaf_key_def)
  then have "ConnectDialing srv_env demo_socket 50 (Decoded (Some cfg_next)) True ?c \<lparr>cn_addFriend = None, cn_dialing = None\<rparr> =
      Ok \<lparr>cn_addFriend = None, cn_dialing = Some ?p\<rparr>"
    using demo_current d by (simp add: ConnectDialing_def connect_with_def)
  from connect_authenticates [THEN conjunct2, THEN mp, OF this] show ?thesis by auto
qed

section \<open>The coordinator's HTTP server\<close>

definition coordinator_ServeHTTP ::
  "conn_id \<Rightarrow> http_request \<Rightarrow> bool \<Rightarrow> bool option \<Rightarrow> (nat \<times> string) option \<times> hub_event list" where
  "coordinator_ServeHTTP i r upgraded connected =
     (if has_prefix (url_path r) ''/ws'' then hub_ServeHTTP i (http_method r) upgraded connected
      else (Some (StatusNotFound, ''not found''), []))"

end
