(* ===== verification/MixConns.thy ===== *)
theory MixConns
  imports Transport
begin

text \<open>
  The connections of the mixnet's client (src/mixnet/mixnet.go, \<open>getConn\<close> and \<open>getConns\<close>): a pool
  per server key, which grows to the largest number asked for. gRPC connects lazily; a connection is
  known by the address and the key it was made for, and the handshake is done with that key.
\<close>

section \<open>The pool\<close>

record mix_conn =
  mc_address :: string
  mc_key :: bytes

type_synonym conn_pool = "bytes \<rightharpoonup> mix_conn list"

text \<open>The loop of new connections: \<open>dials\<close> says of each whether \<open>grpc.Dial\<close> succeeds.\<close>

fun grow_pool :: "bytes \<Rightarrow> mix_conn \<Rightarrow> bool list \<Rightarrow> mix_conn list \<Rightarrow> conn_pool \<Rightarrow> (unit, mix_conn list) outcome \<times> conn_pool" where
  "grow_pool k cc [] ccs pool = (Ok ccs, pool)"
| "grow_pool k cc (ok # dials) ccs pool =
     (if \<not> ok then (Err (), pool) else grow_pool k cc dials (ccs @ [cc]) (pool(k \<mapsto> ccs @ [cc])))"

definition getConns :: "nat \<Rightarrow> mix_conn \<Rightarrow> (nat \<Rightarrow> bool) \<Rightarrow> conn_pool \<Rightarrow> (unit, mix_conn list) outcome \<times> conn_pool" where
  "getConns count server dials pool =
     (let k = fixed 32 (mc_key server);
          ccs = (case pool k of None \<Rightarrow> [] | Some cs \<Rightarrow> cs);
          (r, pool') = (if length ccs < count then grow_pool k server (map dials [0..<count - length ccs]) ccs pool else (Ok ccs, pool))
      in (bind_outcome r (\<lambda>cs. Ok (take count cs)), pool'))"

definition getConn :: "mix_conn \<Rightarrow> (nat \<Rightarrow> bool) \<Rightarrow> conn_pool \<Rightarrow> (unit, mix_conn) outcome \<times> conn_pool" where
  "getConn server dials pool =
     (case getConns 1 server dials pool of (r, pool') \<Rightarrow> (bind_outcome r (\<lambda>cs. Ok (cs ! 0)), pool'))"

section \<open>What it holds\<close>

text \<open>Every pooled connection is pinned to the key it is filed under.\<close>

definition pool_ok :: "conn_pool \<Rightarrow> bool" where
  "pool_ok pool \<longleftrightarrow> (\<forall>k cs. pool k = Some cs \<longrightarrow> (\<forall>cc\<in>set cs. fixed 32 (mc_key cc) = k))"

lemma grow_pool_ok:
  assumes "pool_ok pool" and "\<forall>c\<in>set (cc # ccs). fixed 32 (mc_key c) = k" and "grow_pool k cc dials ccs pool = (r, pool')"
  shows "pool_ok pool' \<and> (\<forall>cs. r = Ok cs \<longrightarrow> cs = ccs @ replicate (length dials) cc) \<and> r \<noteq> Panic"
  using assms
proof (induction dials arbitrary: ccs pool)
  case (Cons ok dials)
  show ?case
  proof (cases ok)
    case True
    have p: "pool_ok (pool(k \<mapsto> ccs @ [cc]))" using Cons.prems(1,2) by (auto simp: pool_ok_def)
    have "grow_pool k cc dials (ccs @ [cc]) (pool(k \<mapsto> ccs @ [cc])) = (r, pool')" using Cons.prems(3) True by simp
    from Cons.IH [OF p _ this] show ?thesis using Cons.prems(2) by auto
  qed (use Cons.prems in auto)
qed auto

lemma getConns_ok:
  assumes "pool_ok pool" and "getConns count server dials pool = (r, pool')"
  shows "pool_ok pool' \<and> (\<forall>cs. r = Ok cs \<longrightarrow> length cs = count \<and> (\<forall>cc\<in>set cs. fixed 32 (mc_key cc) = fixed 32 (mc_key server)))"
proof -
  let ?k = "fixed 32 (mc_key server)"
  obtain ccs where c: "ccs = (case pool ?k of None \<Rightarrow> [] | Some cs \<Rightarrow> cs)" by simp
  have k: "\<forall>cc\<in>set (server # ccs). fixed 32 (mc_key cc) = ?k" using assms(1) c by (auto simp: pool_ok_def split: option.splits)
  obtain r' p where g: "(if length ccs < count then grow_pool ?k server (map dials [0..<count - length ccs]) ccs pool
      else (Ok ccs, pool)) = (r', p)" by fastforce
  then have r: "r = bind_outcome r' (\<lambda>cs. Ok (take count cs))" "pool' = p"
    using assms(2) unfolding getConns_def Let_def c [symmetric] g by simp_all
  have "pool_ok p \<and> (\<forall>cs. r' = Ok cs \<longrightarrow> count \<le> length cs \<and> (\<forall>cc\<in>set cs. fixed 32 (mc_key cc) = ?k))"
  proof (cases "length ccs < count")
    case True
    then have "grow_pool ?k server (map dials [0..<count - length ccs]) ccs pool = (r', p)" using g by simp
    from grow_pool_ok [OF assms(1) k this] show ?thesis using True k by auto
  qed (use g assms(1) k in auto)
  then show ?thesis unfolding r by (cases r') (auto dest: in_set_takeD)
qed

text \<open>A pool is filed by the key alone: a server that moved is still reached at its old address.\<close>

lemma moved_server_keeps_address:
  assumes "getConn \<lparr>mc_address = a, mc_key = k\<rparr> (\<lambda>_. True) Map.empty = (Ok cc, pool)"
  shows "getConn \<lparr>mc_address = b, mc_key = k\<rparr> (\<lambda>_. True) pool = (Ok \<lparr>mc_address = a, mc_key = k\<rparr>, pool)"
  using assms by (auto simp: getConn_def getConns_def Let_def)

end
