(* ===== verification/Guardian.thy ===== *)
theory Guardian
  imports ConfigServer Identity
begin

text \<open>
  The tools of the guardians who sign configurations (src/cmd/guardian: guardian.go, keygen,
  new-config, sign-config, upload-config): a key that is kept under a passphrase, the next
  configuration of a service, and a guardian's signature on it. A configuration goes from tool to
  tool as its JSON, which ConfigCodec reads back; scrypt, secretbox, base32 and the terminal are
  parameters, and printing is left out. A fatal error ends a tool with its value.
\<close>

section \<open>The key file\<close>

record guardian_box =
  gb_scrypt :: "bytes \<Rightarrow> bytes"
  gb_seal :: "bytes \<Rightarrow> bytes \<Rightarrow> bytes \<Rightarrow> bytes"
  gb_open :: "bytes \<Rightarrow> bytes \<Rightarrow> bytes \<Rightarrow> bytes option"
  gb_base32 :: "bytes \<Rightarrow> bytes"
  gb_unbase32 :: "bytes \<Rightarrow> bytes option"

definition DeriveKey :: "guardian_box \<Rightarrow> bytes \<Rightarrow> bytes" where
  "DeriveKey G passphrase = fixed 32 (gb_scrypt G passphrase)"

definition nonceOverhead :: nat where "nonceOverhead = 24"

datatype tool_error =
  Refused string | Terminal | CannotRead | CannotWrite | BadBase32 | KeyLength nat | HybridIdentity id_error
| BadConfig cfg_error | PqSign pq_error | Upload handler_error | UploadCutOff

text \<open>ASCII white space, which \<open>strings.TrimSpace\<close> takes off both ends.\<close>

definition is_space :: "byte \<Rightarrow> bool" where
  "is_space b \<longleftrightarrow> b \<in> {9, 10, 11, 12, 13, 32}"

definition TrimSpace :: "bytes \<Rightarrow> bytes" where
  "TrimSpace s = rev (dropWhile is_space (rev (dropWhile is_space s)))"

text \<open>
  What is typed at the terminal is a list, \<open>None\<close> an error of reading it; a tool that would wait for
  more gives \<open>None\<close>.
\<close>

fun passphrase_loop :: "guardian_box \<Rightarrow> bytes \<Rightarrow> bytes \<Rightarrow> bytes option list \<Rightarrow> (tool_error, bytes) outcome option" where
  "passphrase_loop G nonce ctxt [] = None"
| "passphrase_loop G nonce ctxt (None # typed) = Some (Err Terminal)"
| "passphrase_loop G nonce ctxt (Some pw # typed) =
     (case gb_open G nonce (DeriveKey G pw) ctxt of
        Some msg \<Rightarrow> Some (Ok msg) | None \<Rightarrow> passphrase_loop G nonce ctxt typed)"

definition ReadPrivateKey :: "guardian_box \<Rightarrow> fs \<Rightarrow> string \<Rightarrow> bytes option list \<Rightarrow> (tool_error, bytes) outcome option" where
  "ReadPrivateKey G files path typed =
     (case files path of
        None \<Rightarrow> Some (Err CannotRead)
      | Some f \<Rightarrow>
          (case gb_unbase32 G (TrimSpace (f_data f)) of
             None \<Rightarrow> Some (Err BadBase32)
           | Some bs \<Rightarrow>
               if length bs \<noteq> nonceOverhead + 64 + 16 then Some (Err (KeyLength (length bs)))
               else passphrase_loop G (take 24 bs) (drop 24 bs) typed))"

fun confirmPassphrase :: "bytes option list \<Rightarrow> (tool_error, bytes) outcome option" where
  "confirmPassphrase [] = None"
| "confirmPassphrase (None # typed) = Some (Err Terminal)"
| "confirmPassphrase (Some [] # typed) = confirmPassphrase typed"
| "confirmPassphrase [Some (b # pw)] = None"
| "confirmPassphrase (Some (b # pw) # None # typed) = Some (Err Terminal)"
| "confirmPassphrase (Some (b # pw) # Some again # typed) =
     (if b # pw = again then Some (Ok (b # pw)) else confirmPassphrase typed)"

text \<open>
  \<open>keygen\<close> is the fresh key pair; \<open>io\<close> tells how each of the files is written. The parts of main: no file
  is overwritten, the public key is written before the private one, and then the hybrid identity, if
  asked for.
\<close>

definition checkOverwrite :: "fs \<Rightarrow> string \<Rightarrow> (tool_error, unit) outcome" where
  "checkOverwrite files path = (if files path = None then Ok () else Err (Refused path))"

definition key_file :: "bytes \<Rightarrow> osfile" where
  "key_file data = \<lparr>f_mode = 384, f_data = data @ [10]\<rparr>"

text \<open>\<open>ioutil.WriteFile\<close> of a file that is not there.\<close>

definition write_key :: "write_io \<Rightarrow> string \<Rightarrow> bytes \<Rightarrow> fs \<Rightarrow> fs \<times> (tool_error, unit) outcome" where
  "write_key io path data files =
     (case io of
        WriteOK \<Rightarrow> (files(path \<mapsto> key_file data), Ok ())
      | CreateErr \<Rightarrow> (files, Err CannotWrite)
      | WriteErr part \<Rightarrow> (files(path \<mapsto> \<lparr>f_mode = 384, f_data = part\<rparr>), Err CannotWrite)
      | CloseErr \<Rightarrow> (files(path \<mapsto> key_file data), Err CannotWrite))"

definition sealed_key :: "guardian_box \<Rightarrow> bytes \<Rightarrow> bytes \<Rightarrow> bytes \<Rightarrow> bytes" where
  "sealed_key G pw nonce privateKey = nonce @ gb_seal G nonce (DeriveKey G pw) privateKey"

text \<open>The hybrid file; a failure leaves the two key files.\<close>

definition write_hybrid ::
  "edpub \<Rightarrow> hkdf \<Rightarrow> ('vk, 'gk) mldsa \<Rightarrow> ('pk, 'sk) mlkem \<Rightarrow> codec_if \<Rightarrow> write_io \<Rightarrow> int \<Rightarrow> string \<Rightarrow> bytes \<Rightarrow> fs \<Rightarrow> fs \<times> (tool_error, unit) outcome" where
  "write_hybrid edpub hk D K J io now out privateKey files =
     (if out = '''' then (files, Ok ())
      else (case HybridIdentityFromEd25519Seed edpub hk D K now (ed_Seed privateKey) of
              Err e \<Rightarrow> (files, Err (HybridIdentity e)) | Panic \<Rightarrow> (files, Panic)
            | Ok idn \<Rightarrow>
                (case WriteIdentityFile hk J io files out (Some idn) of
                   (files', Ok _) \<Rightarrow> (files', Ok ()) | (files', Err e) \<Rightarrow> (files', Err (HybridIdentity e))
                 | (files', Panic) \<Rightarrow> (files', Panic))))"

definition guardian_keygen ::
  "guardian_box \<Rightarrow> edpub \<Rightarrow> hkdf \<Rightarrow> ('vk, 'gk) mldsa \<Rightarrow> ('pk, 'sk) mlkem \<Rightarrow> codec_if \<Rightarrow> write_io \<times> write_io \<times> write_io \<Rightarrow> int \<Rightarrow>
   string \<times> string \<times> string \<Rightarrow> bytes option list \<Rightarrow> bytes \<times> bytes \<Rightarrow> bytes \<Rightarrow> fs \<Rightarrow> (fs \<times> (tool_error, unit) outcome) option" where
  "guardian_keygen G edpub hk D K J ios now paths typed keygen nonce files =
     (let (privatePath, publicPath, out) = paths; (io_pub, io_priv, io_out) = ios; (publicKey, privateKey) = keygen in
      case bind_outcome (checkOverwrite files privatePath) (\<lambda>_. bind_outcome (checkOverwrite files publicPath) (\<lambda>_.
             if out = '''' then Ok () else checkOverwrite files out)) of
        Err e \<Rightarrow> Some (files, Err e) | Panic \<Rightarrow> Some (files, Panic)
      | Ok _ \<Rightarrow>
          (case confirmPassphrase typed of
             None \<Rightarrow> None
           | Some (Err e) \<Rightarrow> Some (files, Err e) | Some Panic \<Rightarrow> Some (files, Panic)
           | Some (Ok pw) \<Rightarrow>
               (case write_key io_pub publicPath (gb_base32 G publicKey) files of
                  (files1, Ok _) \<Rightarrow>
                    (case write_key io_priv privatePath (gb_base32 G (sealed_key G pw nonce privateKey)) files1 of
                       (files2, Ok _) \<Rightarrow> Some (write_hybrid edpub hk D K J io_out now out privateKey files2)
                     | (files2, Err e) \<Rightarrow> Some (files2, Err e) | (files2, Panic) \<Rightarrow> Some (files2, Panic))
                | (files1, Err e) \<Rightarrow> Some (files1, Err e) | (files1, Panic) \<Rightarrow> Some (files1, Panic))))"

section \<open>The passphrase\<close>

text \<open>Documented behaviour of secretbox and base32, for the lengths the tools check.\<close>

definition box_law :: "guardian_box \<Rightarrow> bool" where
  "box_law G \<longleftrightarrow> (\<forall>n k m. gb_open G n k (gb_seal G n k m) = Some m \<and> length (gb_seal G n k m) = length m + 16) \<and>
     (\<forall>b. gb_unbase32 G (gb_base32 G b) = Some b \<and> (\<forall>c\<in>set (gb_base32 G b). \<not> is_space c))"

lemma dropWhile_none: "\<forall>x\<in>set xs. \<not> P x \<Longrightarrow> dropWhile P xs = xs"
  by (cases xs) auto

lemma TrimSpace_line: "\<forall>c\<in>set s. \<not> is_space c \<Longrightarrow> TrimSpace (s @ [10]) = s"
proof (cases s)
  case (Cons a b)
  assume "\<forall>c\<in>set s. \<not> is_space c"
  then show ?thesis using Cons dropWhile_none [of "rev s" is_space] by (simp add: TrimSpace_def is_space_def)
qed (simp add: TrimSpace_def is_space_def)

lemma passphrase_loop_finds:
  assumes "\<forall>w\<in>set wrong. gb_open G nonce (DeriveKey G w) ctxt = None" and "gb_open G nonce (DeriveKey G pw) ctxt = Some m"
  shows "passphrase_loop G nonce ctxt (map Some wrong @ Some pw # typed) = Some (Ok m)"
  using assms by (induction wrong) auto

lemma confirmed: "confirmPassphrase typed = Some (Ok pw) \<Longrightarrow> pw \<noteq> []"
  by (induction typed rule: confirmPassphrase.induct) (auto split: if_splits)

lemma WriteIdentityFile_keeps: "WriteIdentityFile hk J io files path idp = (files', r) \<Longrightarrow> files p \<noteq> None \<Longrightarrow> files' p = files p"
  by (auto simp: WriteIdentityFile_def Let_def split: option.splits outcome.splits write_io.splits if_splits)

lemma write_hybrid_keeps:
  assumes "write_hybrid edpub hk D K J io now out privateKey files = (files', r)" and "files p \<noteq> None"
  shows "files' p = files p"
  using assms WriteIdentityFile_keeps
  by (fastforce simp: write_hybrid_def split: if_splits outcome.splits prod.splits)

text \<open>What a run of the tool that succeeds has done.\<close>

lemma keygen_Ok:
  assumes "guardian_keygen G edpub hk D K J ios now (privatePath, publicPath, out) typed (publicKey, privateKey) nonce files = Some (files', Ok ())"
  shows "\<exists>pw io files2. confirmPassphrase typed = Some (Ok pw) \<and> files privatePath = None \<and> files publicPath = None \<and>
    files2 = files(publicPath \<mapsto> key_file (gb_base32 G publicKey), privatePath \<mapsto> key_file (gb_base32 G (sealed_key G pw nonce privateKey))) \<and>
    write_hybrid edpub hk D K J io now out privateKey files2 = (files', Ok ())"
  using assms
  by (auto simp: guardian_keygen_def Let_def checkOverwrite_def write_key_def
      split: prod.splits outcome.splits option.splits write_io.splits if_splits)

text \<open>
  C28: the key that the key generator kept under a passphrase is the key the other tools read back
  with that passphrase, after any number of wrong ones; the passphrase is not empty, and no file that
  was there before has changed.
\<close>
theorem guardian_key_kept:
  assumes "box_law G" and "length nonce = 24" and "length privateKey = 64"
    and "guardian_keygen G edpub hk D K J ios now (privatePath, publicPath, out) typed (publicKey, privateKey) nonce files = Some (files', Ok ())"
  shows "\<exists>pw. confirmPassphrase typed = Some (Ok pw) \<and> pw \<noteq> [] \<and> (\<forall>p. files p \<noteq> None \<longrightarrow> files' p = files p) \<and>
    (\<forall>wrong typed'. (\<forall>w\<in>set wrong. gb_open G nonce (DeriveKey G w) (gb_seal G nonce (DeriveKey G pw) privateKey) = None) \<longrightarrow>
       ReadPrivateKey G files' privatePath (map Some wrong @ Some pw # typed') = Some (Ok privateKey))"
proof -
  obtain pw io files2 where pw: "confirmPassphrase typed = Some (Ok pw)" and new: "files privatePath = None" "files publicPath = None"
    and f2: "files2 = files(publicPath \<mapsto> key_file (gb_base32 G publicKey),
      privatePath \<mapsto> key_file (gb_base32 G (sealed_key G pw nonce privateKey)))"
    and h: "write_hybrid edpub hk D K J io now out privateKey files2 = (files', Ok ())"
    using keygen_Ok [OF assms(4)] by blast
  have keep: "files2 p \<noteq> None \<Longrightarrow> files' p = files2 p" for p by (rule write_hybrid_keeps [OF h])
  have "files' privatePath = Some (key_file (gb_base32 G (sealed_key G pw nonce privateKey)))" using keep [of privatePath] f2 by simp
  moreover have "gb_unbase32 G (TrimSpace (f_data (key_file (gb_base32 G (sealed_key G pw nonce privateKey))))) =
      Some (sealed_key G pw nonce privateKey)"
    using assms(1) by (simp add: key_file_def TrimSpace_line box_law_def)
  moreover have "length (sealed_key G pw nonce privateKey) = 24 + 64 + 16"
    using assms(1-3) by (simp add: sealed_key_def box_law_def)
  ultimately have r: "ReadPrivateKey G files' privatePath inputs =
      passphrase_loop G nonce (gb_seal G nonce (DeriveKey G pw) privateKey) inputs" for inputs
    using assms(2) by (simp add: ReadPrivateKey_def nonceOverhead_def sealed_key_def)
  have o: "gb_open G nonce (DeriveKey G pw) (gb_seal G nonce (DeriveKey G pw) privateKey) = Some privateKey"
    using assms(1) by (simp add: box_law_def)
  have "files' p = files p" if "files p \<noteq> None" for p using that keep [of p] f2 new by (auto split: if_splits)
  then show ?thesis using pw confirmed [OF pw] passphrase_loop_finds [OF _ o] unfolding r by blast
qed

section \<open>The next configuration\<close>

fun UseLatestVersion :: "InnerConfig \<Rightarrow> InnerConfig" where
  "UseLatestVersion (InnerAddFriend c) = InnerAddFriend (af_UseLatestVersion c)"
| "UseLatestVersion (InnerDialing c) = InnerDialing (dc_UseLatestVersion c)"

text \<open>new-config without \<open>-current\<close>, from the configuration the server gave.\<close>

definition new_config :: "('vk, 'gk) cfg_env \<Rightarrow> int \<Rightarrow> SignedConfig \<Rightarrow> (cfg_error, SignedConfig) outcome" where
  "new_config E now conf =
     bind_outcome (config_Hash E conf) (\<lambda>confHash.
       case sc_Inner conf of
         None \<Rightarrow> Panic
       | Some inner \<Rightarrow>
           (let valid = sc_Expires conf - sc_Created conf
            in Ok (conf\<lparr>sc_Inner := Some (UseLatestVersion inner), sc_Created := now, sc_Expires := now + valid,
                 sc_PrevConfigHash := confHash, sc_Signatures := Map.empty, sc_Version := SignedConfigVersion,
                 sc_MinClientVersion := SignedConfigVersion\<rparr>)))"

text \<open>
  sign-config. A guardian who is not in the list is only warned. \<open>ed_sign\<close> is \<open>ed25519.Sign\<close>, \<open>coins\<close>
  the randomness of the other half.
\<close>

definition sign_config ::
  "('vk, 'gk) cfg_env \<Rightarrow> edpub \<Rightarrow> hkdf \<Rightarrow> ('pk, 'sk) mlkem \<Rightarrow> (bytes \<Rightarrow> bytes \<Rightarrow> bytes) \<Rightarrow> bytes \<Rightarrow> int \<Rightarrow> bytes \<Rightarrow> SignedConfig \<Rightarrow>
   (tool_error, SignedConfig) outcome" where
  "sign_config E edpub hk K ed_sign coins now privateKey conf =
     (case config_Validate conf of
        Err e \<Rightarrow> Err (BadConfig e) | Panic \<Rightarrow> Panic
      | Ok _ \<Rightarrow>
          (case HybridIdentityFromEd25519Seed edpub hk (ce_dsa E) K now (ed_Seed privateKey) of
             Err e \<Rightarrow> Err (HybridIdentity e) | Panic \<Rightarrow> Panic
           | Ok idn \<Rightarrow>
               (case SigningMessage E conf of
                  Err e \<Rightarrow> Panic | Panic \<Rightarrow> Panic
                | Ok msg \<Rightarrow>
                    (case pqsig_Sign (ce_dsa E) coins (PQPriv idn) msg of
                       Err e \<Rightarrow> Err (PqSign e) | Panic \<Rightarrow> Panic
                     | Ok sigPQ \<Rightarrow>
                         (let hs = \<lparr>hs_Ed = fixed HybridSignatureEdSize (ed_sign privateKey msg),
                                hs_PQ = fixed HybridSignaturePQSize sigPQ\<rparr>
                          in Ok (conf\<lparr>sc_Signatures := (sc_Signatures conf)(ce_base32 E (ed_Public privateKey) \<mapsto>
                               HybridSignature_Bytes hs)\<rparr>))))))"

text \<open>The guardians sign one after the other, each with the coins and the time of its turn.\<close>

fun sign_all ::
  "('vk, 'gk) cfg_env \<Rightarrow> edpub \<Rightarrow> hkdf \<Rightarrow> ('pk, 'sk) mlkem \<Rightarrow> (bytes \<Rightarrow> bytes \<Rightarrow> bytes) \<Rightarrow> (bytes \<times> int \<times> bytes) list \<Rightarrow> SignedConfig \<Rightarrow>
   (tool_error, SignedConfig) outcome" where
  "sign_all E edpub hk K ed_sign [] conf = Ok conf"
| "sign_all E edpub hk K ed_sign ((coins, now, key) # keys) conf =
     bind_outcome (sign_config E edpub hk K ed_sign coins now key conf) (sign_all E edpub hk K ed_sign keys)"

text \<open>
  \<open>SetCurrentConfig\<close> of the config client against the server, whose handler cuts the connection off if
  it panics; and upload-config, which checks the configuration before it sends it.
\<close>

definition client_SetCurrentConfig :: "('vk, 'gk) cfg_env \<Rightarrow> bool \<Rightarrow> SignedConfig \<Rightarrow> config_server \<Rightarrow> config_server \<times> (tool_error, unit) outcome" where
  "client_SetCurrentConfig E persist conf srv =
     (case newConfigHandler E persist (Some conf) srv of
        (srv', Ok _) \<Rightarrow> (srv', Ok ()) | (srv', Err e) \<Rightarrow> (srv', Err (Upload e)) | (srv', Panic) \<Rightarrow> (srv', Err UploadCutOff))"

definition upload_config :: "('vk, 'gk) cfg_env \<Rightarrow> bool \<Rightarrow> SignedConfig \<Rightarrow> config_server \<Rightarrow> config_server \<times> (tool_error, unit) outcome" where
  "upload_config E persist conf srv =
     (case config_Validate conf of
        Err e \<Rightarrow> (srv, Err (BadConfig e)) | Panic \<Rightarrow> (srv, Panic)
      | Ok _ \<Rightarrow> client_SetCurrentConfig E persist conf srv)"

section \<open>A ceremony\<close>

lemma message_unsigned [simp]: "SigningMessage E (c\<lparr>sc_Signatures := s\<rparr>) = SigningMessage E c"
  by (simp add: SigningMessage_def)

lemma hash_unsigned [simp]: "config_Hash E (c\<lparr>sc_Signatures := s\<rparr>) = config_Hash E c"
  by (simp add: config_Hash_def)

lemma validate_unsigned [simp]: "config_Validate (c\<lparr>sc_Signatures := s\<rparr>) = config_Validate c"
  by (simp add: config_Validate_def)

text \<open>The private key of a guardian, whose two public halves the configuration has.\<close>

definition guardian_of :: "('vk, 'gk) cfg_env \<Rightarrow> hkdf \<Rightarrow> bytes \<Rightarrow> Guardian \<Rightarrow> bool" where
  "guardian_of E hk key g \<longleftrightarrow> g_Key g = ed_Public key \<and> length (g_Key g) = 32 \<and>
     (\<exists>vk gk. pqsig_DeriveFromEd25519Seed hk (ce_dsa E) (ed_Seed key) = Ok (vk, gk) \<and> g_PQKey g = pqsig_PackPublicKey (ce_dsa E) vk)"

text \<open>
  Documented behaviour of both signature schemes for a key: what it signs verifies under its public
  half; the Ed25519 half of the key is that of its seed.
\<close>

definition signer_law :: "('vk, 'gk) cfg_env \<Rightarrow> edpub \<Rightarrow> hkdf \<Rightarrow> (bytes \<Rightarrow> bytes \<Rightarrow> bytes) \<Rightarrow> bytes \<Rightarrow> bool" where
  "signer_law E edpub hk ed_sign key \<longleftrightarrow>
     (\<forall>m. length (ed_sign key m) = 64 \<and> ce_ed_verify E (ed_Public key) m (ed_sign key m)) \<and>
     (\<forall>vk gk m coins sig. pqsig_DeriveFromEd25519Seed hk (ce_dsa E) (ed_Seed key) = Ok (vk, gk) \<longrightarrow>
        dsa_SignTo (ce_dsa E) gk m (Some coins) = Some sig \<longrightarrow>
        dsa_Verify (ce_dsa E) (dsa_UnpackPub (ce_dsa E) (pqsig_PackPublicKey (ce_dsa E) vk)) m (fixed 3309 sig))"

text \<open>A signature that verifies for every guardian with that key.\<close>

definition good_sig :: "('vk, 'gk) cfg_env \<Rightarrow> hkdf \<Rightarrow> bytes \<Rightarrow> bytes \<Rightarrow> bytes option \<Rightarrow> bool" where
  "good_sig E hk msg key s \<longleftrightarrow> (\<forall>c g. guardian_of E hk key g \<longrightarrow> sc_Signatures c (ce_base32 E (g_Key g)) = s \<longrightarrow>
     verifyHybridGuardianSig E c g msg (ce_base32 E (g_Key g)) = Ok ())"

lemma sign_config_Ok:
  assumes "sign_config E edpub hk K ed_sign coins now key conf = Ok conf'" and "signer_law E edpub hk ed_sign key"
    and "SigningMessage E conf = Ok msg"
  shows "\<exists>sig. conf' = conf\<lparr>sc_Signatures := (sc_Signatures conf)(ce_base32 E (ed_Public key) \<mapsto> sig)\<rparr> \<and> good_sig E hk msg key (Some sig)"
proof -
  obtain idn sigPQ where i: "HybridIdentityFromEd25519Seed edpub hk (ce_dsa E) K now (ed_Seed key) = Ok idn"
    and q: "pqsig_Sign (ce_dsa E) coins (PQPriv idn) msg = Ok sigPQ"
    and c: "conf' = conf\<lparr>sc_Signatures := (sc_Signatures conf)(ce_base32 E (ed_Public key) \<mapsto>
        HybridSignature_Bytes \<lparr>hs_Ed = fixed HybridSignatureEdSize (ed_sign key msg), hs_PQ = fixed HybridSignaturePQSize sigPQ\<rparr>)\<rparr>"
    using assms(1,3) by (auto simp: sign_config_def split: outcome.splits)
  have "length (ed_Seed key) = 32" using i by (simp add: HybridIdentityFromEd25519Seed_def split: if_splits)
  then obtain vk gk where d: "pqsig_DeriveFromEd25519Seed hk (ce_dsa E) (ed_Seed key) = Ok (vk, gk)" "PQPriv idn = Some gk"
    using i by (auto simp: HybridIdentityFromEd25519Seed_def hybridIdentityFromEd25519Pair_def Let_def split: outcome.splits prod.splits)
  then obtain sig where s: "dsa_SignTo (ce_dsa E) gk msg (Some coins) = Some sig" "sigPQ = fixed 3309 sig"
    using q by (auto simp: pqsig_Sign_def sign_buffer_def pqsig_SignatureSize_def split: option.splits)
  have v: "dsa_Verify (ce_dsa E) (dsa_UnpackPub (ce_dsa E) (pqsig_PackPublicKey (ce_dsa E) vk)) msg (fixed 3309 sig)"
    "length (ed_sign key msg) = 64" "ce_ed_verify E (ed_Public key) msg (ed_sign key msg)"
    using assms(2) d(1) s(1) unfolding signer_law_def by blast+
  have "good_sig E hk msg key (Some (ed_sign key msg @ fixed 3309 sig))"
    using v d(1) length_pack_keys(2) [of "ce_dsa E"]
    by (auto simp: good_sig_def guardian_of_def guardian_sig_iff pqsig_PublicKeySize_def)
  moreover have "HybridSignature_Bytes \<lparr>hs_Ed = fixed HybridSignatureEdSize (ed_sign key msg), hs_PQ = fixed HybridSignaturePQSize sigPQ\<rparr> =
      ed_sign key msg @ fixed 3309 sig"
    using v(2) s(2) by (simp add: HybridSignature_Bytes_def hs_sizes)
  ultimately show ?thesis using c by auto
qed

text \<open>Later signatures replace those under the same string, so each guardian's is one of a key with the same public half.\<close>

definition keys_of :: "(bytes \<times> int \<times> bytes) list \<Rightarrow> bytes set" where
  "keys_of turns = (\<lambda>(coins, now, key). key) ` set turns"

lemma sign_all_Ok:
  assumes "sign_all E edpub hk K ed_sign turns conf = Ok conf'" and "\<forall>key\<in>keys_of turns. signer_law E edpub hk ed_sign key"
    and "SigningMessage E conf = Ok msg" and "inj (ce_base32 E)"
  shows "\<exists>sigs. conf' = conf\<lparr>sc_Signatures := sigs\<rparr> \<and>
    (\<forall>s. s \<notin> (\<lambda>k. ce_base32 E (ed_Public k)) ` keys_of turns \<longrightarrow> sigs s = sc_Signatures conf s) \<and>
    (\<forall>key\<in>keys_of turns. \<exists>key'\<in>keys_of turns. ed_Public key' = ed_Public key \<and>
       good_sig E hk msg key' (sigs (ce_base32 E (ed_Public key))))"
  using assms(1-3)
proof (induction turns arbitrary: conf)
  case Nil
  then show ?case by (intro exI [of _ "sc_Signatures conf"]) (simp add: keys_of_def)
next
  case (Cons turn turns)
  obtain coins now key where t: "turn = (coins, now, key)" by (cases turn)
  obtain conf1 where s: "sign_config E edpub hk K ed_sign coins now key conf = Ok conf1"
    and rest: "sign_all E edpub hk K ed_sign turns conf1 = Ok conf'"
    using Cons.prems(1) by (auto simp: t outcome_simps)
  have k: "keys_of (turn # turns) = insert key (keys_of turns)" by (simp add: keys_of_def t)
  obtain sig where c1: "conf1 = conf\<lparr>sc_Signatures := (sc_Signatures conf)(ce_base32 E (ed_Public key) \<mapsto> sig)\<rparr>"
    and g: "good_sig E hk msg key (Some sig)"
    using sign_config_Ok [OF s _ Cons.prems(3)] Cons.prems(2) k by auto
  obtain sigs where c': "conf' = conf1\<lparr>sc_Signatures := sigs\<rparr>"
    and old: "\<And>s. s \<notin> (\<lambda>k. ce_base32 E (ed_Public k)) ` keys_of turns \<Longrightarrow> sigs s = sc_Signatures conf1 s"
    and good: "\<And>key. key \<in> keys_of turns \<Longrightarrow> \<exists>key'\<in>keys_of turns. ed_Public key' = ed_Public key \<and>
       good_sig E hk msg key' (sigs (ce_base32 E (ed_Public key)))"
    using Cons.IH [OF rest] Cons.prems(2,3) k c1 by auto
  have here: "\<exists>key'\<in>insert key (keys_of turns). ed_Public key' = ed_Public key \<and>
       good_sig E hk msg key' (sigs (ce_base32 E (ed_Public key)))"
  proof (cases "ce_base32 E (ed_Public key) \<in> (\<lambda>k. ce_base32 E (ed_Public k)) ` keys_of turns")
    case True
    then obtain k2 where "k2 \<in> keys_of turns" "ed_Public k2 = ed_Public key" using assms(4) by (auto dest: injD)
    then show ?thesis using good [of k2] by auto
  next
    case False
    then show ?thesis using old c1 g by auto
  qed
  show ?case unfolding k
    by (rule exI [of _ sigs]) (use c' c1 old here good in auto)
qed

text \<open>The guardians of a configuration and of its successor have keys among those of a ceremony.\<close>

definition all_hold :: "('vk, 'gk) cfg_env \<Rightarrow> hkdf \<Rightarrow> bytes set \<Rightarrow> Guardian list \<Rightarrow> bool" where
  "all_hold E hk keys gs \<longleftrightarrow> (\<forall>g\<in>set gs. \<exists>key\<in>keys. guardian_of E hk key g)"

lemma ceremony_verifies:
  assumes "sign_all E edpub hk K ed_sign turns draft = Ok full" and "\<forall>key\<in>keys_of turns. signer_law E edpub hk ed_sign key"
    and "inj (ce_base32 E)" and "inj_on ed_Public (keys_of turns)" and "all_hold E hk (keys_of turns) gs"
    and "SigningMessage E draft = Ok msg" and "g \<in> set gs"
  shows "verifyHybridGuardianSig E full g msg (ce_base32 E (g_Key g)) = Ok ()"
proof -
  obtain sigs where s: "full = draft\<lparr>sc_Signatures := sigs\<rparr>"
    and good: "\<And>key. key \<in> keys_of turns \<Longrightarrow> \<exists>key'\<in>keys_of turns. ed_Public key' = ed_Public key \<and>
       good_sig E hk msg key' (sigs (ce_base32 E (ed_Public key)))"
    using sign_all_Ok [OF assms(1,2,6,3)] by blast
  obtain key where key: "key \<in> keys_of turns" "guardian_of E hk key g" using assms(5,7) by (auto simp: all_hold_def)
  then have "good_sig E hk msg key (sigs (ce_base32 E (ed_Public key)))"
    using good [OF key(1)] assms(4) by (metis inj_onD)
  moreover have "g_Key g = ed_Public key" using key(2) by (simp add: guardian_of_def)
  then have "sc_Signatures full (ce_base32 E (g_Key g)) = sigs (ce_base32 E (ed_Public key))" using s by simp
  ultimately show ?thesis using key(2) unfolding good_sig_def by blast
qed

text \<open>
  C27: the ceremony of a new configuration. From the current configuration of a service on a server,
  new-config makes a draft whose inner part and guardians may be edited; when guardians with all keys
  of the old and the new list have run sign-config on it, in any order, upload-config is accepted, the
  server has it as the service's current one, and a client that has the old one accepts the chain of
  the two, until it expires.
\<close>
theorem guardian_ceremony:
  assumes "currentConfig srv (sc_Service prev) = Some h" and "allConfigs srv h = Some prev" and "config_Hash E prev = Ok h"
    and "new_config E now prev = Ok fresh" and "now > sc_Created prev"
    and "draft = fresh\<lparr>sc_Inner := inner, sc_Guardians := gs\<rparr>" and "config_Validate draft = Ok ()"
    and "sign_all E edpub hk K ed_sign turns draft = Ok full" and "config_Hash E draft = Ok h'"
    and "\<forall>key\<in>keys_of turns. signer_law E edpub hk ed_sign key" and "inj (ce_base32 E)" and "inj_on ed_Public (keys_of turns)"
    and "all_hold E hk (keys_of turns) (sc_Guardians prev @ gs)" and "now' \<le> sc_Expires draft"
  shows "\<exists>srv'. upload_config E True full srv = (srv', Ok ()) \<and> currentConfig srv' (sc_Service prev) = Some h' \<and>
    allConfigs srv' h' = Some full \<and> FetchAndVerifyChain E now' (Decoded [Some full]) prev h' = Ok [full, prev]"
proof -
  obtain msg where m: "SigningMessage E draft = Ok msg" using assms(9) by (auto simp: config_Hash_def outcome_simps)
  obtain sigs where s: "full = draft\<lparr>sc_Signatures := sigs\<rparr>" using sign_all_Ok [OF assms(8,10) m assms(11)] by blast
  have d: "sc_Service draft = sc_Service prev" "sc_Created draft = now" "sc_PrevConfigHash draft = h" "sc_Guardians draft = gs"
    using assms(3,4,6) by (auto simp: new_config_def Let_def outcome_simps split: option.splits)
  have v: "\<And>g. g \<in> set (sc_Guardians prev @ gs) \<Longrightarrow> verifyHybridGuardianSig E full g msg (ce_base32 E (g_Key g)) = Ok ()"
    by (rule ceremony_verifies [OF assms(8,10,11,12,13) m])
  have "verify_link E i full prev = Ok ()" for i
    unfolding verify_link_iff using assms(3) m v s d(3,4) by simp
  then have chain: "VerifyConfigChain E [full, prev] = Ok ()" by (simp add: VerifyConfigChain_def)
  have "upload_config E True full srv =
      (srv\<lparr>currentConfig := (currentConfig srv)(sc_Service prev \<mapsto> h'), allConfigs := (allConfigs srv)(h' \<mapsto> full)\<rparr>, Ok ())"
    using assms(1,2,5,7,9) chain s d by (simp add: upload_config_def client_SetCurrentConfig_def newConfigHandler_def Let_def)
  moreover have "FetchAndVerifyChain E now' (Decoded [Some full]) prev h' = Ok [full, prev]"
    using assms(3,5,7,9,14) chain s d by (simp add: FetchAndVerifyChain_def verify_decoded_def)
  ultimately show ?thesis by simp
qed

section \<open>Instances\<close>

text \<open>A text form that escapes what is white space, and a box that carries its key in front.\<close>

fun esc :: "bytes \<Rightarrow> bytes" where
  "esc [] = []"
| "esc (x # xs) = (if is_space x \<or> x = 64 then [64, x + 64] else [x]) @ esc xs"

fun unesc :: "bytes \<Rightarrow> bytes" where
  "unesc [] = []"
| "unesc [x] = [x]"
| "unesc (x # y # ys) = (if x = 64 then (y - 64) # unesc ys else x # unesc (y # ys))"

lemma unesc_esc: "unesc (esc xs) = xs"
proof (induction xs)
  case (Cons x xs)
  then show ?case by (cases "esc xs") auto
qed simp

lemma esc_no_space: "c \<in> set (esc xs) \<Longrightarrow> \<not> is_space c"
  by (induction xs) (auto simp: is_space_def split: if_splits)

definition demo_box :: guardian_box where
  "demo_box = \<lparr>gb_scrypt = (\<lambda>pw. pw), gb_seal = (\<lambda>n k m. fixed 16 k @ m),
     gb_open = (\<lambda>n k c. if take 16 c = fixed 16 k then Some (drop 16 c) else None), gb_base32 = esc, gb_unbase32 = (\<lambda>b. Some (unesc b))\<rparr>"

lemma demo_box_law: "box_law demo_box"
  using esc_no_space by (auto simp: box_law_def demo_box_def unesc_esc)

definition demo_seed :: bytes where "demo_seed = replicate 32 9"
definition demo_key :: bytes where "demo_key = demo_seed @ replicate 32 7"

theorem guardian_key_kept_witness:
  "\<exists>files'. guardian_keygen demo_box (\<lambda>_. []) toy_hkdf toy_dsa toy_kem toy_if (WriteOK, WriteOK, WriteOK) 0 (''k'', ''p'', '''')
       [Some [], Some [1], Some [2], Some [1], Some [1]] (replicate 32 7, demo_key) (replicate 24 0) Map.empty = Some (files', Ok ()) \<and>
     ReadPrivateKey demo_box files' ''k'' [Some [2], Some [1]] = Some (Ok demo_key)"
proof -
  obtain files' where k: "guardian_keygen demo_box (\<lambda>_. []) toy_hkdf toy_dsa toy_kem toy_if (WriteOK, WriteOK, WriteOK) 0 (''k'', ''p'', '''')
       [Some [], Some [1], Some [2], Some [1], Some [1]] (replicate 32 7, demo_key) (replicate 24 0) Map.empty = Some (files', Ok ())"
    by (simp add: guardian_keygen_def checkOverwrite_def write_key_def write_hybrid_def)
  have w: "gb_open demo_box (replicate 24 0) (DeriveKey demo_box [2]) (gb_seal demo_box (replicate 24 0) (DeriveKey demo_box [1]) demo_key) = None"
    by (simp add: demo_box_def DeriveKey_def fixed_def numeral_eq_Suc)
  have "length (replicate 24 (0 :: byte)) = 24" "length demo_key = 64" by (simp_all add: demo_key_def demo_seed_def)
  from guardian_key_kept [OF demo_box_law this k] obtain pw where
    "confirmPassphrase [Some [], Some [1], Some [2], Some [1], Some [1]] = Some (Ok pw)"
    "\<And>wrong typed'. (\<forall>w\<in>set wrong. gb_open demo_box (replicate 24 0) (DeriveKey demo_box w)
        (gb_seal demo_box (replicate 24 0) (DeriveKey demo_box pw) demo_key) = None) \<Longrightarrow>
       ReadPrivateKey demo_box files' ''k'' (map Some wrong @ Some pw # typed') = Some (Ok demo_key)" by blast
  from this(1) this(2) [of "[[2]]" "[]"] w k show ?thesis by auto
qed

definition demo_signer :: Guardian where
  "demo_signer = \<lparr>g_Username = ''g'', g_Key = replicate 32 7, g_PQKey = fixed 1952 demo_seed\<rparr>"

definition demo_prev :: SignedConfig where
  "demo_prev = (demo_config 1 '''' 9 Map.empty)\<lparr>sc_Guardians := [demo_signer]\<rparr>"

definition demo_prev_server :: config_server where
  "demo_prev_server = \<lparr>allConfigs = [hash_of 1 \<mapsto> demo_prev], currentConfig = [''Dialing'' \<mapsto> hash_of 1]\<rparr>"

definition demo_draft :: SignedConfig where
  "demo_draft = demo_prev\<lparr>sc_Created := 2, sc_Expires := 101, sc_PrevConfigHash := hash_of 1\<rparr>"

lemma demo_derive: "pqsig_DeriveFromEd25519Seed toy_hkdf toy_dsa demo_seed = Ok (demo_seed, demo_seed)"
  by (simp add: pqsig_DeriveFromEd25519Seed_def pqsig_GenerateKeyFromSeed_def toy_hkdf_def toy_dsa_def demo_seed_def pqsig_SeedSize_def)

lemma demo_seed_key: "ed_Seed demo_key = demo_seed" "ed_Public demo_key = replicate 32 7"
  by (simp_all add: demo_key_def ed_Seed_def ed_Public_def demo_seed_def)

lemma demo_signer_law: "signer_law srv_env (\<lambda>_. []) toy_hkdf (\<lambda>_ _. replicate 64 1) demo_key"
proof -
  have d: "ce_dsa srv_env = toy_dsa" "ce_ed_verify srv_env = (\<lambda>_ _ s. s = replicate 64 1)"
    by (simp_all add: srv_env_def demo_env_def)
  have "dsa_UnpackPub toy_dsa (pqsig_PackPublicKey toy_dsa demo_seed) = demo_seed"
    by (simp add: toy_dsa_def pqsig_PackPublicKey_def pqsig_PublicKeySize_def demo_seed_def fixed_def)
  moreover have "dsa_SignTo toy_dsa demo_seed m c = Some (fixed 3309 (demo_seed @ m))"
    "dsa_Verify toy_dsa demo_seed m (fixed 3309 (fixed 3309 (demo_seed @ m)))" for m c
    by (simp_all add: toy_dsa_def)
  ultimately show ?thesis unfolding signer_law_def demo_seed_key d demo_derive by auto
qed

lemma demo_guardian_of: "guardian_of srv_env toy_hkdf demo_key demo_signer"
proof -
  have "ce_dsa srv_env = toy_dsa" by (simp add: srv_env_def demo_env_def)
  then show ?thesis
    by (simp add: guardian_of_def demo_seed_key demo_derive demo_signer_def)
      (simp add: pqsig_PackPublicKey_def toy_dsa_def pqsig_PublicKeySize_def)
qed

theorem guardian_ceremony_witness:
  "\<exists>full srv'. sign_all srv_env (\<lambda>_. []) toy_hkdf toy_kem (\<lambda>_ _. replicate 64 1) [([], 2, demo_key)] demo_draft = Ok full \<and>
     upload_config srv_env True full demo_prev_server = (srv', Ok ()) \<and> currentConfig srv' ''Dialing'' = Some (hash_of 2)"
proof -
  have hp: "config_Hash srv_env demo_prev = Ok (hash_of 1)" "config_Hash srv_env demo_draft = Ok (hash_of 2)"
    by (simp_all add: srv_env_hash demo_prev_def demo_draft_def demo_config_def)
  have f: "sc_Service demo_prev = ''Dialing''" "sc_Created demo_prev = 1" "sc_Expires demo_prev = 100" "sc_Inner demo_prev = Some demo_inner"
    "sc_Version demo_prev = 2" "sc_MinClientVersion demo_prev = 2" "sc_Guardians demo_prev = [demo_signer]" "sc_Signatures demo_prev = Map.empty"
    by (simp_all add: demo_prev_def demo_config_def)
  have n: "new_config srv_env 2 demo_prev = Ok (demo_draft\<lparr>sc_Inner := Some (UseLatestVersion demo_inner)\<rparr>)"
    using hp(1) f by (simp add: new_config_def demo_draft_def SignedConfigVersion_def demo_prev_def demo_config_def)
  have dd: "demo_draft = (demo_draft\<lparr>sc_Inner := Some (UseLatestVersion demo_inner)\<rparr>)\<lparr>sc_Inner := Some demo_inner, sc_Guardians := [demo_signer]\<rparr>"
    by (simp add: demo_draft_def demo_prev_def demo_config_def)
  have v: "config_Validate demo_draft = Ok ()"
    by (simp add: config_Validate_def demo_draft_def f check_guardian_def demo_signer_def pqsig_PublicKeySize_def
        SignedConfigVersion_def demo_inner_def DialingConfig_Validate_def)
  obtain idn where i: "HybridIdentityFromEd25519Seed (\<lambda>_. []) toy_hkdf toy_dsa toy_kem 2 demo_seed = Ok idn" "PQPriv idn = Some demo_seed"
    using demo_derive by (simp add: HybridIdentityFromEd25519Seed_def hybridIdentityFromEd25519Pair_def demo_seed_def ed_Seed_def
        ed_NewKeyFromSeed_def pqkem_DeriveFromEd25519Seed_def toy_hkdf_def pqkem_NewKeyFromSeed_def KeySeedSize_def split_beta Let_def)
  have "\<exists>full. sign_config srv_env (\<lambda>_. []) toy_hkdf toy_kem (\<lambda>_ _. replicate 64 1) [] 2 demo_key demo_draft = Ok full"
  proof -
    have d: "ce_dsa srv_env = toy_dsa" by (simp add: srv_env_def demo_env_def)
    obtain msg where "SigningMessage srv_env demo_draft = Ok msg" using hp(2) by (auto simp: config_Hash_def outcome_simps)
    moreover have "\<exists>sig. pqsig_Sign toy_dsa [] (Some demo_seed) msg = Ok sig" by (simp add: pqsig_Sign_def sign_buffer_def toy_dsa_def)
    ultimately show ?thesis using v i by (auto simp: sign_config_def demo_seed_key d Let_def)
  qed
  then obtain full where s: "sign_all srv_env (\<lambda>_. []) toy_hkdf toy_kem (\<lambda>_ _. replicate 64 1) [([], 2, demo_key)] demo_draft = Ok full"
    by auto
  have k: "keys_of [([], 2, demo_key)] = {demo_key}" by (simp add: keys_of_def)
  have "\<exists>srv'. upload_config srv_env True full demo_prev_server = (srv', Ok ()) \<and> currentConfig srv' (sc_Service demo_prev) = Some (hash_of 2) \<and>
      allConfigs srv' (hash_of 2) = Some full \<and> FetchAndVerifyChain srv_env 50 (Decoded [Some full]) demo_prev (hash_of 2) = Ok [full, demo_prev]"
  proof (rule guardian_ceremony [OF _ _ hp(1) n _ dd v s hp(2)])
    show "all_hold srv_env toy_hkdf (keys_of [([], 2, demo_key)]) (sc_Guardians demo_prev @ [demo_signer])"
      using demo_guardian_of by (simp add: all_hold_def k f)
    have "inj bytes_str"
    proof (rule inj_on_inverseI)
      have "unat x < 256" for x :: byte using unsigned_less [of x] by simp
      then show "str_bytes (bytes_str b) = b" for b by (simp add: str_bytes_def bytes_str_def comp_def)
    qed
    then show "inj (ce_base32 srv_env)" by (simp add: srv_env_def demo_env_def)
  qed (use demo_signer_law f in \<open>simp_all add: k demo_prev_server_def demo_draft_def\<close>)
  then show ?thesis using s f(1) by auto
qed

end
