(* ===== verification/AtomicFile.thy ===== *)
theory AtomicFile
  imports Client Coordinator
begin

text \<open>
  The file write behind every persisted state (\<open>WriteFileAtomic\<close> of src/ioutil2/ioutil.go): a temporary
  file beside the target, written, synced, closed, given its mode and renamed. The disk is followed
  call by call, so that a crash may come between any two. Then the states of the coordinator and of
  the client, which see the write as one step, are shown to be what is on the disk.
\<close>

section \<open>Files and paths\<close>

text \<open>
  \<open>n_data\<close> is what a reader sees; \<open>n_synced\<close> says that it has reached the disk. A path names a file of
  the directory before its last slash, or of the working directory.
\<close>

record node =
  n_mode :: "32 word"
  n_data :: bytes
  n_synced :: bool

type_synonym disk = "string \<rightharpoonup> node"

definition path_Split :: "string \<Rightarrow> string \<times> string" where
  "path_Split p = (let name = rev (takeWhile (\<lambda>c. c \<noteq> CHR ''/'') (rev p)) in (take (length p - length name) p, name))"

definition prefixAndSuffix :: "string \<Rightarrow> string \<times> string" where
  "prefixAndSuffix pattern =
     (if CHR ''*'' \<in> set pattern
      then (let suffix = rev (takeWhile (\<lambda>c. c \<noteq> CHR ''*'') (rev pattern))
            in (take (length pattern - length suffix - 1) pattern, suffix))
      else (pattern, ''''))"

definition joinPath :: "string \<Rightarrow> string \<Rightarrow> string" where
  "joinPath dir name = (if dir \<noteq> [] \<and> last dir = CHR ''/'' then dir @ name else dir @ ''/'' @ name)"

text \<open>
  What the operating system answers: the directory for temporary files, the random parts of the names
  tried, the device of a directory, and which calls succeed; a write that fails leaves some bytes.
\<close>

record write_calls =
  wc_TempDir :: string
  wc_random :: "string list"
  wc_device :: "string \<Rightarrow> nat"
  wc_open :: bool
  wc_write :: "nat option"
  wc_sync :: bool
  wc_close :: bool
  wc_chmod :: bool
  wc_rename :: bool
  wc_remove :: bool

datatype file_call = CreateTemp | WriteData | SyncFile | CloseFile | ChmodFile | RenameFile

section \<open>The write\<close>

text \<open>\<open>ioutil.TempFile\<close>: the first name that is free, of at most ten thousand.\<close>

definition TempFile :: "write_calls \<Rightarrow> string \<Rightarrow> string \<Rightarrow> disk \<Rightarrow> string option" where
  "TempFile io dir pattern d =
     (let (prefix, suffix) = prefixAndSuffix pattern; prefix' = joinPath (if dir = [] then wc_TempDir io else dir) prefix in
      if wc_open io then find (\<lambda>tmp. d tmp = None) (map (\<lambda>r. prefix' @ r @ suffix) (take 10000 (wc_random io))) else None)"

definition call_write :: "write_calls \<Rightarrow> string \<Rightarrow> bytes \<Rightarrow> disk \<Rightarrow> disk \<times> file_call option" where
  "call_write io tmp data d =
     (case wc_write io of
        None \<Rightarrow> (d(tmp \<mapsto> \<lparr>n_mode = 384, n_data = data, n_synced = False\<rparr>), None)
      | Some n \<Rightarrow> (d(tmp \<mapsto> \<lparr>n_mode = 384, n_data = take n data, n_synced = False\<rparr>), Some WriteData))"

definition call_sync :: "write_calls \<Rightarrow> string \<Rightarrow> disk \<Rightarrow> disk \<times> file_call option" where
  "call_sync io tmp d = (if wc_sync io then (d(tmp := map_option (n_synced_update (\<lambda>_. True)) (d tmp)), None) else (d, Some SyncFile))"

definition call_chmod :: "write_calls \<Rightarrow> string \<Rightarrow> 32 word \<Rightarrow> disk \<Rightarrow> disk" where
  "call_chmod io tmp perm d = (if wc_chmod io then d(tmp := map_option (n_mode_update (\<lambda>_. perm)) (d tmp)) else d)"

text \<open>A rename across devices fails.\<close>

definition call_rename :: "write_calls \<Rightarrow> string \<Rightarrow> string \<Rightarrow> disk \<Rightarrow> disk \<times> file_call option" where
  "call_rename io tmp filename d =
     (if wc_rename io \<and> wc_device io (fst (path_Split tmp)) = wc_device io (fst (path_Split filename))
      then ((d(filename := d tmp))(tmp := None), None) else (d, Some RenameFile))"

definition first_error :: "file_call option \<Rightarrow> bool \<Rightarrow> file_call \<Rightarrow> file_call option" where
  "first_error err ok c = (if err = None \<and> \<not> ok then Some c else err)"

text \<open>The disk before and after every call, and the error returned.\<close>

definition WriteFileAtomic ::
  "write_calls \<Rightarrow> string \<Rightarrow> bytes \<Rightarrow> 32 word \<Rightarrow> disk \<Rightarrow> disk list \<times> file_call option" where
  "WriteFileAtomic io filename data perm d =
     (let (dir, name) = path_Split filename in
      case TempFile io dir name d of
        None \<Rightarrow> ([d], Some CreateTemp)
      | Some tmp \<Rightarrow>
          (let d0 = d(tmp \<mapsto> \<lparr>n_mode = 384, n_data = [], n_synced = False\<rparr>);
               (d1, e1) = call_write io tmp data d0;
               (d2, e2) = (if e1 = None then call_sync io tmp d1 else (d1, e1));
               e3 = first_error e2 (wc_close io) CloseFile;
               d4 = call_chmod io tmp perm d2;
               e4 = first_error e3 (wc_chmod io) ChmodFile;
               (d5, e5) = (if e4 = None then call_rename io tmp filename d4 else (d4, e4));
               d6 = (if e5 \<noteq> None \<and> wc_remove io then d5(tmp := None) else d5)
           in ([d, d0, d1, d2, d4, d5, d6], e5)))"

text \<open>
  A crash: calls on the directory reach the disk in their order, up to some call; a synced file keeps
  its data, another may hold anything. The directory itself is never synced, so that a crash after
  the write returned may also take it back.
\<close>

definition survives :: "disk \<Rightarrow> disk \<Rightarrow> bool" where
  "survives d d' \<longleftrightarrow> (\<forall>p. case d p of None \<Rightarrow> d' p = None
     | Some n \<Rightarrow> (\<exists>n'. d' p = Some n' \<and> (n_synced n \<longrightarrow> n_data n' = n_data n)))"

definition crashed :: "disk list \<Rightarrow> disk \<Rightarrow> bool" where
  "crashed disks d' \<longleftrightarrow> (\<exists>d\<in>set disks. survives d d')"

definition content :: "disk \<Rightarrow> string \<Rightarrow> bytes option" where
  "content d p = map_option n_data (d p)"

section \<open>The temporary file\<close>

lemma path_Split_join: "fst (path_Split p) @ snd (path_Split p) = p"
proof -
  let ?n = "takeWhile (\<lambda>c. c \<noteq> CHR ''/'') (rev p)"
  have "drop (length p - length ?n) p = rev ?n"
    by (metis length_rev rev_rev_ident rev_take takeWhile_eq_take)
  then show ?thesis by (metis append_take_drop_id fst_conv length_rev path_Split_def snd_conv)
qed

lemma path_Split_no_slash: "CHR ''/'' \<notin> set (snd (path_Split p))"
  by (auto simp: path_Split_def Let_def dest: set_takeWhileD)

lemma path_Split_slash: "fst (path_Split p) = [] \<or> last (fst (path_Split p)) = CHR ''/''"
proof (cases "dropWhile (\<lambda>c. c \<noteq> CHR ''/'') (rev p)")
  case Nil
  then have "takeWhile (\<lambda>c. c \<noteq> CHR ''/'') (rev p) = rev p" by (metis append.right_neutral takeWhile_dropWhile_id)
  then have "length (takeWhile (\<lambda>c. c \<noteq> CHR ''/'') (rev p)) = length p" by (metis length_rev)
  then show ?thesis by (simp add: path_Split_def Let_def)
next
  case (Cons c cs)
  let ?n = "takeWhile (\<lambda>c. c \<noteq> CHR ''/'') (rev p)"
  have "c = CHR ''/''" using hd_dropWhile [of "\<lambda>c. c \<noteq> CHR ''/''" "rev p"] Cons by simp
  moreover have "p = rev (c # cs) @ rev ?n" by (metis Cons rev_append rev_rev_ident takeWhile_dropWhile_id)
  then have "fst (path_Split p) = rev (c # cs)"
    by (metis append_same_eq fst_conv length_rev path_Split_def path_Split_join snd_conv)
  ultimately show ?thesis by simp
qed

lemma prefixAndSuffix_star:
  assumes "CHR ''*'' \<in> set p"
  shows "p = fst (prefixAndSuffix p) @ CHR ''*'' # snd (prefixAndSuffix p)"
proof -
  let ?s = "takeWhile (\<lambda>c. c \<noteq> CHR ''*'') (rev p)"
  obtain c cs where c: "dropWhile (\<lambda>c. c \<noteq> CHR ''*'') (rev p) = c # cs"
    using assms by (cases "dropWhile (\<lambda>c. c \<noteq> CHR ''*'') (rev p)") (auto simp: dropWhile_eq_Nil_conv)
  have "c = CHR ''*''" using hd_dropWhile [of "\<lambda>c. c \<noteq> CHR ''*''" "rev p"] c by simp
  moreover have p: "p = rev cs @ c # rev ?s" by (metis append.assoc append_Cons append_Nil c rev.simps(2) rev_append rev_rev_ident takeWhile_dropWhile_id)
  then have "length p = length cs + 1 + length ?s" by (metis add_Suc_right length_Cons length_append length_rev plus_1_eq_Suc add.commute add.assoc)
  then have "take (length p - length ?s - 1) p = rev cs" using p by (metis add_diff_cancel_right' append_eq_conv_conj length_rev)
  ultimately show ?thesis using p assms by (simp add: prefixAndSuffix_def Let_def)
qed

text \<open>The random part of a name is not empty and has no star; TempFile uses decimal digits.\<close>

definition random_law :: "write_calls \<Rightarrow> bool" where
  "random_law io \<longleftrightarrow> (\<forall>r\<in>set (wc_random io). r \<noteq> [] \<and> CHR ''*'' \<notin> set r)"

lemma find_found:
  assumes "find P xs = Some x"
  shows "x \<in> set xs" and "P x"
  using assms by (auto simp: find_Some_iff)

lemma joinPath_slash: "CHR ''/'' \<in> set (joinPath dir name)"
  by (auto simp: joinPath_def dest: last_in_set)

lemma TempFile_fresh:
  assumes "TempFile io (fst (path_Split filename)) (snd (path_Split filename)) d = Some tmp" and "random_law io"
  shows "tmp \<noteq> filename" and "d tmp = None"
proof -
  let ?dir = "fst (path_Split filename)" and ?name = "snd (path_Split filename)"
  let ?x = "fst (prefixAndSuffix ?name)" and ?y = "snd (prefixAndSuffix ?name)"
  let ?p = "joinPath (if ?dir = [] then wc_TempDir io else ?dir) ?x"
  have f: "find (\<lambda>tmp. d tmp = None) (map (\<lambda>r. ?p @ r @ ?y) (take 10000 (wc_random io))) = Some tmp"
    using assms(1) by (simp add: TempFile_def split_def Let_def split: if_splits)
  show "d tmp = None" using find_found(2) [OF f] .
  have "tmp \<in> set (map (\<lambda>r. ?p @ r @ ?y) (take 10000 (wc_random io)))" by (rule find_found(1) [OF f])
  then obtain r where r: "r \<in> set (wc_random io)" "tmp = ?p @ r @ ?y" by (auto dest: in_set_takeD)
  then have l: "r \<noteq> []" "CHR ''*'' \<notin> set r" using assms(2) by (simp_all add: random_law_def)
  show "tmp \<noteq> filename"
  proof (cases "?dir = []")
    case True
    then have "filename = ?name" by (metis append_Nil path_Split_join)
    then have "CHR ''/'' \<notin> set filename" by (metis path_Split_no_slash)
    then show ?thesis using joinPath_slash r(2) by (metis UnI1 set_append)
  next
    case False
    then have p: "?p = ?dir @ ?x" using path_Split_slash [of filename] by (simp add: joinPath_def)
    show ?thesis
    proof (cases "CHR ''*'' \<in> set ?name")
      case True
      then have "?name = ?x @ CHR ''*'' # ?y" by (rule prefixAndSuffix_star)
      moreover have "r @ ?y \<noteq> CHR ''*'' # ?y" using l by (metis append_Cons append_Nil append_same_eq list.set_intros(1))
      ultimately show ?thesis using r(2) p path_Split_join by (metis append_assoc same_append_eq)
    next
      case False
      then have "?x = ?name" "?y = []" by (simp_all add: prefixAndSuffix_def)
      then show ?thesis using r(2) p l(1) path_Split_join by (metis append.right_neutral append_assoc append_self_conv)
    qed
  qed
qed

section \<open>Crashes and errors\<close>

text \<open>Every disk of the write has the old file or the whole new one, which is synced.\<close>

lemma target_old_or_new:
  assumes "WriteFileAtomic io filename data perm d = (disks, err)" and "random_law io" and "e \<in> set disks"
  shows "e filename = d filename \<or> e filename = Some \<lparr>n_mode = perm, n_data = data, n_synced = True\<rparr>"
proof (cases "TempFile io (fst (path_Split filename)) (snd (path_Split filename)) d")
  case None
  then show ?thesis using assms(1,3) by (auto simp: WriteFileAtomic_def split_def)
next
  case (Some tmp)
  then have "tmp \<noteq> filename" by (rule TempFile_fresh [OF _ assms(2)])
  then show ?thesis using assms(1,3) Some
    by (auto simp: WriteFileAtomic_def split_def Let_def call_write_def call_sync_def call_chmod_def call_rename_def
        first_error_def split: if_splits option.splits)
qed

lemma write_outcome:
  assumes "WriteFileAtomic io filename data perm d = (disks, err)" and "random_law io"
  shows "if err = None then last disks = d(filename \<mapsto> \<lparr>n_mode = perm, n_data = data, n_synced = True\<rparr>)
    else last disks filename = d filename \<and> (wc_remove io \<longrightarrow> last disks = d)"
proof (cases "TempFile io (fst (path_Split filename)) (snd (path_Split filename)) d")
  case None
  then show ?thesis using assms(1) by (auto simp: WriteFileAtomic_def split_def)
next
  case (Some tmp)
  then have t: "tmp \<noteq> filename" "d tmp = None" by (rule TempFile_fresh [OF _ assms(2)])+
  then show ?thesis using assms(1) Some
    by (auto simp: WriteFileAtomic_def split_def Let_def call_write_def call_sync_def call_chmod_def call_rename_def
        first_error_def fun_eq_iff split: if_splits option.splits)
qed

lemma survives_synced:
  assumes "survives e e'" and "\<And>n. e p = Some n \<Longrightarrow> n_synced n"
  shows "content e' p = content e p"
proof (cases "e p")
  case None
  then show ?thesis using assms(1) by (auto simp: survives_def content_def split: option.splits dest: spec [of _ p])
next
  case (Some n)
  then have "\<exists>n'. e' p = Some n' \<and> n_data n' = n_data n"
    using assms(1) [unfolded survives_def, rule_format, of p] assms(2) by auto
  then show ?thesis using Some by (auto simp: content_def)
qed

lemma crash_old_or_new:
  assumes "WriteFileAtomic io filename data perm d = (disks, err)" and "random_law io"
    and "\<And>n. d filename = Some n \<Longrightarrow> n_synced n" and "crashed disks d'"
  shows "content d' filename \<in> {content d filename, Some data}"
proof -
  obtain e where e: "e \<in> set disks" "survives e d'" using assms(4) by (auto simp: crashed_def)
  from target_old_or_new [OF assms(1,2) e(1)]
  have "content e filename \<in> {content d filename, Some data}" "\<And>n. e filename = Some n \<Longrightarrow> n_synced n"
    using assms(3) by (auto simp: content_def)
  then show ?thesis using survives_synced [OF e(2)] by metis
qed

section \<open>The states that are saved\<close>

text \<open>
  What a component saves: its file becomes the bytes of its state when the write returns nil.
  \<open>kept\<close> is false for a client with an empty path, which saves nothing.
\<close>

locale saved_state =
  fixes kept :: bool and save :: "bool \<Rightarrow> 's \<Rightarrow> 's" and saved :: "'s \<Rightarrow> bytes option" and encoded :: "'s \<Rightarrow> bytes"
  assumes saved_save: "kept \<Longrightarrow> saved (save ok s) = (if ok then Some (encoded s) else saved s)"
begin

lemma on_disk:
  assumes kept and "WriteFileAtomic io path (encoded s) perm d = (disks, err)" and "random_law io"
    and "content d path = saved s"
  shows "content (last disks) path = saved (save (err = None) s)"
  using write_outcome [OF assms(2,3)] assms(4) by (auto simp: content_def saved_save [OF assms(1)] split: if_splits)

lemma after_crash:
  assumes kept and "WriteFileAtomic io path (encoded s) perm d = (disks, err)" and "random_law io"
    and "content d path = saved s" and "\<And>n. d path = Some n \<Longrightarrow> n_synced n" and "crashed disks d'"
  shows "content d' path \<in> {saved s, saved (save True s)}"
  using crash_old_or_new [OF assms(2,3,5,6)] assms(4) by (auto simp: saved_save [OF assms(1)])

end

interpretation coordinator_file: saved_state True "persistLocked J" co_file "\<lambda>srv. persisted_bytes J (co_round srv)" for J
  by unfold_locales (simp add: persistLocked_def)

interpretation client_file: saved_state "pe_ClientPath P \<noteq> []" "\<lambda>ok c. fst (persistClientLocked P \<lparr>wa_client = ok, wa_wheel = w\<rparr> c)"
    c_clientFile "\<lambda>c. pe_enc P (persisted_state c)" for P w
  by unfold_locales (simp add: persistClientLocked_def)

interpretation keywheel_file: saved_state "pe_KeywheelPath P \<noteq> []" "\<lambda>ok c. fst (persistKeywheelLocked P \<lparr>wa_client = w, wa_wheel = ok\<rparr> c)"
    c_wheelFile "\<lambda>c. wheel_MarshalBinary (pe_wheel_enc P) (c_wheel c)" for P w
  by unfold_locales (simp add: persistKeywheelLocked_def)

text \<open>A coordinator that crashed in a write loads the round before it or the one it was writing.\<close>

lemma coordinator_after_crash:
  fixes srv :: "'pk coordinator"
  assumes "WriteFileAtomic io path (persisted_bytes J (co_round srv)) 384 d = (disks, err)" and "random_law io"
    and "content d path = co_file srv" and "\<And>n. d path = Some n \<Longrightarrow> n_synced n" and "crashed disks d'"
    and "cj_dec J (cj_enc J (co_round srv)) = Some (co_round srv)"
  shows "content d' path = co_file srv \<or> (\<exists>b. content d' path = Some b \<and> LoadPersistedState J b = Ok (co_round srv))"
proof -
  have "content d' path \<in> {co_file srv, co_file (persistLocked J True srv)}"
    by (rule coordinator_file.after_crash [OF TrueI assms(1-5)])
  moreover have "LoadPersistedState J (persisted_bytes J (co_round srv)) = Ok (co_round srv)"
    by (simp add: persisted_bytes_def LoadPersistedState_def assms(6))
  ultimately show ?thesis by (auto simp: persistLocked_def)
qed

text \<open>
  The directory is not synced: after a crash the old file may be back although the write returned nil.
  And a file named without a directory is prepared in the directory for temporary files: where that is
  another device, no write of it succeeds.
\<close>

lemma returned_write_may_be_lost:
  assumes "WriteFileAtomic io filename data perm d = (disks, err)"
  shows "crashed disks d"
proof -
  have "survives d d" by (auto simp: survives_def split: option.split)
  moreover have "d \<in> set disks" using assms by (auto simp: WriteFileAtomic_def split_def Let_def split: option.splits)
  ultimately show ?thesis by (auto simp: crashed_def)
qed

lemma path_Split_dir:
  assumes "CHR ''/'' \<notin> set b"
  shows "path_Split (a @ CHR ''/'' # b) = (a @ ''/'', b)"
proof -
  have "takeWhile (\<lambda>c. c \<noteq> CHR ''/'') (rev b @ CHR ''/'' # rev a) = rev b"
    using assms by (subst takeWhile_append2) auto
  then show ?thesis by (simp add: path_Split_def)
qed

lemma temp_other_device:
  assumes "WriteFileAtomic io filename data perm d = (disks, err)" and "CHR ''/'' \<notin> set filename"
    and "wc_TempDir io = a @ ''/''" and "\<forall>r\<in>set (wc_random io). CHR ''/'' \<notin> set r"
    and "wc_device io (wc_TempDir io) \<noteq> wc_device io []"
  shows "err \<noteq> None"
proof -
  have tw: "takeWhile (\<lambda>c. c \<noteq> CHR ''/'') (rev filename) = rev filename" using assms(2) by (auto simp: takeWhile_eq_all_conv)
  have f: "path_Split filename = ([], filename)" unfolding path_Split_def tw by simp
  let ?x = "fst (prefixAndSuffix filename)" and ?y = "snd (prefixAndSuffix filename)"
  have "set ?x \<subseteq> set filename" "set ?y \<subseteq> set filename"
    by (auto simp: prefixAndSuffix_def Let_def dest: in_set_takeD set_takeWhileD)
  then have s: "CHR ''/'' \<notin> set (?x @ r @ ?y)" if "r \<in> set (wc_random io)" for r using assms(2,4) that by auto
  have t: "fst (path_Split tmp) = wc_TempDir io" if "TempFile io [] filename d = Some tmp" for tmp
  proof -
    have "find (\<lambda>tmp. d tmp = None) (map (\<lambda>r. joinPath (wc_TempDir io) ?x @ r @ ?y) (take 10000 (wc_random io))) = Some tmp"
      using that by (simp add: TempFile_def split_def Let_def split: if_splits)
    from find_found(1) [OF this] obtain r where r: "r \<in> set (wc_random io)" "tmp = joinPath (wc_TempDir io) ?x @ r @ ?y"
      by (auto dest: in_set_takeD)
    then have "tmp = a @ CHR ''/'' # (?x @ r @ ?y)" by (simp add: joinPath_def assms(3))
    then show ?thesis using path_Split_dir [OF s [OF r(1)]] assms(3) by simp
  qed
  show ?thesis
  proof (cases "TempFile io [] filename d")
    case (Some tmp)
    then show ?thesis using assms(1,5) t [OF Some] f
      by (auto simp: WriteFileAtomic_def split_def Let_def call_rename_def first_error_def split: if_splits)
  qed (use assms(1) f in \<open>auto simp: WriteFileAtomic_def\<close>)
qed

section \<open>Properties\<close>

text \<open>
  C30: a state on disk is never torn. Whatever calls of the write fail and whenever the machine stops,
  the file holds all of the old content or all of the new. A write that returns nil leaves the new
  file and no temporary one; a write that returns an error leaves the old file, and nothing else if
  the temporary file could be removed.
\<close>

theorem atomic_write:
  assumes "WriteFileAtomic io filename data perm d = (disks, err)" and "random_law io"
    and "\<And>n. d filename = Some n \<Longrightarrow> n_synced n"
  shows "(crashed disks d' \<longrightarrow> content d' filename \<in> {content d filename, Some data}) \<and>
    (if err = None then last disks = d(filename \<mapsto> \<lparr>n_mode = perm, n_data = data, n_synced = True\<rparr>)
     else last disks filename = d filename \<and> (wc_remove io \<longrightarrow> last disks = d))"
  using crash_old_or_new [OF assms] write_outcome [OF assms(1,2)] by blast

section \<open>Witness\<close>

definition demo_calls :: write_calls where
  "demo_calls = \<lparr>wc_TempDir = ''/tmp'', wc_random = [''17'', ''42''], wc_device = (\<lambda>_. 0), wc_open = True, wc_write = None,
     wc_sync = True, wc_close = True, wc_chmod = True, wc_rename = True, wc_remove = True\<rparr>"

definition demo_disk :: disk where
  "demo_disk = [''p/state'' \<mapsto> \<lparr>n_mode = 384, n_data = [1], n_synced = True\<rparr>,
     ''p/state17'' \<mapsto> \<lparr>n_mode = 384, n_data = [], n_synced = False\<rparr>]"

theorem atomic_write_witness:
  "last (fst (WriteFileAtomic demo_calls ''p/state'' [2, 3] 384 demo_disk)) =
     demo_disk(''p/state'' \<mapsto> \<lparr>n_mode = 384, n_data = [2, 3], n_synced = True\<rparr>)"
proof -
  have "snd (WriteFileAtomic demo_calls ''p/state'' [2, 3] 384 demo_disk) = None"
    by (simp add: WriteFileAtomic_def TempFile_def path_Split_def prefixAndSuffix_def joinPath_def demo_calls_def demo_disk_def
        call_write_def call_sync_def call_chmod_def call_rename_def first_error_def Let_def)
  then have w: "WriteFileAtomic demo_calls ''p/state'' [2, 3] 384 demo_disk =
      (fst (WriteFileAtomic demo_calls ''p/state'' [2, 3] 384 demo_disk), None)" by (metis prod.collapse)
  have "random_law demo_calls" by (simp add: random_law_def demo_calls_def)
  then show ?thesis using atomic_write [OF w] by (simp add: demo_disk_def)
qed

end
