(* ===== verification/Logging.thy ===== *)
theory Logging
  imports Instances TomlLexer Decimal
begin

text \<open>
  The structured log (src/log, src/log/ansi, src/internal/alplog): levels and loggers, the text line
  of an entry and how its fields are read back from it, the directory with a file per day, and the
  handler the servers use. Times, JSON, the \<open>%q\<close> of fmt and base32 are parameters.
\<close>

section \<open>Levels\<close>

type_synonym Level = u32

abbreviation (input) PanicLevel :: Level where "PanicLevel \<equiv> 0"
abbreviation (input) FatalLevel :: Level where "FatalLevel \<equiv> 1"
abbreviation (input) ErrorLevel :: Level where "ErrorLevel \<equiv> 2"
abbreviation (input) WarnLevel :: Level where "WarnLevel \<equiv> 3"
abbreviation (input) InfoLevel :: Level where "InfoLevel \<equiv> 4"
abbreviation (input) DebugLevel :: Level where "DebugLevel \<equiv> 5"

definition Level_String :: "Level \<Rightarrow> string" where
  "Level_String level =
     (if level = DebugLevel then ''debug'' else if level = InfoLevel then ''info'' else if level = WarnLevel then ''warning''
      else if level = ErrorLevel then ''error'' else if level = FatalLevel then ''fatal'' else if level = PanicLevel then ''panic''
      else ''unknown'')"

text \<open>The icon of a debug line is a middle dot, two bytes of UTF-8.\<close>

definition Level_Icon :: "Level \<Rightarrow> string" where
  "Level_Icon level =
     (if level = DebugLevel then [char_of (194 :: nat), char_of (183 :: nat)] else if level = InfoLevel then '' ''
      else if level = WarnLevel then ''~'' else if level = ErrorLevel then ''!'' else if level = FatalLevel then ''*''
      else if level = PanicLevel then ''X'' else ''UNKNOWN'')"

section \<open>Colours\<close>

type_synonym Code = string

definition Bold :: Code where "Bold = ''1''"
definition Reverse :: Code where "Reverse = ''7''"

definition Foreground :: "nat \<Rightarrow> Code" where
  "Foreground color = ''38;5;'' @ show_nat color"

definition AllColors :: "Code list" where
  "AllColors = [''38;5;1'', ''38;5;2'', ''38;5;3'', ''38;5;4'', ''38;5;5'', ''38;5;6'', ''38;5;7'']"

definition Level_Color :: "Level \<Rightarrow> Code" where
  "Level_Color level =
     (if level = DebugLevel then ''38;5;7'' else if level = InfoLevel then ''38;5;6'' else if level = WarnLevel then ''38;5;3''
      else ''38;5;1'')"

fun joinCodes :: "Code list \<Rightarrow> string" where
  "joinCodes [] = []"
| "joinCodes [c] = c"
| "joinCodes (c # cs) = c @ '';'' @ joinCodes cs"

definition ansi_WriteString :: "string \<Rightarrow> Code list \<Rightarrow> string" where
  "ansi_WriteString str codes =
     (if codes = [] then str
      else char_of (27 :: nat) # ''['' @ joinCodes codes @ ''m'' @ str @ char_of (27 :: nat) # ''[0m'')"

section \<open>Loggers\<close>

text \<open>What a field holds: the cases the code tells apart, and any other value as fmt prints it.\<close>

datatype log_value = StringVal string | BytesVal bytes | Uint32Val u32 | ErrorVal string | OtherVal string

type_synonym Fields = "string \<rightharpoonup> log_value"

record log_time =
  tm_nano :: int
  tm_date :: "nat \<times> nat \<times> nat"

record Entry =
  en_Fields :: Fields
  en_Time :: log_time
  en_Level :: Level
  en_Message :: string

record 'h Logger =
  lg_EntryHandler :: "'h option"
  lg_Level :: Level
  lg_fields :: Fields

definition Logger_Clone :: "'h Logger \<Rightarrow> 'h Logger" where
  "Logger_Clone l = \<lparr>lg_EntryHandler = lg_EntryHandler l, lg_Level = lg_Level l, lg_fields = lg_fields l\<rparr>"

definition Logger_WithFields :: "'h Logger \<Rightarrow> Fields \<Rightarrow> 'h Logger" where
  "Logger_WithFields l kv = \<lparr>lg_EntryHandler = lg_EntryHandler l, lg_Level = lg_Level l, lg_fields = lg_fields l ++ kv\<rparr>"

text \<open>What a call hands to the handler, and how it ends.\<close>

datatype log_end = Returns | Exits | Panics string

definition Logger_fire :: "'h Logger \<Rightarrow> log_time \<Rightarrow> Level \<Rightarrow> string \<Rightarrow> ('h \<times> Entry) option" where
  "Logger_fire l now level msg =
     (case lg_EntryHandler l of None \<Rightarrow> None
      | Some h \<Rightarrow> Some (h, \<lparr>en_Fields = lg_fields l, en_Time = now, en_Level = level, en_Message = msg\<rparr>))"

definition Logger_Info :: "'h Logger \<Rightarrow> log_time \<Rightarrow> string \<Rightarrow> ('h \<times> Entry) option \<times> log_end" where
  "Logger_Info l now msg = (if lg_Level l \<ge> InfoLevel then Logger_fire l now InfoLevel msg else None, Returns)"

definition Logger_Error :: "'h Logger \<Rightarrow> log_time \<Rightarrow> string \<Rightarrow> ('h \<times> Entry) option \<times> log_end" where
  "Logger_Error l now msg = (if lg_Level l \<ge> ErrorLevel then Logger_fire l now ErrorLevel msg else None, Returns)"

definition Logger_Warn :: "'h Logger \<Rightarrow> log_time \<Rightarrow> string \<Rightarrow> ('h \<times> Entry) option \<times> log_end" where
  "Logger_Warn l now msg = (if lg_Level l \<ge> WarnLevel then Logger_fire l now WarnLevel msg else None, Returns)"

definition Logger_Fatal :: "'h Logger \<Rightarrow> log_time \<Rightarrow> string \<Rightarrow> ('h \<times> Entry) option \<times> log_end" where
  "Logger_Fatal l now msg = (if lg_Level l \<ge> FatalLevel then Logger_fire l now FatalLevel msg else None, Exits)"

definition Logger_Debug :: "'h Logger \<Rightarrow> log_time \<Rightarrow> string \<Rightarrow> ('h \<times> Entry) option \<times> log_end" where
  "Logger_Debug l now msg = (if lg_Level l \<ge> DebugLevel then Logger_fire l now DebugLevel msg else None, Returns)"

definition Logger_Panic :: "'h Logger \<Rightarrow> log_time \<Rightarrow> string \<Rightarrow> ('h \<times> Entry) option \<times> log_end" where
  "Logger_Panic l now msg = (if lg_Level l \<ge> PanicLevel then Logger_fire l now PanicLevel msg else None, Panics msg)"

text \<open>A logger whose handler is nil only loses lines; \<open>Fatal\<close> and \<open>Panic\<close> end as ever.\<close>

lemma fatal_ends: "snd (Logger_Fatal l now msg) = Exits" "snd (Logger_Panic l now msg) = Panics msg"
  by (simp_all add: Logger_Fatal_def Logger_Panic_def)

lemma levels_nested:
  assumes "fst (Logger_Info l now msg) \<noteq> None"
  shows "fst (Logger_Warn l now msg) \<noteq> None" and "fst (Logger_Error l now msg) \<noteq> None"
proof -
  have "InfoLevel \<le> lg_Level l" using assms by (auto simp: Logger_Info_def split: if_splits)
  then have "WarnLevel \<le> lg_Level l" "ErrorLevel \<le> lg_Level l" by (auto intro: order_trans [rotated])
  moreover have "lg_EntryHandler l \<noteq> None" using assms by (auto simp: Logger_Info_def Logger_fire_def split: if_splits option.splits)
  ultimately show "fst (Logger_Warn l now msg) \<noteq> None" "fst (Logger_Error l now msg) \<noteq> None"
    by (auto simp: Logger_Warn_def Logger_Error_def Logger_fire_def)
qed

section \<open>The line of an entry\<close>

text \<open>
  base32, the \<open>%q\<close> verb, \<open>Time.Format\<close> with and without milliseconds, and the order in which a loop
  yields the keys of a map.
\<close>

record log_env =
  le_base32 :: "bytes \<Rightarrow> string"
  le_quote :: "string \<Rightarrow> string"
  le_millis :: "log_time \<Rightarrow> string"
  le_seconds :: "log_time \<Rightarrow> string"
  le_order :: "Fields \<Rightarrow> string list"

definition order_ok :: "log_env \<Rightarrow> bool" where
  "order_ok L \<longleftrightarrow> (\<forall>d. finite (dom d) \<longrightarrow> distinct (le_order L d) \<and> set (le_order L d) = dom d)"

definition needsQuotes :: "string \<Rightarrow> bool" where
  "needsQuotes str \<longleftrightarrow> str = [] \<or>
     (\<exists>c\<in>set str. c \<in> {CHR '' '', CHR 0x5C, CHR 0x22, CHR 0x09, CHR 0x0D, CHR 0x0A})"

fun field_text :: "log_env \<Rightarrow> log_value \<Rightarrow> string" where
  "field_text L (StringVal s) = s"
| "field_text L (BytesVal b) = le_base32 L b"
| "field_text L (Uint32Val n) = show_nat (unat n)"
| "field_text L (ErrorVal s) = s"
| "field_text L (OtherVal s) = s"

definition logfmt_value :: "log_env \<Rightarrow> string \<Rightarrow> string" where
  "logfmt_value L str = (if needsQuotes str then le_quote L str else str)"

definition logfmt_field :: "log_env \<Rightarrow> Code list \<Rightarrow> string \<times> string \<Rightarrow> string" where
  "logfmt_field L keyColors kv = '' '' @ ansi_WriteString (fst kv) keyColors @ ''='' @ logfmt_value L (snd kv)"

definition Logfmt :: "log_env \<Rightarrow> Code list \<Rightarrow> Fields \<Rightarrow> string" where
  "Logfmt L keyColors data =
     concat (map (\<lambda>k. logfmt_field L keyColors (k, field_text L (the (data k)))) (sort (le_order L data)))"

text \<open>The number of runes, as \<open>%-44s\<close> counts them.\<close>

function RuneCount :: "string \<Rightarrow> nat" where
  "RuneCount s = (if s = [] then 0 else Suc (RuneCount (drop (snd (decode_rune s)) s)))"
  by auto
termination
proof (relation "measure length")
  fix s :: string
  assume "s \<noteq> []"
  then show "(drop (snd (decode_rune s)) s, s) \<in> measure length"
    using decode_rune_width [of s "fst (decode_rune s)" "snd (decode_rune s)"] by simp
qed simp

declare RuneCount.simps [simp del]

definition pad_right :: "nat \<Rightarrow> string \<Rightarrow> string" where
  "pad_right n s = s @ replicate (n - RuneCount s) (CHR '' '')"

definition log_prettyPrint :: "log_env \<Rightarrow> bool \<Rightarrow> Entry \<Rightarrow> string" where
  "log_prettyPrint L DisableColors e =
     (let color = Level_Color (en_Level e); time = le_millis L (en_Time e) in
      (if en_Level e = InfoLevel \<or> DisableColors then time else ansi_WriteString time [color, Bold]) @
      '' '' @ Level_Icon (en_Level e) @ '' '' @ pad_right 44 (en_Message e) @ '' '' @
      Logfmt L (if DisableColors then [] else [color]) (en_Fields e) @ [CHR 0x0A])"

text \<open>The line of the servers' log: service and round in front, then tag, call and message.\<close>

definition string_field :: "Fields \<Rightarrow> string \<Rightarrow> string option" where
  "string_field data k = (case data k of Some (StringVal s) \<Rightarrow> Some s | _ \<Rightarrow> None)"

definition uint32_field :: "Fields \<Rightarrow> string \<Rightarrow> u32 option" where
  "uint32_field data k = (case data k of Some (Uint32Val n) \<Rightarrow> Some n | _ \<Rightarrow> None)"

definition pad_zero :: "nat \<Rightarrow> nat \<Rightarrow> string" where
  "pad_zero w n = replicate (w - length (show_nat n)) (CHR ''0'') @ show_nat n"

definition round_prefix :: "Fields \<Rightarrow> string \<times> Fields" where
  "round_prefix data =
     (case (string_field data ''service'', uint32_field data ''round'') of
        (Some service, Some round) \<Rightarrow>
          ((if service = ''AddFriend''
            then ansi_WriteString (pad_zero 5 (unat round)) [AllColors ! (unat round mod length AllColors), Reverse]
            else ansi_WriteString (pad_zero 5 (unat round)) [AllColors ! ((unat round + length AllColors div 2) mod length AllColors)])
           @ ''  '', data(''round'' := None, ''service'' := None))
      | _ \<Rightarrow> ('''', data))"

definition tag_prefix :: "string \<Rightarrow> Fields \<Rightarrow> string \<times> Fields" where
  "tag_prefix k data = (case string_field data k of Some s \<Rightarrow> (s @ '': '', data(k := None)) | None \<Rightarrow> ('''', data))"

definition alplog_prettyPrint :: "log_env \<Rightarrow> Entry \<Rightarrow> string" where
  "alplog_prettyPrint L e =
     (let color = Level_Color (en_Level e); time = le_seconds L (en_Time e);
          (round, data1) = round_prefix (en_Fields e);
          (tag, data2) = tag_prefix ''tag'' data1;
          (rpc, data3) = tag_prefix ''rpc'' data2 in
      (if en_Level e = InfoLevel then time else ansi_WriteString time [color, Bold]) @
      '' '' @ Level_Icon (en_Level e) @ '' '' @ round @ pad_right 42 (tag @ rpc @ en_Message e) @ '' '' @
      Logfmt L [color] data3 @ [CHR 0x0A])"

section \<open>Reading a line back\<close>

text \<open>The fields of an uncoloured line; \<open>unquote\<close> takes a quoted string off the front of a text.\<close>

fun read_logfmt :: "(string \<Rightarrow> (string \<times> string) option) \<Rightarrow> nat \<Rightarrow> string \<Rightarrow> (string \<times> string) list option" where
  "read_logfmt unquote 0 s = None"
| "read_logfmt unquote (Suc n) [] = Some []"
| "read_logfmt unquote (Suc n) (c # s) =
     (let key = takeWhile (\<lambda>c. c \<noteq> CHR ''='') s; val = drop (Suc (length key)) s in
      if c \<noteq> CHR '' '' then None
      else (case (if val \<noteq> [] \<and> hd val = CHR 0x22 then unquote val
                  else Some (takeWhile (\<lambda>c. c \<noteq> CHR '' '') val, dropWhile (\<lambda>c. c \<noteq> CHR '' '') val)) of
              None \<Rightarrow> None
            | Some (v, rest) \<Rightarrow> map_option ((#) (key, v)) (read_logfmt unquote n rest)))"

definition quote_law :: "log_env \<Rightarrow> (string \<Rightarrow> (string \<times> string) option) \<Rightarrow> bool" where
  "quote_law L unquote \<longleftrightarrow> (\<forall>s rest. le_quote L s \<noteq> [] \<and> hd (le_quote L s) = CHR 0x22 \<and> unquote (le_quote L s @ rest) = Some (s, rest))"

lemma read_step:
  assumes "CHR ''='' \<notin> set k"
  shows "read_logfmt unquote (Suc n) (CHR '' '' # k @ CHR ''='' # val) =
    (case (if val \<noteq> [] \<and> hd val = CHR 0x22 then unquote val
           else Some (takeWhile (\<lambda>c. c \<noteq> CHR '' '') val, dropWhile (\<lambda>c. c \<noteq> CHR '' '') val)) of
       None \<Rightarrow> None | Some (v, rest) \<Rightarrow> map_option ((#) (k, v)) (read_logfmt unquote n rest))"
proof -
  have k: "takeWhile (\<lambda>c. c \<noteq> CHR ''='') (k @ CHR ''='' # val) = k" using assms by (subst takeWhile_append2) auto
  have d: "drop (Suc (length k)) (k @ CHR ''='' # val) = val" by simp
  show ?thesis unfolding read_logfmt.simps Let_def k d by simp
qed

lemma read_field:
  assumes "quote_law L unquote" and "CHR ''='' \<notin> set k" and "rest = [] \<or> hd rest = CHR '' ''"
  shows "read_logfmt unquote (Suc n) (logfmt_field L [] (k, v) @ rest) = map_option ((#) (k, v)) (read_logfmt unquote n rest)"
proof -
  have e: "logfmt_field L [] (k, v) @ rest = CHR '' '' # k @ CHR ''='' # logfmt_value L v @ rest"
    by (simp add: logfmt_field_def ansi_WriteString_def)
  show ?thesis
  proof (cases "needsQuotes v")
    case True
    then have "logfmt_value L v = le_quote L v" by (simp add: logfmt_value_def)
    then show ?thesis using assms(1) unfolding e read_step [OF assms(2)] by (simp add: quote_law_def)
  next
    case False
    then have v: "logfmt_value L v = v" "v \<noteq> []" "\<And>c. c \<in> set v \<Longrightarrow> c \<noteq> CHR '' ''" "hd v \<noteq> CHR 0x22"
      by (auto simp: logfmt_value_def needsQuotes_def dest: hd_in_set)
    have "takeWhile (\<lambda>c. c \<noteq> CHR '' '') (v @ rest) = v" "dropWhile (\<lambda>c. c \<noteq> CHR '' '') (v @ rest) = rest"
      using v(3) assms(3) by (cases rest; auto simp: takeWhile_append dropWhile_append)+
    then show ?thesis using v(2,4) unfolding e read_step [OF assms(2)] v(1) by simp
  qed
qed

lemma read_fields:
  assumes "quote_law L unquote" and "\<And>k v. (k, v) \<in> set kvs \<Longrightarrow> CHR ''='' \<notin> set k" and "length kvs < n"
  shows "read_logfmt unquote n (concat (map (logfmt_field L []) kvs)) = Some kvs"
  using assms(2,3)
proof (induction kvs arbitrary: n)
  case Nil
  then show ?case by (cases n) simp_all
next
  case (Cons kv kvs)
  obtain k v m where kv: "kv = (k, v)" "n = Suc m" using Cons.prems(2) by (cases kv; cases n) auto
  have "concat (map (logfmt_field L []) kvs) = [] \<or> hd (concat (map (logfmt_field L []) kvs)) = CHR '' ''"
    by (cases kvs) (simp_all add: logfmt_field_def)
  from read_field [OF assms(1) _ this, of k m v] show ?case
    using Cons.prems Cons.IH [of m] kv by force
qed

text \<open>
  A line without colours names every field, in the order of the keys whatever the order of the map,
  and its text can be told from it when no key contains an equal sign.
\<close>

theorem logfmt_read_back:
  assumes "quote_law L unquote" and "order_ok L" and "finite (dom data)" and "\<And>k. k \<in> dom data \<Longrightarrow> CHR ''='' \<notin> set k"
  shows "read_logfmt unquote (Suc (card (dom data))) (Logfmt L [] data) =
    Some (map (\<lambda>k. (k, field_text L (the (data k)))) (sorted_list_of_set (dom data)))"
proof -
  have o: "sort (le_order L data) = sorted_list_of_set (dom data)"
    using assms(2,3) unfolding order_ok_def by (metis sorted_list_of_set_sort_remdups distinct_remdups_id)
  let ?kvs = "map (\<lambda>k. (k, field_text L (the (data k)))) (sorted_list_of_set (dom data))"
  have "Logfmt L [] data = concat (map (logfmt_field L []) ?kvs)" by (simp add: Logfmt_def o comp_def)
  moreover have "read_logfmt unquote (Suc (card (dom data))) (concat (map (logfmt_field L []) ?kvs)) = Some ?kvs"
    by (rule read_fields [OF assms(1)]) (use assms(3,4) in auto)
  ultimately show ?thesis by simp
qed

section \<open>A file for every day\<close>

datatype json_value = JTime log_time | JText string | JInt int | JValue log_value

text \<open>The map that is encoded: a field of the entry replaces the time, level or message of its name.\<close>

definition entry_json :: "Entry \<Rightarrow> string \<rightharpoonup> json_value" where
  "entry_json e =
     (let m = [''time'' \<mapsto> JTime (en_Time e), ''level'' \<mapsto> JText (Level_String (en_Level e)), ''unixnano'' \<mapsto> JInt (tm_nano (en_Time e))];
          m' = (if en_Message e \<noteq> [] then m(''msg'' \<mapsto> JText (en_Message e)) else m) in
      m' ++ (\<lambda>k. map_option (\<lambda>v. case v of ErrorVal s \<Rightarrow> JText s | v \<Rightarrow> JValue v) (en_Fields e k)))"

text \<open>
  An open or closed file is held by its path. The answers of one call: the encoded entry, whether the
  old file closes and the new one opens, and a write that fails after some bytes.
\<close>

record output_dir =
  od_Dir :: string
  od_currPath :: string
  od_currDate :: log_time
  od_closed :: bool

record dir_calls =
  dc_json :: "(string \<rightharpoonup> json_value) \<Rightarrow> string option"
  dc_close :: bool
  dc_open :: bool
  dc_write :: "nat option"

datatype dir_error = JsonError | WriteError string | CloseError string | OpenError string

type_synonym logs = "string \<rightharpoonup> string"

fun date_string :: "nat \<times> nat \<times> nat \<Rightarrow> string" where
  "date_string (y, m, d) = pad_zero 4 y @ ''-'' @ pad_zero 2 m @ ''-'' @ pad_zero 2 d"

definition day_path :: "string \<Rightarrow> Entry \<Rightarrow> string" where
  "day_path dir e = dir @ ''/'' @ date_string (tm_date (en_Time e)) @ ''.log''"

definition append_log :: "logs \<Rightarrow> string \<Rightarrow> string \<Rightarrow> logs" where
  "append_log fs path s = fs(path \<mapsto> (case fs path of None \<Rightarrow> s | Some old \<Rightarrow> old @ s))"

text \<open>\<open>buf.WriteTo(h.currFile)\<close>; a closed file takes nothing.\<close>

definition write_current :: "dir_calls \<Rightarrow> string \<Rightarrow> output_dir \<times> logs \<Rightarrow> (output_dir \<times> logs) \<times> dir_error option" where
  "write_current io s st =
     (case st of (h, fs) \<Rightarrow>
        if od_closed h then ((h, fs), Some (WriteError (od_currPath h)))
        else (case dc_write io of
                None \<Rightarrow> ((h, append_log fs (od_currPath h) s), None)
              | Some n \<Rightarrow> ((h, append_log fs (od_currPath h) (take n s)), Some (WriteError (od_currPath h)))))"

definition open_day :: "dir_calls \<Rightarrow> Entry \<Rightarrow> string \<Rightarrow> output_dir \<times> logs \<Rightarrow> (output_dir \<times> logs) \<times> dir_error option" where
  "open_day io e s st =
     (case st of (h, fs) \<Rightarrow>
        let path = day_path (od_Dir h) e in
        if \<not> dc_open io then ((h, fs), Some (OpenError path))
        else write_current io s (h\<lparr>od_currPath := path, od_currDate := en_Time e, od_closed := False\<rparr>, append_log fs path ''''))"

definition stays :: "output_dir \<Rightarrow> Entry \<Rightarrow> bool" where
  "stays h e \<longleftrightarrow> tm_date (en_Time e) = tm_date (od_currDate h) \<or> tm_nano (en_Time e) < tm_nano (od_currDate h)"

definition persistEntry :: "dir_calls \<Rightarrow> Entry \<Rightarrow> output_dir \<times> logs \<Rightarrow> (output_dir \<times> logs) \<times> dir_error option" where
  "persistEntry io e st =
     (case dc_json io (entry_json e) of
        None \<Rightarrow> (st, Some JsonError)
      | Some s \<Rightarrow>
          (let h = fst st in
           if od_currPath h = '''' then open_day io e s st
           else if stays h e then write_current io s st
           else if od_closed h then (st, Some (CloseError (od_currPath h)))
           else if \<not> dc_close io then ((h\<lparr>od_closed := True\<rparr>, snd st), Some (CloseError (od_currPath h)))
           else open_day io e s (h\<lparr>od_closed := True\<rparr>, snd st)))"

text \<open>\<open>Fire\<close> reports an error to standard error and drops the entry.\<close>

definition dir_Fire :: "dir_calls \<times> Entry \<Rightarrow> output_dir \<times> logs \<Rightarrow> output_dir \<times> logs" where
  "dir_Fire ev st = fst (persistEntry (fst ev) (snd ev) st)"

definition dir_run :: "(dir_calls \<times> Entry) list \<Rightarrow> output_dir \<times> logs \<Rightarrow> output_dir \<times> logs" where
  "dir_run evs st = fold dir_Fire evs st"

text \<open>
  The handler of the servers: entries go to the directory, and those of level error and worse also to
  standard error; without a directory all go to standard error.
\<close>

record production =
  po_dir :: "output_dir option"
  po_stderr :: "string list"

definition NewProductionOutput :: "string \<Rightarrow> bool \<Rightarrow> production \<times> bool" where
  "NewProductionOutput logsDir made =
     (if logsDir \<noteq> '''' \<and> made
      then (\<lparr>po_dir = Some \<lparr>od_Dir = logsDir, od_currPath = '''', od_currDate = \<lparr>tm_nano = 0, tm_date = (1, 1, 1)\<rparr>, od_closed = False\<rparr>,
             po_stderr = []\<rparr>, True)
      else (\<lparr>po_dir = None, po_stderr = []\<rparr>, logsDir = ''''))"

definition production_Fire :: "log_env \<Rightarrow> dir_calls \<Rightarrow> Entry \<Rightarrow> production \<times> logs \<Rightarrow> production \<times> logs" where
  "production_Fire L io e st =
     (case st of (p, fs) \<Rightarrow>
        (case po_dir p of
           Some h \<Rightarrow>
             (case dir_Fire (io, e) (h, fs) of
                (h', fs') \<Rightarrow>
                  (p\<lparr>po_dir := Some h', po_stderr := po_stderr p @ (if en_Level e > ErrorLevel then [] else [alplog_prettyPrint L e])\<rparr>, fs'))
         | None \<Rightarrow> (p\<lparr>po_stderr := po_stderr p @ [alplog_prettyPrint L e]\<rparr>, fs)))"

section \<open>What the files hold\<close>

text \<open>The reference: the time that names the file of each entry, when every call succeeds.\<close>

fun day_of :: "log_time option \<Rightarrow> Entry list \<Rightarrow> (log_time \<times> Entry) list" where
  "day_of cur [] = []"
| "day_of cur (e # es) =
     (let t = (case cur of None \<Rightarrow> en_Time e
               | Some c \<Rightarrow> if tm_date (en_Time e) = tm_date c \<or> tm_nano (en_Time e) < tm_nano c then c else en_Time e)
      in (t, e) # day_of (Some t) es)"

definition day_file :: "string \<Rightarrow> log_time \<Rightarrow> string" where
  "day_file dir t = dir @ ''/'' @ date_string (tm_date t) @ ''.log''"

definition lines_of :: "((string \<rightharpoonup> json_value) \<Rightarrow> string option) \<Rightarrow> string \<Rightarrow> string \<Rightarrow> (log_time \<times> Entry) list \<Rightarrow> string" where
  "lines_of enc dir path es = concat (map (\<lambda>(t, e). if day_file dir t = path then the (enc (entry_json e)) else '''') es)"

definition log_text :: "logs \<Rightarrow> string \<Rightarrow> string" where
  "log_text fs path = (case fs path of None \<Rightarrow> '''' | Some s \<Rightarrow> s)"

lemma append_text [simp]: "log_text (append_log fs p s) path = log_text fs path @ (if p = path then s else '''')"
  by (simp add: log_text_def append_log_def split: option.split)

definition calls_ok :: "((string \<rightharpoonup> json_value) \<Rightarrow> string option) \<Rightarrow> dir_calls \<Rightarrow> bool" where
  "calls_ok enc io \<longleftrightarrow> dc_json io = enc \<and> dc_close io \<and> dc_open io \<and> dc_write io = None"

definition cur_time :: "output_dir \<Rightarrow> log_time option" where
  "cur_time h = (if od_currPath h = '''' then None else Some (od_currDate h))"

definition dir_ok :: "output_dir \<Rightarrow> bool" where
  "dir_ok h \<longleftrightarrow> od_currPath h = '''' \<or> \<not> od_closed h \<and> od_currPath h = day_file (od_Dir h) (od_currDate h)"

lemma persist_one:
  assumes "calls_ok enc io" and "enc (entry_json e) = Some s" and "dir_ok h" and "day_of (cur_time h) [e] = [(t, e)]"
    and "persistEntry io e (h, fs) = ((h', fs'), err)"
  shows "err = None" and "dir_ok h'" and "od_Dir h' = od_Dir h" and "cur_time h' = Some t"
    and "log_text fs' path = log_text fs path @ (if day_file (od_Dir h) t = path then s else '''')"
  using assms
  by (auto simp: persistEntry_def calls_ok_def open_day_def write_current_def day_path_def day_file_def dir_ok_def cur_time_def
      stays_def Let_def split: if_splits)

text \<open>
  While every call succeeds no entry is lost: after a run each file has grown by the lines of exactly
  the entries of its day, in order; an entry older than the current file's first goes to that file.
\<close>

theorem log_days:
  assumes "\<And>io e. (io, e) \<in> set evs \<Longrightarrow> calls_ok enc io \<and> enc (entry_json e) \<noteq> None" and "dir_ok h"
    and "dir_run evs (h, fs) = (h', fs')"
  shows "log_text fs' path = log_text fs path @ lines_of enc (od_Dir h) path (day_of (cur_time h) (map snd evs))"
  using assms
proof (induction evs arbitrary: h fs)
  case Nil
  then show ?case by (simp add: dir_run_def lines_of_def)
next
  case (Cons ev evs)
  obtain io e where ev: "ev = (io, e)" by (cases ev)
  obtain s where s: "enc (entry_json e) = Some s" "calls_ok enc io" using Cons.prems(1) [of io e] ev by auto
  obtain t where t: "day_of (cur_time h) [e] = [(t, e)]" by (simp add: Let_def)
  then have d: "day_of (cur_time h) (e # es) = (t, e) # day_of (Some t) es" for es by (simp add: Let_def)
  obtain h1 fs1 err where p: "persistEntry io e (h, fs) = ((h1, fs1), err)" by (metis prod.collapse)
  note one = persist_one [OF s(2,1) Cons.prems(2) t p]
  have "dir_run evs (h1, fs1) = (h', fs')" using Cons.prems(3) by (simp add: dir_run_def dir_Fire_def ev p)
  then have "log_text fs' path = log_text fs1 path @ lines_of enc (od_Dir h1) path (day_of (cur_time h1) (map snd evs))"
    using Cons.prems(1) one(2) by (intro Cons.IH) auto
  then show ?case using d s(1) by (simp add: ev one(3-5) lines_of_def)
qed

text \<open>
  A day that cannot be opened is never recovered from: the old file is closed and still the current
  one, so that entries of its day are written to a closed file and those of any other fail to close
  it. From then on every entry is dropped, until the process restarts.
\<close>

theorem log_stops:
  assumes "od_currPath h \<noteq> ''''" and "od_closed h"
  shows "dir_run evs (h, fs) = (h, fs)"
proof (induction evs)
  case Nil
  then show ?case by (simp add: dir_run_def)
next
  case (Cons ev evs)
  have "dir_Fire ev (h, fs) = (h, fs)"
    using assms by (auto simp: dir_Fire_def persistEntry_def write_current_def Let_def split: option.split)
  then show ?case using Cons by (simp add: dir_run_def)
qed

lemma log_stops_reached:
  assumes "od_currPath h \<noteq> ''''" and "\<not> od_closed h" and "\<not> stays h e" and "\<not> dc_open io"
    and "dc_json io (entry_json e) \<noteq> None"
  shows "dir_run ((io, e) # evs) (h, fs) = (h\<lparr>od_closed := True\<rparr>, fs)"
proof -
  have "dir_Fire (io, e) (h, fs) = (h\<lparr>od_closed := True\<rparr>, fs)"
    using assms by (auto simp: dir_Fire_def persistEntry_def open_day_def Let_def)
  then show ?thesis using log_stops [of "h\<lparr>od_closed := True\<rparr>" evs fs] assms(1) by (simp add: dir_run_def)
qed

end
