(* ===== verification/Commands.thy ===== *)
theory Commands
  imports ConfigServer Coordinator PkgServer MixServer
begin

text \<open>
  The commands that start the servers (src/cmd): the question before a file is overwritten, the first
  configuration files, what the key generator's command checks of its file, the set-up of the
  coordinator's two services and of the configuration server. Files are a map from paths to contents;
  a fatal error ends the process with the files as they are.
\<close>

section \<open>Overwriting\<close>

datatype stat_result = Missing | Present | StatFailed

text \<open>What the terminal gives to one read of three bytes; None is an error, such as the end of input.\<close>

definition Overwrite :: "stat_result \<Rightarrow> bytes option \<Rightarrow> bool option" where
  "Overwrite stat typed =
     (case stat of
        Missing \<Rightarrow> Some True
      | StatFailed \<Rightarrow> None
      | Present \<Rightarrow> (case typed of None \<Rightarrow> None
          | Some yesno \<Rightarrow> if yesno = [] then Some False
              else Some (yesno ! 0 = 0x79 \<or> yesno ! 0 = 0x59)))"

type_synonym cmd_files = "string \<rightharpoonup> bytes"

definition stat_file :: "cmd_files \<Rightarrow> string \<Rightarrow> stat_result" where
  "stat_file fs path = (if fs path = None then Missing else Present)"

section \<open>Configuration files\<close>

text \<open>
  The fields of the commands' files. The text of a file is a template for the text/template package
  and is read back by the TOML decoder; both are the parameters \<open>enc\<close> and \<open>dec\<close>. Durations are
  nanoseconds.
\<close>

record key_conf =
  kc_PublicKey :: bytes
  kc_PrivateKey :: bytes
  kc_ListenAddr :: string

record coordinator_conf = key_conf +
  cc_AddFriendDelay :: int
  cc_DialingDelay :: int
  cc_MixWait :: int
  cc_PKGWait :: int
  cc_AddFriendMailboxes :: u32
  cc_DialingMailboxes :: u32

text \<open>The PKG server's, the mixer's and the CDN's new files differ in the address; the mixer has its noise too.\<close>

record mixer_conf = key_conf +
  mc_AddFriendNoise :: "nat \<times> nat"
  mc_DialingNoise :: "nat \<times> nat"

definition pkg_newConf :: "bytes \<times> bytes \<Rightarrow> key_conf" where
  "pkg_newConf keys = \<lparr>kc_PublicKey = fst keys, kc_PrivateKey = snd keys, kc_ListenAddr = ''0.0.0.0:80''\<rparr>"

definition cdn_newConf :: "bytes \<times> bytes \<Rightarrow> key_conf" where
  "cdn_newConf keys = \<lparr>kc_PublicKey = fst keys, kc_PrivateKey = snd keys, kc_ListenAddr = ''0.0.0.0:8080''\<rparr>"

definition mixer_newConf :: "bytes \<times> bytes \<Rightarrow> mixer_conf" where
  "mixer_newConf keys = \<lparr>kc_PublicKey = fst keys, kc_PrivateKey = snd keys, kc_ListenAddr = ''0.0.0.0:28000'',
     mc_AddFriendNoise = (100, 3), mc_DialingNoise = (100, 3)\<rparr>"

definition coordinator_newConf :: "bytes \<times> bytes \<Rightarrow> coordinator_conf" where
  "coordinator_newConf keys = \<lparr>kc_PublicKey = fst keys, kc_PrivateKey = snd keys, kc_ListenAddr = ''0.0.0.0:8000'',
     cc_AddFriendDelay = 10 * 10 ^ 9, cc_DialingDelay = 5 * 10 ^ 9, cc_MixWait = 2 * 10 ^ 9, cc_PKGWait = 5 * 10 ^ 9,
     cc_AddFriendMailboxes = 1, cc_DialingMailboxes = 1\<rparr>"

text \<open>\<open>-init\<close> of the PKG server, the mixer and the CDN; the flag says whether the process went on.\<close>

definition init_conf :: "('c \<Rightarrow> bytes) \<Rightarrow> 'c \<Rightarrow> string \<Rightarrow> bytes option \<Rightarrow> cmd_files \<Rightarrow> cmd_files \<times> bool" where
  "init_conf enc conf path typed fs =
     (case Overwrite (stat_file fs path) typed of
        None \<Rightarrow> (fs, False) | Some False \<Rightarrow> (fs, True) | Some True \<Rightarrow> (fs(path \<mapsto> enc conf), True))"

datatype conf_error = NoListenAddress | InvalidPrivateKey | KeyMismatch

definition checkConfig :: "key_conf \<Rightarrow> (conf_error, unit) outcome" where
  "checkConfig conf =
     (if kc_ListenAddr conf = '''' then Err NoListenAddress
      else if length (kc_PrivateKey conf) \<noteq> 64 then Err InvalidPrivateKey
      else if drop 32 (kc_PrivateKey conf) \<noteq> kc_PublicKey conf then Err KeyMismatch
      else Ok ())"

lemma new_conf_checked:
  assumes "length (snd keys) = 64" and "fst keys = drop 32 (snd keys)"
  shows "checkConfig (pkg_newConf keys) = Ok ()"
  using assms by (simp add: checkConfig_def pkg_newConf_def)

section \<open>The coordinator\<close>

definition service_path :: "string \<Rightarrow> string" where
  "service_path service = (if service = ''AddFriend'' then ''addfriend-coordinator-state'' else ''dialing-coordinator-state'')"

text \<open>A new server has round zero; \<open>ok\<close> tells whether its file could be written.\<close>

definition initService :: "co_json \<Rightarrow> string \<Rightarrow> bytes option \<Rightarrow> bool \<Rightarrow> cmd_files \<Rightarrow> cmd_files \<times> bool" where
  "initService J service typed ok fs =
     (case Overwrite (stat_file fs (service_path service)) typed of
        None \<Rightarrow> (fs, False)
      | Some False \<Rightarrow> (fs, True)
      | Some True \<Rightarrow> if ok then (fs(service_path service \<mapsto> persisted_bytes J 0), True) else (fs, False))"

definition initCoordinator ::
  "co_json \<Rightarrow> (coordinator_conf \<Rightarrow> bytes) \<Rightarrow> bytes \<times> bytes \<Rightarrow> bytes option \<times> bytes option \<times> bytes option \<Rightarrow> bool \<times> bool \<Rightarrow>
   cmd_files \<Rightarrow> cmd_files \<times> bool" where
  "initCoordinator J enc keys typed ok fs =
     (let (t0, t1, t2) = typed in
      case init_conf enc (coordinator_newConf keys) ''coordinator.conf'' t0 fs of
        (fs0, False) \<Rightarrow> (fs0, False)
      | (fs0, True) \<Rightarrow>
          (case initService J ''AddFriend'' t1 (fst ok) fs0 of
             (fs1, False) \<Rightarrow> (fs1, False) | (fs1, True) \<Rightarrow> initService J ''Dialing'' t2 (snd ok) fs1))"

text \<open>The server of a service as the command makes it, before its file is loaded.\<close>

definition service_server :: "cmd_files \<Rightarrow> string \<Rightarrow> u32 \<Rightarrow> 'pk coordinator" where
  "service_server fs service mailboxes =
     \<lparr>co_Service = service, co_NumMailboxes = mailboxes, co_round = 0, co_onions = [], co_closed = False,
      co_latestMixRound = None, co_latestPKGRound = None, co_pos = AtTop, co_file = fs (service_path service)\<rparr>"

text \<open>
  The run of the command up to its listener: a service without mailboxes is left out, and no loop
  starts before both files were loaded. None is a fatal error.
\<close>

definition load_service ::
  "co_json \<Rightarrow> cmd_files \<Rightarrow> string \<Rightarrow> u32 \<Rightarrow> 'pk coordinator option option" where
  "load_service J fs service mailboxes =
     (if mailboxes = 0 then Some None
      else (case start_server J (service_server fs service mailboxes) of Ok srv \<Rightarrow> Some (Some srv) | _ \<Rightarrow> None))"

definition coordinator_main ::
  "co_json \<Rightarrow> (bytes \<Rightarrow> coordinator_conf option) \<Rightarrow> cmd_files \<Rightarrow> ('pk coordinator option \<times> 'pk coordinator option) option" where
  "coordinator_main J dec fs =
     Option.bind (fs ''coordinator.conf'') (\<lambda>data. Option.bind (dec data) (\<lambda>conf.
       Option.bind (load_service J fs ''AddFriend'' (cc_AddFriendMailboxes conf)) (\<lambda>af.
         Option.bind (load_service J fs ''Dialing'' (cc_DialingMailboxes conf)) (\<lambda>dial. Some (af, dial)))))"

lemma Overwrite_missing [simp]: "Overwrite Missing typed = Some True"
  by (simp add: Overwrite_def)

lemma stat_simps [simp]: "stat_file fs p = Missing \<longleftrightarrow> fs p = None" "stat_file fs p = Present \<longleftrightarrow> fs p \<noteq> None"
  by (simp_all add: stat_file_def)

lemma service_paths: "service_path ''AddFriend'' \<noteq> service_path ''Dialing''" "service_path s \<noteq> ''coordinator.conf''"
  by (simp_all add: service_path_def)

text \<open>A fresh \<open>-init\<close> gives files from which both services start, in round zero.\<close>

theorem coordinator_init_starts:
  assumes "fs ''coordinator.conf'' = None" and "fs (service_path ''AddFriend'') = None" and "fs (service_path ''Dialing'') = None"
    and "cj_dec J (cj_enc J 0) = Some 0" and "dec (enc (coordinator_newConf keys)) = Some (coordinator_newConf keys)"
    and "initCoordinator J enc keys typed (True, True) fs = (fs', going)"
  shows "going \<and> (\<exists>(af :: 'pk coordinator) (dial :: 'pk coordinator). coordinator_main J dec fs' = Some (Some af, Some dial) \<and>
    co_Service af = ''AddFriend'' \<and> co_Service dial = ''Dialing'' \<and> co_round af = 0 \<and> co_round dial = 0)"
proof -
  have p: "service_path ''AddFriend'' \<noteq> service_path ''Dialing''" "service_path ''AddFriend'' \<noteq> ''coordinator.conf''"
    "service_path ''Dialing'' \<noteq> ''coordinator.conf''" using service_paths by auto
  have fs': "going" "fs' = fs(''coordinator.conf'' \<mapsto> enc (coordinator_newConf keys), service_path ''AddFriend'' \<mapsto> persisted_bytes J 0,
      service_path ''Dialing'' \<mapsto> persisted_bytes J 0)"
    using assms(1-3,6) p
    by (auto simp: initCoordinator_def init_conf_def initService_def stat_file_def split: prod.splits)
  have s: "start_server J (service_server fs' service n :: 'pk coordinator) = Ok ((service_server fs' service n)\<lparr>co_round := 0\<rparr>)"
    if "service = ''AddFriend'' \<or> service = ''Dialing''" for service n
    using that p assms(4) by (auto simp: start_server_def service_server_def fs'(2) LoadPersistedState_def persisted_bytes_def)
  have l: "load_service J fs' service 1 = Some (Some ((service_server fs' service 1 :: 'pk coordinator)\<lparr>co_round := 0\<rparr>))"
    if "service = ''AddFriend'' \<or> service = ''Dialing''" for service
    by (simp add: load_service_def s [OF that])
  have "fs' ''coordinator.conf'' = Some (enc (coordinator_newConf keys))" using p by (simp add: fs'(2))
  then have "coordinator_main J dec fs' =
      Some (Some ((service_server fs' ''AddFriend'' 1 :: 'pk coordinator)\<lparr>co_round := 0\<rparr>), Some ((service_server fs' ''Dialing'' 1)\<lparr>co_round := 0\<rparr>))"
    using l [of "''AddFriend''"] l [of "''Dialing''"] assms(5) by (simp add: coordinator_main_def coordinator_newConf_def)
  then show ?thesis using fs'(1) by (simp add: service_server_def)
qed

text \<open>A file that the operator does not give up keeps its round.\<close>

lemma initService_refused:
  assumes "fs (service_path service) \<noteq> None" and "Overwrite Present typed \<noteq> Some True"
  shows "fst (initService J service typed ok fs) = fs"
  using assms by (auto simp: initService_def stat_file_def split: option.split bool.split)

section \<open>The configuration server\<close>

text \<open>
  \<open>-setConfig\<close>: the configuration in a file becomes current in the state, which is created when its
  file does not exist. The answers are the decoded file, and whether the writes of the new state and
  of the changed one succeed. The flag is false after a fatal error.
\<close>

definition setConfig ::
  "('vk, 'gk) cfg_env \<Rightarrow> (config_server \<Rightarrow> bytes) \<Rightarrow> (bytes \<Rightarrow> config_server option) \<Rightarrow> string list \<Rightarrow> SignedConfig option \<Rightarrow>
   bool \<times> bool \<Rightarrow> bytes option \<Rightarrow> bytes option \<times> bool" where
  "setConfig E enc dec order decoded ok state =
     (case decoded of
        None \<Rightarrow> (state, False)
      | Some conf \<Rightarrow>
          (case LoadServer dec order state of
             Ok server \<Rightarrow>
               (case SetCurrentConfig E (snd ok) conf server of
                  (server', Ok _) \<Rightarrow> (Some (writeState enc server'), True) | _ \<Rightarrow> (state, False))
           | Err ReadStateFailed \<Rightarrow>
               if \<not> fst ok then (state, False)
               else (case SetCurrentConfig E (snd ok) conf CreateServer of
                       (server', Ok _) \<Rightarrow> (Some (writeState enc server'), True)
                     | _ \<Rightarrow> (Some (writeState enc CreateServer), False))
           | _ \<Rightarrow> (state, False)))"

text \<open>The server that starts from the file: it must be there and be loaded.\<close>

definition config_main :: "(bytes \<Rightarrow> config_server option) \<Rightarrow> string list \<Rightarrow> bytes option \<Rightarrow> config_server option" where
  "config_main dec order state = (case LoadServer dec order state of Ok server \<Rightarrow> Some server | _ \<Rightarrow> None)"

lemma load_after_set:
  assumes "find (\<lambda>s. case currentConfig srv s of None \<Rightarrow> False | Some h \<Rightarrow> allConfigs srv h = None) order = None"
    and "SetCurrentConfig E ok conf srv = (srv', Ok u)" and "dec (enc srv') = Some srv'"
  shows "LoadServer dec order (Some (writeState enc srv')) = Ok srv' \<and>
    (\<exists>h. config_Hash E conf = Ok h \<and> server_CurrentConfig (sc_Service conf) srv' = (Some conf, h))"
proof -
  obtain h where h: "config_Hash E conf = Ok h"
    "srv' = srv\<lparr>allConfigs := (allConfigs srv)(h \<mapsto> conf), currentConfig := (currentConfig srv)(sc_Service conf \<mapsto> h)\<rparr>"
    using assms(2) by (auto simp: SetCurrentConfig_def split: outcome.splits if_splits)
  have "find (\<lambda>s. case currentConfig srv' s of None \<Rightarrow> False | Some h \<Rightarrow> allConfigs srv' h = None) order = None"
    using assms(1) h(2) by (fastforce simp: find_None_iff split: option.splits)
  then have "LoadServer dec order (Some (writeState enc srv')) = Ok srv'"
    using assms(3) by (simp add: LoadServer_def writeState_def)
  then show ?thesis using h by (simp add: server_CurrentConfig_def)
qed

text \<open>
  A configuration that the command set is the current one of its service in the server that starts
  from the file, and its signatures are not looked at: every valid configuration can be set.
\<close>

theorem set_config_current:
  assumes "setConfig E enc dec order (Some conf) ok state = (Some b, True)" and "\<And>srv. dec (enc srv) = Some srv"
  shows "\<exists>srv h. config_main dec order (Some b) = Some srv \<and> config_Hash E conf = Ok h \<and>
    server_CurrentConfig (sc_Service conf) srv = (Some conf, h)"
proof -
  have "\<exists>srv srv' u. find (\<lambda>s. case currentConfig srv s of None \<Rightarrow> False | Some h \<Rightarrow> allConfigs srv h = None) order = None \<and>
      SetCurrentConfig E (snd ok) conf srv = (srv', Ok u) \<and> b = writeState enc srv'"
  proof (cases "LoadServer dec order state")
    case (Ok srv)
    then have "find (\<lambda>s. case currentConfig srv s of None \<Rightarrow> False | Some h \<Rightarrow> allConfigs srv h = None) order = None"
      by (auto simp: LoadServer_def split: option.splits list.splits if_splits)
    then show ?thesis using assms(1) Ok by (auto simp: setConfig_def split: prod.splits outcome.splits)
  next
    case (Err e)
    have "find (\<lambda>s. case currentConfig CreateServer s of None \<Rightarrow> False | Some h \<Rightarrow> allConfigs CreateServer h = None) order = None"
      by (simp add: CreateServer_def find_None_iff)
    then show ?thesis using assms(1) Err
      by (cases e) (auto simp: setConfig_def split: prod.splits outcome.splits if_splits)
  qed (use assms(1) in \<open>simp add: setConfig_def\<close>)
  then obtain srv srv' u where s: "find (\<lambda>s. case currentConfig srv s of None \<Rightarrow> False | Some h \<Rightarrow> allConfigs srv h = None) order = None"
    "SetCurrentConfig E (snd ok) conf srv = (srv', Ok u)" "b = writeState enc srv'" by blast
  show ?thesis using load_after_set [OF s(1,2), of dec enc] assms(2) s(3) by (auto simp: config_main_def)
qed

lemma set_config_unverified:
  assumes "config_Validate conf = Ok ()" and "config_Hash E conf = Ok h"
  shows "snd (setConfig E enc dec order (Some conf) (True, True) None)"
  using assms by (simp add: setConfig_def LoadServer_def SetCurrentConfig_def)

section \<open>The PKG server, the mixer and the CDN\<close>

text \<open>
  The servers take the coordinator's key from the current add-friend configuration, which their
  config client fetched and verified; a configuration of another type panics. An error is fatal.
\<close>

definition addfriend_config :: "('e, SignedConfig) outcome \<Rightarrow> (unit, AddFriendConfig) outcome" where
  "addfriend_config signedConfig =
     (case signedConfig of
        Ok c \<Rightarrow> (case sc_Inner c of Some (InnerAddFriend a) \<Rightarrow> Ok a | _ \<Rightarrow> Panic)
      | Err _ \<Rightarrow> Err () | Panic \<Rightarrow> Panic)"

text \<open>\<open>handler\<close> says that there is a handler for registration tokens; \<open>db\<close> is the opened database.\<close>

definition pkg_NewServer ::
  "bytes \<Rightarrow> bytes \<Rightarrow> bytes \<Rightarrow> bool \<Rightarrow> 'db option \<Rightarrow> ('db, 'mpk, 'msk, 'bpk, 'bsk) pkg_server option" where
  "pkg_NewServer SigningKey CoordinatorKey RegistrarKey handler db =
     (if \<not> handler then None
      else map_option (\<lambda>d. \<lparr>pkg_db = d, pkg_rounds = Map.empty, pkg_privateKey = SigningKey, pkg_publicKey = drop 32 SigningKey,
             pkg_coordinatorKey = CoordinatorKey, pkg_registrarKey = RegistrarKey\<rparr>) db)"

text \<open>The server and the address of the registrar's verifier.\<close>

definition pkg_main ::
  "key_conf option \<Rightarrow> ('e, SignedConfig) outcome \<Rightarrow> 'db option \<Rightarrow>
   (unit, ('db, 'mpk, 'msk, 'bpk, 'bsk) pkg_server \<times> string) outcome" where
  "pkg_main conf signedConfig db =
     (case conf of None \<Rightarrow> Err ()
      | Some conf \<Rightarrow>
          (if checkConfig conf \<noteq> Ok () then Err ()
           else bind_outcome (addfriend_config signedConfig) (\<lambda>a.
             if ka_Address (af_Registrar a) = '''' then Err ()
             else (case pkg_NewServer (kc_PrivateKey conf) (ka_Key (af_Coordinator a)) (ka_Key (af_Registrar a)) True db of
                     None \<Rightarrow> Err ()
                   | Some srv \<Rightarrow> Ok (srv, ''https://'' @ ka_Address (af_Registrar a) @ ''/verify'')))))"

definition cdn_main :: "key_conf option \<Rightarrow> ('e, SignedConfig) outcome \<Rightarrow> bool \<Rightarrow> (unit, bytes) outcome" where
  "cdn_main conf signedConfig opened =
     (case conf of None \<Rightarrow> Err ()
      | Some conf \<Rightarrow> if kc_ListenAddr conf = '''' then Err ()
          else bind_outcome (addfriend_config signedConfig) (\<lambda>a. if opened then Ok (ka_Key (af_Coordinator a)) else Err ()))"

text \<open>
  A PKG server that starts has the key pair of its file, and its coordinator and registrar are those
  of an unexpired configuration whose guardians' signatures it has verified.
\<close>

theorem pkg_start_trusts:
  assumes "pkg_main conf (client_CurrentConfig E now resp ''AddFriend'') db = Ok (srv, url)"
  shows "\<exists>c a k. conf = Some k \<and> pkg_publicKey srv = kc_PublicKey k \<and> pkg_privateKey srv = kc_PrivateKey k \<and> pkg_rounds srv = Map.empty \<and>
    sc_Service c = ''AddFriend'' \<and> now \<le> sc_Expires c \<and> config_Verify E c = Ok () \<and> sc_Inner c = Some (InnerAddFriend a) \<and>
    pkg_coordinatorKey srv = ka_Key (af_Coordinator a) \<and> pkg_registrarKey srv = ka_Key (af_Registrar a) \<and> ka_Address (af_Registrar a) \<noteq> ''''"
proof -
  obtain k where k: "conf = Some k" "checkConfig k = Ok ()" using assms by (auto simp: pkg_main_def split: option.splits if_splits)
  obtain a where a: "addfriend_config (client_CurrentConfig E now resp ''AddFriend'') = Ok a" "ka_Address (af_Registrar a) \<noteq> ''''"
    "pkg_NewServer (kc_PrivateKey k) (ka_Key (af_Coordinator a)) (ka_Key (af_Registrar a)) True db = Some srv"
    using assms k by (cases "addfriend_config (client_CurrentConfig E now resp ''AddFriend'')") (auto simp: pkg_main_def split: option.splits if_splits)
  obtain c where c: "client_CurrentConfig E now resp ''AddFriend'' = Ok c" "sc_Inner c = Some (InnerAddFriend a)"
    using a(1) by (auto simp: addfriend_config_def split: outcome.splits option.splits InnerConfig.splits)
  then have "sc_Service c = ''AddFriend''" "now \<le> sc_Expires c" "config_Verify E c = Ok ()"
    by (auto simp: client_CurrentConfig_def split: http_result.splits option.splits outcome.splits if_splits)
  moreover have "kc_PublicKey k = drop 32 (kc_PrivateKey k)" using k(2) by (simp add: checkConfig_def split: if_splits)
  ultimately show ?thesis using k(1) a(2,3) c(2) by (auto simp: pkg_NewServer_def)
qed

text \<open>The mixer has one key for both services, whose handlers are the parameters.\<close>

definition mixer_main ::
  "mixer_conf option \<Rightarrow> ('e, SignedConfig) outcome \<Rightarrow> (nat \<times> nat \<Rightarrow> 'sd mix_service) \<Rightarrow> (nat \<times> nat \<Rightarrow> 'sd mix_service) \<Rightarrow>
   (unit, 'sd mix_server) outcome" where
  "mixer_main conf signedConfig addfriend dialing =
     (case conf of None \<Rightarrow> Err ()
      | Some conf \<Rightarrow> bind_outcome (addfriend_config signedConfig) (\<lambda>a.
          Ok \<lparr>ms_SigningKey = kc_PrivateKey conf, ms_PublicKey = drop 32 (kc_PrivateKey conf), ms_CoordinatorKey = ka_Key (af_Coordinator a),
              ms_Services = [''AddFriend'' \<mapsto> addfriend (mc_AddFriendNoise conf), ''Dialing'' \<mapsto> dialing (mc_DialingNoise conf)],
              ms_rounds = Map.empty\<rparr>))"

end
