(* ===== verification/Spec2Isabelle.thy ===== *)
theory Spec2Isabelle
  imports Keywheel Hybrid Identity Bloom TomlAutomaton Cdn ConfigServer PkgClient MixServices Coordinator Intro ClientRestart
    PkgHttp ClientConnect MixConns Guardian AtomicFile Logging Commands
begin

text \<open>
  A model of Alpenhorn (the Go module neverlur under src/), a system in which two people who know each
  other's names become friends and call each other without the servers learning who talks to whom,
  and the theorems that make it correct. Definitions bear the names of the Go code where Isabelle
  allows it.

  \<^bold>\<open>The program.\<close> A coordinator (src/coordinator) opens rounds of two services, add-friend and
  dialing. In a round every client sends one onion of fixed size to the coordinator, which passes the
  batch through a chain of mix servers (src/mixnet); each strips a layer, adds noise and shuffles, and
  the last hands the messages to the service (src/addfriend, src/dialing), which sorts them into
  mailboxes or Bloom filters and uploads those to a CDN (src/cdn). Clients fetch their mailbox and
  scan it. Add-friend messages are encrypted to a name with keys from private key generators
  (src/pkg); the exchange leaves a shared secret in both clients' keywheels (src/keywheel), from which
  dialing derives the tokens and the session keys of calls. Who the servers are is in signed
  configurations that form a chain (src/config). The post-quantum layer (src/pqkem, src/pqsig,
  src/hybrid, keywheel_seed.go) gives the primitives, identities and the seed of hybrid friendships.

  \<^bold>\<open>The theories.\<close>
  \<^item> Prelude, Instances: bytes, fixed-size arrays, outcomes (a value, an error, a panic), the locale
    \<open>codec\<close> of a wire or disk format; concrete parameters for the witnesses.
  \<^item> Keywheel (src/keywheel/keywheel.go): the ratchet; two wheels with one secret agree on tokens and
    session keys, and erased rounds stay erased. Locale \<open>session_wheel\<close>.
  \<^item> PQ, Hybrid, Identity (src/pqkem, src/pqsig, src/hybrid, src/keywheel_seed.go): lengths and nil
    checks around the primitives, the combiner, the seed both sides agree on, identity files.
  \<^item> Bloom (src/bloom): a filter never forgets; its hashing equals a reference; what a
    filter from outside can make the code do. Locale \<open>membership_filter\<close>.
  \<^item> TomlLexer, TomlParser, TomlGrammar, TomlAutomaton (src/encoding/toml): the lexer ends on every
    input; goyacc's tables and actions compute what the grammar of parser.y says.
  \<^item> Decimal, Http, Cdn (src/cdn): who may write, what a download gives, what expiry deletes.
  \<^item> Config, ConfigCodec, ConfigServer (src/config): signatures, chains, their JSON, the server's
    invariant and what a client that follows a chain may conclude.
  \<^item> Guardian (src/cmd/guardian): the guardians' tools, from the key file to the ceremony after which
    server and clients accept a new configuration.
  \<^item> PkgServer, PkgRound, PkgClient, PkgHttp (src/pkg): registration, extraction, the two phases of a
    round, the client, composed with the server's handler, and the HTTP and errors between them.
  \<^item> MixServer, MixClient, MixRound, MixChain, Mixers, MixServices (src/mixnet, src/addfriend,
    src/dialing): one server's round, the calls between servers, invariants of a round, the refinement
    of a chain to a permutation of the batch and the noise, and the two services behind it (the
    locale \<open>mailbox_service\<close>); MixConns, the pool of connections.
  \<^item> Coordinator (src/coordinator): the loop of rounds, what a batch holds, and that a round number on
    disk is never used again.
  \<^item> Intro, Client, ClientAddFriend, ClientDialing, ClientConnect, Friendship, ClientRestart (the package
    at the root): introductions, the state of a client and its files, the handlers of both protocols,
    its connections, two clients that become friends, a call that arrives, a restart.
  \<^item> TypeSocket (src/typesocket): the websocket hub as interleaved steps; no step panics, queues stay
    within their bound, and a broadcast reaches every connection that stays open.
  \<^item> Transport (src/edtls, src/edhttp): the certificate callbacks and the HTTP client that pins keys.
  \<^item> AtomicFile (src/ioutil2): the file write behind every saved state, call by call, and what a crash
    leaves. Locale \<open>saved_state\<close>, which the files of the coordinator and of the client interpret.
  \<^item> Logging (src/log, src/internal/alplog): levels, the lines and how their fields are read back, a
    file for every day and how it can stop.
  \<^item> Commands (src/cmd): the first files, and the servers that the commands build from them.

  \<^bold>\<open>Composition.\<close> MixServices runs the batch of a coordinator through MixChain into Mixers and reads it
  back; Friendship runs ClientAddFriend on both sides over the formats of Intro into Keywheel;
  ClientDialing ends in Bloom and Keywheel; PkgClient runs against the handler of PkgServer;
  PkgHttp carries its errors; ConfigServer serves the chains Config verifies, which Guardian makes;
  AtomicFile shows that the writes which Coordinator and Client take as one step are what is on the
  disk; Commands starts Coordinator, ConfigServer, PkgServer and MixServer from their files;
  ClientConnect dials, over Transport and TypeSocket, the coordinator that a verified configuration
  names.

  \<^bold>\<open>Conventions.\<close> Cryptography, encoding/json, encoding/gob, databases, gRPC, net/http, crypto/tls and
  websockets are parameters, mostly records of functions; a theorem that needs a law of one of them
  has it as a hypothesis, stated as the library documents it, and a witness with concrete functions.
  Randomness, time, the order of a map's iteration and the outcome of a remote call are arguments. A
  method that holds a mutex is one step; code that gives it back in between is several. Go's
  \<open>uint32\<close> is \<open>32 word\<close> and wraps; \<open>int\<close> counts are unbounded, as no count of the program comes near
  the bounds of 64 bits. The calls that write log lines are left out of the other components.

  \<^bold>\<open>Bounds and termination.\<close> The recursions over lexer positions and rounds terminate by a measure.
  The parser's automaton and the walk along a configuration chain are partial functions in option,
  and that they return is part of a theorem. The only fuel is the limit of ten requests of net/http,
  which is the library's own, and the number of fields in the reader of log lines, which the theorem
  about it gives.

  \<^bold>\<open>Not modelled.\<close> Flags, listeners, certificates of the public web server and shutdown of the commands;
  the announcement tool, which talks to another repository's server; src/debug formats output;
  src/mock are test doubles; src/errors wraps errors. The generated code (easyjson, protobuf, stringer) stands behind
  the JSON and gRPC parameters. The decoder of src/encoding/toml/decode.go after \<open>parse\<close> walks types
  by reflection. Timers, deadlines, connection pooling and the websocket and TLS protocols belong to
  their libraries.
\<close>

end
